(* ===== verification/Prelude.thy ===== *)
theory Prelude
  imports Main "HOL-Library.Word" "HOL-Library.Code_Target_Nat"
begin

section \<open>Shared types, errors and list lemmas\<close>

text \<open>
  What every component of the model shares: bytes and strings, Go's error values, the
  result type of a fallible call, state-passing operations, and generic lemmas on lists
  that the table operations and the encoders use.

  A Go \<^verbatim>\<open>string\<close> and a Go \<^verbatim>\<open>[]byte\<close> are both byte sequences. Text is an
  Isabelle \<open>string\<close> (a list of 8-bit characters, so multi-byte UTF-8 text is several of
  them); binary data is a list of \<open>8 word\<close>. The conversions \<^verbatim>\<open>[]byte(s)\<close> and
  \<^verbatim>\<open>string(b)\<close> are \<open>bytes_of_string\<close> and \<open>string_of_bytes\<close>, mutually inverse.
\<close>

named_theorems table_simps \<open>how the table operations read and write the tables\<close>
named_theorems codec_simps \<open>evaluation and inversion of the encoders\<close>

type_synonym byte = "8 word"
type_synonym bytes = "byte list"

definition bytes_of_string :: "string \<Rightarrow> bytes" where
  "bytes_of_string s = map (\<lambda>c. of_nat (of_char c)) s"

definition string_of_bytes :: "bytes \<Rightarrow> string" where
  "string_of_bytes b = map (\<lambda>x. char_of (unat x)) b"

lemma of_char_less_256 [simp]: "(of_char c :: nat) < 256"
proof -
  have "(of_char c :: nat) = of_char c mod 256"
    by (metis char_of_mod_256 of_char_of char_of_char of_char_mod_256)
  then show ?thesis
    by (metis mod_less_divisor zero_less_numeral)
qed

lemma unat_of_char [simp]: "unat (of_nat (of_char c) :: byte) = of_char c"
  by (simp add: unat_of_nat)

lemma string_of_bytes_of_string [simp, codec_simps]:
  "string_of_bytes (bytes_of_string s) = s"
  by (simp add: string_of_bytes_def bytes_of_string_def comp_def)

lemma bytes_of_string_of_bytes [simp, codec_simps]:
  "bytes_of_string (string_of_bytes b) = b"
proof -
  have "of_nat (of_char (char_of (unat x) :: char)) = x" for x :: byte
  proof -
    have "unat x < 256"
      using unsigned_less [of x] by simp
    then show ?thesis by simp
  qed
  then show ?thesis
    by (simp add: string_of_bytes_def bytes_of_string_def comp_def)
qed

lemma length_bytes_of_string [simp]: "length (bytes_of_string s) = length s"
  by (simp add: bytes_of_string_def)

lemma length_string_of_bytes [simp]: "length (string_of_bytes b) = length b"
  by (simp add: string_of_bytes_def)

lemma bytes_of_string_eq_iff [simp]: "bytes_of_string s = bytes_of_string t \<longleftrightarrow> s = t"
  by (metis string_of_bytes_of_string)

subsection \<open>Go errors\<close>

text \<open>
  \<open>Sentinel\<close> is a package-level error value that callers compare against, such as
  \<^verbatim>\<open>domain.ErrActorNotFound\<close>; \<open>Errorf\<close> is an error made on the spot;
  \<open>Wrap pre e post\<close> is \<^verbatim>\<open>fmt.Errorf("pre%wpost", e)\<close>, which keeps the wrapped error
  visible to \<^verbatim>\<open>errors.Is\<close>.
\<close>

datatype go_error = Sentinel string | Errorf string | Wrap string go_error string

fun error_text :: "go_error \<Rightarrow> string" where
  "error_text (Sentinel s) = s"
| "error_text (Errorf s) = s"
| "error_text (Wrap pre e post) = pre @ error_text e @ post"

fun error_is :: "go_error \<Rightarrow> go_error \<Rightarrow> bool" where
  "error_is (Wrap pre e post) t = error_is e t"
| "error_is (Sentinel s) t = (t = Sentinel s)"
| "error_is (Errorf s) t = False"

type_synonym 'a result = "go_error + 'a"

text \<open>A call on some mutable state: its result and the state it leaves.\<close>

type_synonym ('s, 'a) op = "'s \<Rightarrow> 'a result \<times> 's"

text \<open>
  Go's \<^verbatim>\<open>x, err := f(); if err != nil { return err }; ...\<close> is \<open>bind_op f (\<lambda>x. ...)\<close>;
  \<open>wrapping msg f\<close> is the common variant that returns
  \<^verbatim>\<open>fmt.Errorf("msg: %w", err)\<close>.
\<close>

definition return_op :: "'a \<Rightarrow> ('s, 'a) op" where
  "return_op x s = (Inr x, s)"

definition fail_op :: "go_error \<Rightarrow> ('s, 'a) op" where
  "fail_op e s = (Inl e, s)"

definition lift_op :: "'a result \<Rightarrow> ('s, 'a) op" where
  "lift_op r s = (r, s)"

definition bind_op :: "('s, 'a) op \<Rightarrow> ('a \<Rightarrow> ('s, 'b) op) \<Rightarrow> ('s, 'b) op" where
  "bind_op f g s = (case f s of (Inl e, s') \<Rightarrow> (Inl e, s') | (Inr x, s') \<Rightarrow> g x s')"

definition wrap_error :: "string \<Rightarrow> 'a result \<Rightarrow> 'a result" where
  "wrap_error msg r = (case r of Inl e \<Rightarrow> Inl (Wrap (msg @ '': '') e []) | Inr x \<Rightarrow> Inr x)"

definition wrapping :: "string \<Rightarrow> ('s, 'a) op \<Rightarrow> ('s, 'a) op" where
  "wrapping msg f s = (case f s of (r, s') \<Rightarrow> (wrap_error msg r, s'))"

lemma wrap_error_simps [simp]:
  "wrap_error msg (Inr x) = Inr x" "wrap_error msg (Inl e) = Inl (Wrap (msg @ '': '') e [])"
  "wrap_error msg r = Inr x \<longleftrightarrow> r = Inr x"
  by (auto simp: wrap_error_def split: sum.splits)

lemmas op_defs = return_op_def fail_op_def lift_op_def bind_op_def wrapping_def

lemma result_cases [case_names Error Ok]:
  "(\<And>e. r = Inl e \<Longrightarrow> P) \<Longrightarrow> (\<And>x. r = Inr x \<Longrightarrow> P) \<Longrightarrow> P"
  by (cases r) auto

text \<open>A loop over a list that stops at the first error.\<close>

fun each_op :: "('a \<Rightarrow> ('s, unit) op) \<Rightarrow> 'a list \<Rightarrow> ('s, unit) op" where
  "each_op f [] = return_op ()"
| "each_op f (x # xs) = bind_op (f x) (\<lambda>_. each_op f xs)"

text \<open>A deferred close: its error is returned only if the body returned none.\<close>

definition closing :: "string \<Rightarrow> ('s, unit) op \<Rightarrow> ('s, 'a) op \<Rightarrow> ('s, 'a) op" where
  "closing msg close f s =
     (case f s of (r, s1) \<Rightarrow>
        case close s1 of (c, s2) \<Rightarrow>
          (case r of
             Inl e \<Rightarrow> (Inl e, s2)
           | Inr x \<Rightarrow> (case wrap_error msg c of Inl e \<Rightarrow> (Inl e, s2) | Inr _ \<Rightarrow> (Inr x, s2))))"

text \<open>The verb \<^verbatim>\<open>%d\<close> on a number that is not negative.\<close>

fun decimal :: "nat \<Rightarrow> string" where
  "decimal n =
     (if n < 10 then [char_of (48 + n)] else decimal (n div 10) @ [char_of (48 + n mod 10)])"

declare decimal.simps [simp del]

subsection \<open>Updating the rows that match a condition\<close>

text \<open>SQL's \<^verbatim>\<open>UPDATE ... SET f WHERE p\<close> over a table kept as a list of rows.\<close>

definition update_where :: "('a \<Rightarrow> bool) \<Rightarrow> ('a \<Rightarrow> 'a) \<Rightarrow> 'a list \<Rightarrow> 'a list" where
  "update_where p f xs = map (\<lambda>x. if p x then f x else x) xs"

lemma length_update_where [simp]: "length (update_where p f xs) = length xs"
  by (simp add: update_where_def)

lemma update_where_Nil [simp]: "update_where p f [] = []"
  by (simp add: update_where_def)

lemma update_where_Cons [simp]:
  "update_where p f (x # xs) = (if p x then f x else x) # update_where p f xs"
  by (simp add: update_where_def)

lemma map_update_where [table_simps]:
  "(\<And>x. p x \<Longrightarrow> g (f x) = g x) \<Longrightarrow> map g (update_where p f xs) = map g xs"
  by (induction xs) auto

lemma set_update_where:
  "set (update_where p f xs) = (\<lambda>x. if p x then f x else x) ` set xs"
  by (simp add: update_where_def)

lemma update_where_id [table_simps]:
  "(\<And>x. x \<in> set xs \<Longrightarrow> \<not> p x) \<Longrightarrow> update_where p f xs = xs"
  by (induction xs) auto

lemma filter_update_where_other [table_simps]:
  "(\<And>x. p x \<Longrightarrow> \<not> q x) \<Longrightarrow> (\<And>x. p x \<Longrightarrow> \<not> q (f x)) \<Longrightarrow>
   filter q (update_where p f xs) = filter q xs"
  by (induction xs) auto

lemma distinct_map_find:
  "distinct (map g xs) \<Longrightarrow> x \<in> set xs \<Longrightarrow> find (\<lambda>y. g y = g x) xs = Some x"
  by (induction xs) (auto simp: image_iff)

lemma find_Some_D: "find p xs = Some x \<Longrightarrow> x \<in> set xs \<and> p x"
  by (auto simp: find_Some_iff)

lemma distinct_map_eqD:
  "distinct (map g xs) \<Longrightarrow> x \<in> set xs \<Longrightarrow> y \<in> set xs \<Longrightarrow> g x = g y \<Longrightarrow> x = y"
  by (auto simp: distinct_map inj_on_def)

end
