(* ===== verification/Store.thy ===== *)
theory Store
  imports Prelude
begin

section \<open>The database tables and the statements over them\<close>

text \<open>
  The rows are the structs of \<^verbatim>\<open>internal/domain/models.go\<close>; a table is the list of its
  rows, in the order they were inserted; \<open>wf_tables\<close> is what the constraints of the schema
  (\<^verbatim>\<open>sql/\<close>) promise: unique columns, foreign keys, and the rule that a row is revoked
  exactly when it carries a revocation root.

  A statement of the repository code takes the database server's time, the tables and the
  sequences that number new rows, and returns its result with the new tables and sequences.
  A statement that fails leaves the tables as they were. Times are the server's seconds.
\<close>

subsection \<open>Rows\<close>

record actor =
  a_id :: nat
  a_actor_id :: string
  a_is_fireproof :: bool
  a_created_at :: nat
  a_updated_at :: nat

record public_key =
  pk_id :: nat
  pk_actor_id :: nat
  pk_key_id :: string
  pk_public_key :: string
  pk_created_at :: nat
  pk_merkle_root :: string
  pk_revoked_at :: "nat option"
  pk_revoke_root :: "string option"
  pk_inclusion_proof :: "string list"

record auxiliary_data =
  ad_id :: nat
  ad_actor_id :: nat
  ad_aux_id :: string
  ad_aux_type :: string
  ad_aux_data :: string
  ad_created_at :: nat
  ad_merkle_root :: string
  ad_revoked_at :: "nat option"
  ad_revoke_root :: "string option"

record symmetric_key =
  sk_id :: nat
  sk_message_hash :: string
  sk_attribute :: string
  sk_key :: bytes
  sk_created_at :: nat

record message_log =
  ml_id :: nat
  ml_message_hash :: string
  ml_encrypted_message :: string
  ml_decrypted_message :: string
  ml_created_at :: nat

record totp_secret =
  ts_id :: nat
  ts_instance :: string
  ts_encrypted_secret :: bytes
  ts_created_at :: nat
  ts_updated_at :: nat

subsection \<open>Tables and sequences\<close>

record tables =
  actors :: "actor list"
  public_keys :: "public_key list"
  auxiliary_data_rows :: "auxiliary_data list"
  symmetric_keys :: "symmetric_key list"
  message_logs :: "message_log list"
  totp_secrets :: "totp_secret list"

text \<open>The last number each sequence has given out.\<close>

record sequences =
  seq_actors :: nat
  seq_keys :: nat
  seq_aux :: nat
  seq_sym :: nat
  seq_logs :: nat
  seq_totp :: nat

definition empty_tables :: tables where
  "empty_tables =
     \<lparr> actors = [], public_keys = [], auxiliary_data_rows = [], symmetric_keys = [],
       message_logs = [], totp_secrets = [] \<rparr>"

definition zero_sequences :: sequences where
  "zero_sequences =
     \<lparr> seq_actors = 0, seq_keys = 0, seq_aux = 0, seq_sym = 0, seq_logs = 0, seq_totp = 0 \<rparr>"

definition wf_actors :: "actor list \<Rightarrow> bool" where
  "wf_actors as \<longleftrightarrow> distinct (map a_id as) \<and> distinct (map a_actor_id as)"

definition wf_keys :: "nat set \<Rightarrow> public_key list \<Rightarrow> bool" where
  "wf_keys ids ks \<longleftrightarrow>
     distinct (map pk_id ks) \<and> distinct (map pk_key_id ks) \<and>
     (\<forall>k \<in> set ks. pk_actor_id k \<in> ids \<and> (pk_revoked_at k = None \<longleftrightarrow> pk_revoke_root k = None))"

definition wf_aux :: "nat set \<Rightarrow> auxiliary_data list \<Rightarrow> bool" where
  "wf_aux ids ds \<longleftrightarrow>
     distinct (map ad_id ds) \<and> distinct (map ad_aux_id ds) \<and>
     (\<forall>d \<in> set ds. ad_actor_id d \<in> ids \<and> (ad_revoked_at d = None \<longleftrightarrow> ad_revoke_root d = None))"

definition wf_sym :: "symmetric_key list \<Rightarrow> bool" where
  "wf_sym ss \<longleftrightarrow> distinct (map sk_id ss) \<and> distinct (map (\<lambda>s. (sk_message_hash s, sk_attribute s)) ss)"

definition wf_logs :: "message_log list \<Rightarrow> bool" where
  "wf_logs ls \<longleftrightarrow> distinct (map ml_id ls) \<and> distinct (map ml_message_hash ls)"

definition wf_totp :: "totp_secret list \<Rightarrow> bool" where
  "wf_totp ts \<longleftrightarrow> distinct (map ts_id ts) \<and> distinct (map ts_instance ts)"

definition wf_tables :: "tables \<Rightarrow> bool" where
  "wf_tables t \<longleftrightarrow>
     wf_actors (actors t) \<and> wf_keys (a_id ` set (actors t)) (public_keys t) \<and>
     wf_aux (a_id ` set (actors t)) (auxiliary_data_rows t) \<and> wf_sym (symmetric_keys t) \<and>
     wf_logs (message_logs t) \<and> wf_totp (totp_secrets t)"

text \<open>No sequence will give out a number that a row already has.\<close>

definition numbered :: "tables \<Rightarrow> sequences \<Rightarrow> bool" where
  "numbered t q \<longleftrightarrow>
     (\<forall>a \<in> set (actors t). a_id a \<le> seq_actors q) \<and>
     (\<forall>k \<in> set (public_keys t). pk_id k \<le> seq_keys q) \<and>
     (\<forall>d \<in> set (auxiliary_data_rows t). ad_id d \<le> seq_aux q) \<and>
     (\<forall>s \<in> set (symmetric_keys t). sk_id s \<le> seq_sym q) \<and>
     (\<forall>l \<in> set (message_logs t). ml_id l \<le> seq_logs q) \<and>
     (\<forall>x \<in> set (totp_secrets t). ts_id x \<le> seq_totp q)"

definition seq_le :: "sequences \<Rightarrow> sequences \<Rightarrow> bool" where
  "seq_le q q' \<longleftrightarrow>
     seq_actors q \<le> seq_actors q' \<and> seq_keys q \<le> seq_keys q' \<and> seq_aux q \<le> seq_aux q' \<and>
     seq_sym q \<le> seq_sym q' \<and> seq_logs q \<le> seq_logs q' \<and> seq_totp q \<le> seq_totp q'"

lemma seq_le_refl [simp]: "seq_le q q"
  by (simp add: seq_le_def)

lemma seq_le_trans: "seq_le q r \<Longrightarrow> seq_le r s \<Longrightarrow> seq_le q s"
  by (auto simp: seq_le_def)

lemma numbered_mono: "numbered t q \<Longrightarrow> seq_le q q' \<Longrightarrow> numbered t q'"
  by (fastforce simp: numbered_def seq_le_def)

lemma wf_empty [simp]: "wf_tables empty_tables" "numbered empty_tables q"
  by (simp_all add: wf_tables_def empty_tables_def wf_actors_def wf_keys_def wf_aux_def wf_sym_def
      wf_logs_def wf_totp_def numbered_def)

subsection \<open>Reading\<close>

definition find_actor :: "string \<Rightarrow> tables \<Rightarrow> actor option" where
  "find_actor actorID t = find (\<lambda>a. a_actor_id a = actorID) (actors t)"

text \<open>The join of a row's owner with the actors, on the canonical actor ID.\<close>

definition owned_by :: "string \<Rightarrow> tables \<Rightarrow> nat \<Rightarrow> bool" where
  "owned_by actorID t owner \<longleftrightarrow> list_ex (\<lambda>a. a_id a = owner \<and> a_actor_id a = actorID) (actors t)"

definition active_keys :: "string \<Rightarrow> tables \<Rightarrow> public_key list" where
  "active_keys actorID t =
     filter (\<lambda>k. owned_by actorID t (pk_actor_id k) \<and> pk_revoked_at k = None) (public_keys t)"

definition active_aux :: "string \<Rightarrow> tables \<Rightarrow> auxiliary_data list" where
  "active_aux actorID t =
     filter (\<lambda>d. owned_by actorID t (ad_actor_id d) \<and> ad_revoked_at d = None) (auxiliary_data_rows t)"

text \<open>Every root an actor's keys were added or revoked under: \<^verbatim>\<open>UNION\<close> drops duplicates.\<close>

definition key_roots :: "nat \<Rightarrow> tables \<Rightarrow> string list" where
  "key_roots owner t =
     remdups
       (map pk_merkle_root (filter (\<lambda>k. pk_actor_id k = owner) (public_keys t)) @
        List.map_filter pk_revoke_root (filter (\<lambda>k. pk_actor_id k = owner) (public_keys t)))"

text \<open>\<^verbatim>\<open>ORDER BY created_at DESC LIMIT 1\<close>; among equal times, the row inserted last.\<close>

fun latest_key :: "public_key list \<Rightarrow> public_key option" where
  "latest_key [] = None"
| "latest_key (k # ks) =
     (case latest_key ks of
        None \<Rightarrow> Some k
      | Some m \<Rightarrow> if pk_created_at m < pk_created_at k then Some k else Some m)"

definition symmetric_keys_of :: "string \<Rightarrow> tables \<Rightarrow> symmetric_key list" where
  "symmetric_keys_of messageHash t = filter (\<lambda>s. sk_message_hash s = messageHash) (symmetric_keys t)"

subsection \<open>Writing\<close>

definition new_actor :: "nat \<Rightarrow> nat \<Rightarrow> string \<Rightarrow> actor" where
  "new_actor i now actorID =
     \<lparr> a_id = i, a_actor_id = actorID, a_is_fireproof = False, a_created_at = now, a_updated_at = now \<rparr>"

definition rename_actor :: "nat \<Rightarrow> string \<Rightarrow> string \<Rightarrow> tables \<Rightarrow> tables" where
  "rename_actor now old new t =
     t\<lparr> actors := update_where (\<lambda>a. a_actor_id a = old)
                    (\<lambda>a. a\<lparr> a_actor_id := new, a_updated_at := now \<rparr>) (actors t) \<rparr>"

definition set_fireproof :: "nat \<Rightarrow> string \<Rightarrow> bool \<Rightarrow> tables \<Rightarrow> tables" where
  "set_fireproof now actorID b t =
     t\<lparr> actors := update_where (\<lambda>a. a_actor_id a = actorID)
                    (\<lambda>a. a\<lparr> a_is_fireproof := b, a_updated_at := now \<rparr>) (actors t) \<rparr>"

definition revoked :: "nat \<Rightarrow> string \<Rightarrow> public_key \<Rightarrow> public_key" where
  "revoked now root k = k\<lparr> pk_revoked_at := Some now, pk_revoke_root := Some root \<rparr>"

definition revoke_keys_where :: "(public_key \<Rightarrow> bool) \<Rightarrow> nat \<Rightarrow> string \<Rightarrow> tables \<Rightarrow> tables" where
  "revoke_keys_where p now root t =
     t\<lparr> public_keys := update_where p (revoked now root) (public_keys t) \<rparr>"

definition revoke_aux_where :: "(auxiliary_data \<Rightarrow> bool) \<Rightarrow> nat \<Rightarrow> string \<Rightarrow> tables \<Rightarrow> tables" where
  "revoke_aux_where p now root t =
     t\<lparr> auxiliary_data_rows :=
          update_where p (\<lambda>d. d\<lparr> ad_revoked_at := Some now, ad_revoke_root := Some root \<rparr>)
            (auxiliary_data_rows t) \<rparr>"

definition forget_symmetric_keys :: "string list \<Rightarrow> tables \<Rightarrow> tables" where
  "forget_symmetric_keys hashes t =
     t\<lparr> symmetric_keys := filter (\<lambda>s. sk_message_hash s \<notin> set hashes) (symmetric_keys t) \<rparr>"

subsection \<open>Statements\<close>

type_synonym 'a stmt = "nat \<Rightarrow> tables \<Rightarrow> sequences \<Rightarrow> 'a result \<times> tables \<times> sequences"

definition constraint_error :: go_error where
  "constraint_error = Errorf ''constraint failed''"

definition query :: "(tables \<Rightarrow> 'a) \<Rightarrow> 'a stmt" where
  "query f now t q = (Inr (f t), t, q)"

definition stmt_insert_actor :: "string \<Rightarrow> actor stmt" where
  "stmt_insert_actor actorID now t q =
     (let i = Suc (seq_actors q); q' = q\<lparr> seq_actors := i \<rparr>; a = new_actor i now actorID in
      if find_actor actorID t \<noteq> None then (Inl constraint_error, t, q')
      else (Inr a, t\<lparr> actors := actors t @ [a] \<rparr>, q'))"

definition stmt_update_actor_id :: "string \<Rightarrow> string \<Rightarrow> nat stmt" where
  "stmt_update_actor_id old new now t q =
     (if find_actor old t = None then (Inr 0, t, q)
      else if old \<noteq> new \<and> find_actor new t \<noteq> None then (Inl constraint_error, t, q)
      else (Inr 1, rename_actor now old new t, q))"

definition stmt_set_fireproof :: "string \<Rightarrow> bool \<Rightarrow> nat stmt" where
  "stmt_set_fireproof actorID b now t q =
     (Inr (length (filter (\<lambda>a. a_actor_id a = actorID) (actors t))), set_fireproof now actorID b t, q)"

definition key_row :: "nat \<Rightarrow> nat \<Rightarrow> public_key \<Rightarrow> public_key" where
  "key_row i now k =
     \<lparr> pk_id = i, pk_actor_id = pk_actor_id k, pk_key_id = pk_key_id k, pk_public_key = pk_public_key k,
       pk_created_at = now, pk_merkle_root = pk_merkle_root k, pk_revoked_at = None,
       pk_revoke_root = None, pk_inclusion_proof = [] \<rparr>"

text \<open>\<^verbatim>\<open>RETURNING id, created_at\<close>.\<close>

definition stmt_insert_public_key :: "public_key \<Rightarrow> (nat \<times> nat) stmt" where
  "stmt_insert_public_key k now t q =
     (let i = Suc (seq_keys q); q' = q\<lparr> seq_keys := i \<rparr> in
      if pk_key_id k \<in> pk_key_id ` set (public_keys t) \<or> pk_actor_id k \<notin> a_id ` set (actors t)
      then (Inl constraint_error, t, q')
      else (Inr (i, now), t\<lparr> public_keys := public_keys t @ [key_row i now k] \<rparr>, q'))"

definition stmt_revoke_key :: "nat \<Rightarrow> string \<Rightarrow> unit stmt" where
  "stmt_revoke_key keyID revokeRoot now t q =
     (Inr (), revoke_keys_where (\<lambda>k. pk_id k = keyID) now revokeRoot t, q)"

definition stmt_revoke_all_keys :: "nat \<Rightarrow> string \<Rightarrow> unit stmt" where
  "stmt_revoke_all_keys owner merkleRoot now t q =
     (Inr (), revoke_keys_where (\<lambda>k. pk_actor_id k = owner \<and> pk_revoked_at k = None) now merkleRoot t, q)"

definition aux_row :: "nat \<Rightarrow> nat \<Rightarrow> auxiliary_data \<Rightarrow> auxiliary_data" where
  "aux_row i now d =
     \<lparr> ad_id = i, ad_actor_id = ad_actor_id d, ad_aux_id = ad_aux_id d, ad_aux_type = ad_aux_type d,
       ad_aux_data = ad_aux_data d, ad_created_at = now, ad_merkle_root = ad_merkle_root d,
       ad_revoked_at = None, ad_revoke_root = None \<rparr>"

definition stmt_insert_aux_data :: "auxiliary_data \<Rightarrow> (nat \<times> nat) stmt" where
  "stmt_insert_aux_data d now t q =
     (let i = Suc (seq_aux q); q' = q\<lparr> seq_aux := i \<rparr> in
      if ad_aux_id d \<in> ad_aux_id ` set (auxiliary_data_rows t) \<or> ad_actor_id d \<notin> a_id ` set (actors t)
      then (Inl constraint_error, t, q')
      else (Inr (i, now), t\<lparr> auxiliary_data_rows := auxiliary_data_rows t @ [aux_row i now d] \<rparr>, q'))"

definition aux_to_revoke :: "string \<Rightarrow> string \<Rightarrow> tables \<Rightarrow> auxiliary_data \<Rightarrow> bool" where
  "aux_to_revoke actorID auxID t d \<longleftrightarrow>
     owned_by actorID t (ad_actor_id d) \<and> ad_aux_id d = auxID \<and> ad_revoked_at d = None"

text \<open>\<^verbatim>\<open>UPDATE ... WHERE id IN (SELECT ad.id ...)\<close>, as SQLite gets it.\<close>

definition stmt_revoke_aux_in :: "string \<Rightarrow> string \<Rightarrow> string \<Rightarrow> nat stmt" where
  "stmt_revoke_aux_in actorID auxID revokeRoot now t q =
     (let ids = map ad_id (filter (aux_to_revoke actorID auxID t) (auxiliary_data_rows t));
          p = (\<lambda>d. ad_id d \<in> set ids)
      in (Inr (length (filter p (auxiliary_data_rows t))), revoke_aux_where p now revokeRoot t, q))"

text \<open>\<^verbatim>\<open>UPDATE ... FROM actors a WHERE ...\<close>, as PostgreSQL gets it.\<close>

definition stmt_revoke_aux_from :: "string \<Rightarrow> string \<Rightarrow> string \<Rightarrow> nat stmt" where
  "stmt_revoke_aux_from actorID auxID revokeRoot now t q =
     (let p = aux_to_revoke actorID auxID t
      in (Inr (length (filter p (auxiliary_data_rows t))), revoke_aux_where p now revokeRoot t, q))"

definition stmt_insert_symmetric_key :: "string \<Rightarrow> string \<Rightarrow> bytes \<Rightarrow> unit stmt" where
  "stmt_insert_symmetric_key messageHash attribute key now t q =
     (let i = Suc (seq_sym q); q' = q\<lparr> seq_sym := i \<rparr> in
      if (messageHash, attribute) \<in> (\<lambda>s. (sk_message_hash s, sk_attribute s)) ` set (symmetric_keys t)
      then (Inl constraint_error, t, q')
      else (Inr (),
            t\<lparr> symmetric_keys := symmetric_keys t @
                 [\<lparr> sk_id = i, sk_message_hash = messageHash, sk_attribute = attribute, sk_key = key,
                    sk_created_at = now \<rparr>] \<rparr>, q'))"

definition stmt_delete_symmetric_keys :: "string list \<Rightarrow> unit stmt" where
  "stmt_delete_symmetric_keys hashes now t q = (Inr (), forget_symmetric_keys hashes t, q)"

definition stmt_insert_message_log :: "string \<Rightarrow> string \<Rightarrow> string \<Rightarrow> unit stmt" where
  "stmt_insert_message_log hash raw decrypted now t q =
     (let i = Suc (seq_logs q); q' = q\<lparr> seq_logs := i \<rparr> in
      if hash \<in> ml_message_hash ` set (message_logs t) then (Inl constraint_error, t, q')
      else (Inr (),
            t\<lparr> message_logs := message_logs t @
                 [\<lparr> ml_id = i, ml_message_hash = hash, ml_encrypted_message = raw,
                    ml_decrypted_message = decrypted, ml_created_at = now \<rparr>] \<rparr>, q'))"

text \<open>\<^verbatim>\<open>INSERT ... ON CONFLICT (instance) DO UPDATE\<close>.\<close>

definition stmt_upsert_totp :: "string \<Rightarrow> bytes \<Rightarrow> unit stmt" where
  "stmt_upsert_totp inst secret now t q =
     (let i = Suc (seq_totp q); q' = q\<lparr> seq_totp := i \<rparr> in
      if inst \<in> ts_instance ` set (totp_secrets t)
      then (Inr (),
            t\<lparr> totp_secrets := update_where (\<lambda>x. ts_instance x = inst)
                 (\<lambda>x. x\<lparr> ts_encrypted_secret := secret, ts_updated_at := now \<rparr>) (totp_secrets t) \<rparr>, q')
      else (Inr (),
            t\<lparr> totp_secrets := totp_secrets t @
                 [\<lparr> ts_id = i, ts_instance = inst, ts_encrypted_secret = secret,
                    ts_created_at = now, ts_updated_at = now \<rparr>] \<rparr>, q'))"

definition stmt_delete_totp :: "string \<Rightarrow> nat stmt" where
  "stmt_delete_totp inst now t q =
     (Inr (length (filter (\<lambda>x. ts_instance x = inst) (totp_secrets t))),
      t\<lparr> totp_secrets := filter (\<lambda>x. ts_instance x \<noteq> inst) (totp_secrets t) \<rparr>, q)"

end
