(* ===== verification/StoreLaws.thy ===== *)
theory StoreLaws
  imports Store
begin

section \<open>What the statements promise\<close>

text \<open>
  For each statement, the relation between the tables before, the result and the tables
  after (a \<open>_spec\<close>), free of the way rows are numbered and times are read; and the proof
  that the statement keeps the constraints of the schema and the numbering, and satisfies
  its relation when it succeeds. The two database back ends lift these facts to their
  transactions.
\<close>

type_synonym 'a table_spec = "tables \<Rightarrow> 'a \<Rightarrow> tables \<Rightarrow> bool"

definition query_spec :: "(tables \<Rightarrow> 'a) \<Rightarrow> 'a table_spec" where
  "query_spec f t r t' \<longleftrightarrow> r = f t \<and> t' = t"

definition insert_actor_spec :: "string \<Rightarrow> actor table_spec" where
  "insert_actor_spec actorID t a t' \<longleftrightarrow>
     find_actor actorID t = None \<and> a_id a \<notin> a_id ` set (actors t) \<and>
     (\<exists>i now. a = new_actor i now actorID) \<and> t' = t\<lparr> actors := actors t @ [a] \<rparr>"

definition update_actor_id_spec :: "string \<Rightarrow> string \<Rightarrow> nat table_spec" where
  "update_actor_id_spec old new t n t' \<longleftrightarrow>
     (if find_actor old t = None then n = 0 \<and> t' = t
      else n = 1 \<and> (old = new \<or> find_actor new t = None) \<and> (\<exists>now. t' = rename_actor now old new t))"

definition set_fireproof_spec :: "string \<Rightarrow> bool \<Rightarrow> nat table_spec" where
  "set_fireproof_spec actorID b t n t' \<longleftrightarrow>
     (n = 0 \<longleftrightarrow> find_actor actorID t = None) \<and> (\<exists>now. t' = set_fireproof now actorID b t)"

definition insert_public_key_spec :: "public_key \<Rightarrow> (nat \<times> nat) table_spec" where
  "insert_public_key_spec k t r t' \<longleftrightarrow>
     fst r \<notin> pk_id ` set (public_keys t) \<and> pk_key_id k \<notin> pk_key_id ` set (public_keys t) \<and>
     pk_actor_id k \<in> a_id ` set (actors t) \<and>
     t' = t\<lparr> public_keys := public_keys t @ [key_row (fst r) (snd r) k] \<rparr>"

definition revoke_key_spec :: "nat \<Rightarrow> string \<Rightarrow> unit table_spec" where
  "revoke_key_spec keyID root t u t' \<longleftrightarrow>
     (\<exists>now. t' = revoke_keys_where (\<lambda>k. pk_id k = keyID) now root t)"

definition revoke_all_keys_spec :: "nat \<Rightarrow> string \<Rightarrow> unit table_spec" where
  "revoke_all_keys_spec owner root t u t' \<longleftrightarrow>
     (\<exists>now. t' = revoke_keys_where (\<lambda>k. pk_actor_id k = owner \<and> pk_revoked_at k = None) now root t)"

definition insert_aux_data_spec :: "auxiliary_data \<Rightarrow> (nat \<times> nat) table_spec" where
  "insert_aux_data_spec d t r t' \<longleftrightarrow>
     fst r \<notin> ad_id ` set (auxiliary_data_rows t) \<and> ad_aux_id d \<notin> ad_aux_id ` set (auxiliary_data_rows t) \<and>
     ad_actor_id d \<in> a_id ` set (actors t) \<and>
     t' = t\<lparr> auxiliary_data_rows := auxiliary_data_rows t @ [aux_row (fst r) (snd r) d] \<rparr>"

definition revoke_aux_spec :: "string \<Rightarrow> string \<Rightarrow> string \<Rightarrow> nat table_spec" where
  "revoke_aux_spec actorID auxID root t n t' \<longleftrightarrow>
     n = length (filter (aux_to_revoke actorID auxID t) (auxiliary_data_rows t)) \<and>
     (\<exists>now. t' = revoke_aux_where (aux_to_revoke actorID auxID t) now root t)"

definition insert_symmetric_key_spec :: "string \<Rightarrow> string \<Rightarrow> bytes \<Rightarrow> unit table_spec" where
  "insert_symmetric_key_spec hash attr key t u t' \<longleftrightarrow>
     (hash, attr) \<notin> (\<lambda>s. (sk_message_hash s, sk_attribute s)) ` set (symmetric_keys t) \<and>
     (\<exists>i now. t' = t\<lparr> symmetric_keys := symmetric_keys t @
        [\<lparr> sk_id = i, sk_message_hash = hash, sk_attribute = attr, sk_key = key, sk_created_at = now \<rparr>] \<rparr>)"

definition delete_symmetric_keys_spec :: "string list \<Rightarrow> unit table_spec" where
  "delete_symmetric_keys_spec hashes t u t' \<longleftrightarrow> t' = forget_symmetric_keys hashes t"

definition insert_message_log_spec :: "string \<Rightarrow> string \<Rightarrow> string \<Rightarrow> unit table_spec" where
  "insert_message_log_spec hash raw decrypted t u t' \<longleftrightarrow>
     hash \<notin> ml_message_hash ` set (message_logs t) \<and>
     (\<exists>i now. t' = t\<lparr> message_logs := message_logs t @
        [\<lparr> ml_id = i, ml_message_hash = hash, ml_encrypted_message = raw,
           ml_decrypted_message = decrypted, ml_created_at = now \<rparr>] \<rparr>)"

definition upsert_totp_spec :: "string \<Rightarrow> bytes \<Rightarrow> unit table_spec" where
  "upsert_totp_spec inst secret t u t' \<longleftrightarrow>
     (\<exists>rows. t' = t\<lparr> totp_secrets := rows \<rparr> \<and>
        map_option ts_encrypted_secret (find (\<lambda>x. ts_instance x = inst) rows) = Some secret \<and>
        (\<forall>j. j \<noteq> inst \<longrightarrow> find (\<lambda>x. ts_instance x = j) rows = find (\<lambda>x. ts_instance x = j) (totp_secrets t)))"

definition delete_totp_spec :: "string \<Rightarrow> nat table_spec" where
  "delete_totp_spec inst t n t' \<longleftrightarrow>
     (n = 0 \<longleftrightarrow> inst \<notin> ts_instance ` set (totp_secrets t)) \<and>
     t' = t\<lparr> totp_secrets := filter (\<lambda>x. ts_instance x \<noteq> inst) (totp_secrets t) \<rparr>"

definition stmt_ok :: "'a table_spec \<Rightarrow> 'a stmt \<Rightarrow> bool" where
  "stmt_ok P st \<longleftrightarrow>
     (\<forall>now t q. wf_tables t \<longrightarrow> numbered t q \<longrightarrow>
        (case st now t q of (r, t', q') \<Rightarrow>
           wf_tables t' \<and> numbered t' q' \<and> seq_le q q' \<and>
           (case r of Inl _ \<Rightarrow> t' = t | Inr x \<Rightarrow> P t x t')))"

lemma stmt_okD:
  assumes "stmt_ok P st" "wf_tables t" "numbered t q" "st now t q = (r, t', q')"
  shows "wf_tables t'" "numbered t' q'" "seq_le q q'" "r = Inl e \<Longrightarrow> t' = t" "r = Inr x \<Longrightarrow> P t x t'"
proof -
  have "wf_tables t' \<and> numbered t' q' \<and> seq_le q q' \<and> (case r of Inl _ \<Rightarrow> t' = t | Inr x \<Rightarrow> P t x t')"
  proof -
    have "case st now t q of (r, t', q') \<Rightarrow> wf_tables t' \<and> numbered t' q' \<and> seq_le q q' \<and>
        (case r of Inl _ \<Rightarrow> t' = t | Inr x \<Rightarrow> P t x t')"
      by (rule assms(1) [unfolded stmt_ok_def, rule_format, OF assms(2,3)])
    with assms(4) show ?thesis by simp
  qed
  then show "wf_tables t'" "numbered t' q'" "seq_le q q'" "r = Inl e \<Longrightarrow> t' = t" "r = Inr x \<Longrightarrow> P t x t'"
    by auto
qed

lemma stmt_okI:
  assumes "\<And>now t q r t' q'. wf_tables t \<Longrightarrow> numbered t q \<Longrightarrow> st now t q = (r, t', q') \<Longrightarrow>
    wf_tables t' \<and> numbered t' q' \<and> seq_le q q' \<and> (case r of Inl _ \<Rightarrow> t' = t | Inr x \<Rightarrow> P t x t')"
  shows "stmt_ok P st"
  unfolding stmt_ok_def
proof (intro allI impI)
  fix now t q
  assume wf: "wf_tables t" "numbered t q"
  obtain r t' q' where e: "st now t q = (r, t', q')" by (cases "st now t q")
  from assms [OF wf e] e
  show "case st now t q of (r, t', q') \<Rightarrow> wf_tables t' \<and> numbered t' q' \<and> seq_le q q' \<and>
      (case r of Inl _ \<Rightarrow> t' = t | Inr x \<Rightarrow> P t x t')"
    by simp
qed

subsection \<open>The constraints after each kind of write\<close>

lemma wf_keys_mono: "wf_keys A ks \<Longrightarrow> A \<subseteq> B \<Longrightarrow> wf_keys B ks"
  by (auto simp: wf_keys_def)

lemma wf_aux_mono: "wf_aux A ds \<Longrightarrow> A \<subseteq> B \<Longrightarrow> wf_aux B ds"
  by (auto simp: wf_aux_def)

lemma find_actor_None: "find_actor actorID t = None \<longleftrightarrow> actorID \<notin> a_actor_id ` set (actors t)"
  by (auto simp: find_actor_def find_None_iff)

lemma find_actor_Some:
  "find_actor actorID t = Some a \<Longrightarrow> a \<in> set (actors t) \<and> a_actor_id a = actorID"
  by (auto simp: find_actor_def dest: find_Some_D)

lemma set_actors_keep_ids:
  "(\<And>a. a_id (f a) = a_id a) \<Longrightarrow> a_id ` set (update_where p f as) = a_id ` set as"
  using map_update_where [of p a_id f as] by (metis list.set_map)

lemma wf_add_actor:
  assumes "wf_tables t" "a_id a \<notin> a_id ` set (actors t)" "a_actor_id a \<notin> a_actor_id ` set (actors t)"
  shows "wf_tables (t\<lparr> actors := actors t @ [a] \<rparr>)"
  using assms by (auto simp: wf_tables_def wf_actors_def elim!: wf_keys_mono wf_aux_mono)

lemma distinct_map_rename:
  "distinct (map g xs) \<Longrightarrow> new \<notin> g ` set xs \<Longrightarrow> (\<And>x. g (f x) = new) \<Longrightarrow>
   distinct (map g (update_where (\<lambda>x. g x = old) f xs))"
  by (induction xs) (auto simp: set_update_where, metis image_eqI)

lemma wf_rename_actor:
  assumes "wf_tables t" "old = new \<or> new \<notin> a_actor_id ` set (actors t)"
  shows "wf_tables (rename_actor now old new t)"
proof -
  have ids: "map a_id (actors (rename_actor now old new t)) = map a_id (actors t)"
    by (simp add: rename_actor_def map_update_where)
  then have "a_id ` set (actors (rename_actor now old new t)) = a_id ` set (actors t)"
    by (metis list.set_map)
  moreover have "distinct (map a_actor_id (actors (rename_actor now old new t)))"
  proof (cases "old = new")
    case True
    have "map a_actor_id (actors (rename_actor now old new t)) = map a_actor_id (actors t)"
      by (auto simp: rename_actor_def True intro!: map_update_where)
    with assms(1) show ?thesis by (simp add: wf_tables_def wf_actors_def)
  next
    case False
    with assms show ?thesis
      by (auto simp: rename_actor_def wf_tables_def wf_actors_def intro!: distinct_map_rename)
  qed
  ultimately show ?thesis
    using assms(1) ids by (simp add: wf_tables_def wf_actors_def) (simp add: rename_actor_def)
qed

lemma wf_set_fireproof: "wf_tables t \<Longrightarrow> wf_tables (set_fireproof now actorID b t)"
  by (simp add: wf_tables_def wf_actors_def set_fireproof_def map_update_where set_actors_keep_ids)

lemma wf_revoke_keys: "wf_tables t \<Longrightarrow> wf_tables (revoke_keys_where p now root t)"
  by (auto simp: wf_tables_def wf_keys_def revoke_keys_where_def map_update_where revoked_def set_update_where)

lemma wf_revoke_aux: "wf_tables t \<Longrightarrow> wf_tables (revoke_aux_where p now root t)"
  by (auto simp: wf_tables_def wf_aux_def revoke_aux_where_def map_update_where set_update_where)

lemma wf_forget: "wf_tables t \<Longrightarrow> wf_tables (forget_symmetric_keys hs t)"
  by (auto simp: wf_tables_def wf_sym_def forget_symmetric_keys_def distinct_map_filter)

lemmas wf_writes = wf_rename_actor wf_set_fireproof wf_revoke_keys wf_revoke_aux wf_forget

lemma numbered_writes:
  "numbered t q \<Longrightarrow> numbered (rename_actor now old new t) q"
  "numbered t q \<Longrightarrow> numbered (set_fireproof now actorID b t) q"
  "numbered t q \<Longrightarrow> numbered (revoke_keys_where p now root t) q"
  "numbered t q \<Longrightarrow> numbered (revoke_aux_where r now root t) q"
  "numbered t q \<Longrightarrow> numbered (forget_symmetric_keys hs t) q"
  by (auto simp: numbered_def rename_actor_def set_fireproof_def revoke_keys_where_def revoked_def
      revoke_aux_where_def forget_symmetric_keys_def set_update_where)

subsection \<open>Each statement keeps its promise\<close>

lemma query_ok: "stmt_ok (query_spec f) (query f)"
  by (rule stmt_okI) (auto simp: query_def query_spec_def)

lemma insert_actor_ok: "stmt_ok (insert_actor_spec actorID) (stmt_insert_actor actorID)"
proof (rule stmt_okI)
  fix now t q r t' q'
  assume wf: "wf_tables t" and n: "numbered t q" and eq: "stmt_insert_actor actorID now t q = (r, t', q')"
  let ?a = "new_actor (Suc (seq_actors q)) now actorID"
  have le: "\<forall>a \<in> set (actors t). a_id a \<le> Suc (seq_actors q)"
    using n by (auto simp: numbered_def le_SucI)
  have fresh: "a_id ?a \<notin> a_id ` set (actors t)"
    using n by (fastforce simp: numbered_def new_actor_def)
  show "wf_tables t' \<and> numbered t' q' \<and> seq_le q q' \<and>
    (case r of Inl _ \<Rightarrow> t' = t | Inr x \<Rightarrow> insert_actor_spec actorID t x t')"
  proof (cases "find_actor actorID t")
    case None
    then have "wf_tables (t\<lparr> actors := actors t @ [?a] \<rparr>)"
      using wf fresh by (intro wf_add_actor) (auto simp: find_actor_None new_actor_def)
    with None fresh n le eq show ?thesis
      by (auto simp: stmt_insert_actor_def Let_def insert_actor_spec_def numbered_def seq_le_def new_actor_def
            intro: le_SucI)
  next
    case (Some b)
    with wf n le eq show ?thesis
      by (auto simp: stmt_insert_actor_def Let_def numbered_def seq_le_def intro: le_SucI)
  qed
qed

lemma update_actor_id_ok: "stmt_ok (update_actor_id_spec old new) (stmt_update_actor_id old new)"
  by (rule stmt_okI)
     (auto simp: stmt_update_actor_id_def update_actor_id_spec_def find_actor_None
       intro: wf_rename_actor numbered_writes split: if_splits)

lemma set_fireproof_ok: "stmt_ok (set_fireproof_spec actorID b) (stmt_set_fireproof actorID b)"
  by (rule stmt_okI)
     (auto simp: stmt_set_fireproof_def set_fireproof_spec_def find_actor_None filter_empty_conv
       intro: wf_set_fireproof numbered_writes)

lemma insert_public_key_ok: "stmt_ok (insert_public_key_spec k) (stmt_insert_public_key k)"
  by (rule stmt_okI)
     (fastforce simp: stmt_insert_public_key_def insert_public_key_spec_def Let_def key_row_def
       wf_tables_def wf_keys_def numbered_def seq_le_def split: if_splits)

lemma revoke_key_ok: "stmt_ok (revoke_key_spec keyID root) (stmt_revoke_key keyID root)"
  by (rule stmt_okI)
     (auto simp: stmt_revoke_key_def revoke_key_spec_def intro: wf_revoke_keys numbered_writes)

lemma revoke_all_keys_ok: "stmt_ok (revoke_all_keys_spec owner root) (stmt_revoke_all_keys owner root)"
  by (rule stmt_okI)
     (auto simp: stmt_revoke_all_keys_def revoke_all_keys_spec_def intro: wf_revoke_keys numbered_writes)

lemma insert_aux_data_ok: "stmt_ok (insert_aux_data_spec d) (stmt_insert_aux_data d)"
  by (rule stmt_okI)
     (fastforce simp: stmt_insert_aux_data_def insert_aux_data_spec_def Let_def aux_row_def
       wf_tables_def wf_aux_def numbered_def seq_le_def split: if_splits)

lemma revoke_aux_from_ok: "stmt_ok (revoke_aux_spec actorID auxID root) (stmt_revoke_aux_from actorID auxID root)"
  by (rule stmt_okI)
     (auto simp: stmt_revoke_aux_from_def revoke_aux_spec_def Let_def intro: wf_revoke_aux numbered_writes)

text \<open>The two shapes of the revocation query select the same rows, since row ids are unique.\<close>

lemma revoke_aux_in_eq_from:
  assumes "wf_tables t"
  shows "stmt_revoke_aux_in actorID auxID root now t q = stmt_revoke_aux_from actorID auxID root now t q"
proof -
  have d: "distinct (map ad_id (auxiliary_data_rows t))"
    using assms by (simp add: wf_tables_def wf_aux_def)
  have eq: "ad_id d \<in> set (map ad_id (filter (aux_to_revoke actorID auxID t) (auxiliary_data_rows t)))
      \<longleftrightarrow> aux_to_revoke actorID auxID t d" if "d \<in> set (auxiliary_data_rows t)" for d
    using that distinct_map_eqD [OF d] by fastforce
  then show ?thesis
    by (auto simp: stmt_revoke_aux_in_def stmt_revoke_aux_from_def Let_def revoke_aux_where_def
        update_where_def intro!: arg_cong [where f = length] filter_cong)
qed

lemma revoke_aux_in_ok: "stmt_ok (revoke_aux_spec actorID auxID root) (stmt_revoke_aux_in actorID auxID root)"
  using revoke_aux_from_ok [of actorID auxID root] by (simp add: stmt_ok_def revoke_aux_in_eq_from)

lemma insert_symmetric_key_ok:
  "stmt_ok (insert_symmetric_key_spec h a k) (stmt_insert_symmetric_key h a k)"
  by (rule stmt_okI)
     (fastforce simp: stmt_insert_symmetric_key_def insert_symmetric_key_spec_def Let_def
       wf_tables_def wf_sym_def numbered_def seq_le_def split: if_splits)

lemma delete_symmetric_keys_ok:
  "stmt_ok (delete_symmetric_keys_spec hs) (stmt_delete_symmetric_keys hs)"
  by (rule stmt_okI)
     (auto simp: stmt_delete_symmetric_keys_def delete_symmetric_keys_spec_def intro: wf_forget numbered_writes)

lemma insert_message_log_ok:
  "stmt_ok (insert_message_log_spec h r d) (stmt_insert_message_log h r d)"
  by (rule stmt_okI)
     (fastforce simp: stmt_insert_message_log_def insert_message_log_spec_def Let_def
       wf_tables_def wf_logs_def numbered_def seq_le_def split: if_splits)

lemma find_append: "find p (xs @ ys) = (case find p xs of None \<Rightarrow> find p ys | Some x \<Rightarrow> Some x)"
  by (induction xs) auto

lemma find_update_where_same:
  "(\<And>x. p (f x) = p x) \<Longrightarrow> find p (update_where p f xs) = map_option f (find p xs)"
  by (induction xs) auto

lemma find_update_where_other:
  "(\<And>x. p x \<Longrightarrow> \<not> r x) \<Longrightarrow> (\<And>x. p x \<Longrightarrow> \<not> r (f x)) \<Longrightarrow> find r (update_where p f xs) = find r xs"
  by (induction xs) auto

lemma upsert_totp_ok: "stmt_ok (upsert_totp_spec i s) (stmt_upsert_totp i s)"
proof (rule stmt_okI)
  fix now t q r t' q'
  assume wf: "wf_tables t" and n: "numbered t q" and eq: "stmt_upsert_totp i s now t q = (r, t', q')"
  have le: "\<forall>x \<in> set (totp_secrets t). ts_id x \<le> Suc (seq_totp q)"
    using n by (auto simp: numbered_def le_SucI)
  show "wf_tables t' \<and> numbered t' q' \<and> seq_le q q' \<and>
    (case r of Inl _ \<Rightarrow> t' = t | Inr x \<Rightarrow> upsert_totp_spec i s t x t')"
  proof (cases "i \<in> ts_instance ` set (totp_secrets t)")
    case True
    then obtain x where "find (\<lambda>x. ts_instance x = i) (totp_secrets t) = Some x"
      by (cases "find (\<lambda>x. ts_instance x = i) (totp_secrets t)") (auto simp: find_None_iff)
    then have "upsert_totp_spec i s t () (t\<lparr> totp_secrets := update_where (\<lambda>x. ts_instance x = i)
        (\<lambda>x. x\<lparr> ts_encrypted_secret := s, ts_updated_at := now \<rparr>) (totp_secrets t) \<rparr>)"
      unfolding upsert_totp_spec_def
      by (intro exI conjI) (auto simp: find_update_where_same intro!: find_update_where_other)
    with True wf n le eq show ?thesis
      by (auto simp: stmt_upsert_totp_def Let_def wf_tables_def wf_totp_def
          numbered_def seq_le_def map_update_where set_update_where intro: le_SucI)
  next
    case False
    let ?x = "\<lparr> ts_id = Suc (seq_totp q), ts_instance = i, ts_encrypted_secret = s,
      ts_created_at = now, ts_updated_at = now \<rparr>"
    from False have none: "find (\<lambda>x. ts_instance x = i) (totp_secrets t) = None"
      by (auto simp: find_None_iff)
    have "upsert_totp_spec i s t () (t\<lparr> totp_secrets := totp_secrets t @ [?x] \<rparr>)"
      unfolding upsert_totp_spec_def
      by (intro exI conjI) (auto simp: find_append none split: option.split)
    moreover have "Suc (seq_totp q) \<notin> ts_id ` set (totp_secrets t)"
      using n by (fastforce simp: numbered_def)
    ultimately show ?thesis
      using False wf n le eq
      by (auto simp: stmt_upsert_totp_def Let_def wf_tables_def wf_totp_def
          numbered_def seq_le_def intro: le_SucI)
  qed
qed

lemma delete_totp_ok: "stmt_ok (delete_totp_spec i) (stmt_delete_totp i)"
  by (rule stmt_okI)
     (auto simp: stmt_delete_totp_def delete_totp_spec_def wf_tables_def wf_totp_def numbered_def
       distinct_map_filter filter_empty_conv image_iff)

end
