(* ===== verification/Json.thy ===== *)
theory Json
  imports Prelude
begin

section \<open>JSON as Go's encoding/json reads and writes it\<close>

text \<open>
  The reader: \<open>json_parse\<close> is what \<^verbatim>\<open>json.Unmarshal\<close> accepts (one value, then only
  white space), \<open>json_first\<close> what \<^verbatim>\<open>json.Decoder.Decode\<close> reads (the first value of the
  stream; what follows it is left unread). An object member keeps the raw text of its value
  beside the value, since a \<^verbatim>\<open>json.RawMessage\<close> field receives that text.

  The parser runs on fuel; \<open>2 * length s + 2\<close> units are enough for the text \<open>s\<close>, because
  between two calls that consume no character there is always one that does
  (\<open>jvalue_fuel\<close> below). Nesting deeper than 10000 is refused, as in Go.

  The writer: \<open>json_string\<close> quotes a Go string with the HTML-safe escapes of
  \<^verbatim>\<open>json.Marshal\<close>, \<open>compact\<close> is what it does to a \<^verbatim>\<open>RawMessage\<close>.
\<close>

datatype json =
    JNull
  | JBool bool
  | JNum string
  | JStr string
  | JArr "json list"
  | JObj "(string \<times> string \<times> json) list"

type_synonym jmember = "string \<times> string \<times> json"

subsection \<open>Characters\<close>

definition is_space :: "char \<Rightarrow> bool" where
  "is_space c \<longleftrightarrow> c = CHR '' '' \<or> c = CHR 0x09 \<or> c = CHR 0x0A \<or> c = CHR 0x0D"

definition is_digit :: "char \<Rightarrow> bool" where
  "is_digit c \<longleftrightarrow> 48 \<le> (of_char c :: nat) \<and> of_char c \<le> (57 :: nat)"

fun skip_ws :: "string \<Rightarrow> string" where
  "skip_ws [] = []"
| "skip_ws (c # r) = (if is_space c then skip_ws r else c # r)"

lemma length_skip_ws: "length (skip_ws s) \<le> length s"
  by (induction s) auto

definition hex_value :: "char \<Rightarrow> nat option" where
  "hex_value c =
     (let n = of_char c in
      if 48 \<le> n \<and> n \<le> 57 then Some (n - 48)
      else if 97 \<le> n \<and> n \<le> 102 then Some (n - 87)
      else if 65 \<le> n \<and> n \<le> 70 then Some (n - 55)
      else None)"

definition hex4 :: "char \<Rightarrow> char \<Rightarrow> char \<Rightarrow> char \<Rightarrow> nat option" where
  "hex4 a b c d =
     (case (hex_value a, hex_value b, hex_value c, hex_value d) of
        (Some a, Some b, Some c, Some d) \<Rightarrow> Some (((a * 16 + b) * 16 + c) * 16 + d)
      | _ \<Rightarrow> None)"

subsection \<open>UTF-8\<close>

text \<open>
  \<open>utf8_encode\<close> is \<^verbatim>\<open>utf8.AppendRune\<close>; \<open>utf8_len\<close> is the length of the valid encoding at
  the front of a text, 0 where \<^verbatim>\<open>utf8.DecodeRune\<close> reports an invalid byte.
\<close>

definition utf8_bytes :: "nat list \<Rightarrow> string" where
  "utf8_bytes ns = map char_of ns"

definition replacement_char :: string where
  "replacement_char = [CHR 0xEF, CHR 0xBF, CHR 0xBD]"

text \<open>The encodings of U+2028 and U+2029, which \<^verbatim>\<open>json.Marshal\<close> escapes, and of the long s
  U+017F and the Kelvin sign U+212A, which fold to ASCII letters.\<close>

definition line_separator :: string where
  "line_separator = [CHR 0xE2, CHR 0x80, CHR 0xA8]"

definition paragraph_separator :: string where
  "paragraph_separator = [CHR 0xE2, CHR 0x80, CHR 0xA9]"

definition long_s :: string where
  "long_s = [CHR 0xC5, CHR 0xBF]"

definition kelvin_sign :: string where
  "kelvin_sign = [CHR 0xE2, CHR 0x84, CHR 0xAA]"

definition utf8_encode :: "nat \<Rightarrow> string" where
  "utf8_encode n =
     (if n < 0x80 then utf8_bytes [n]
      else if n < 0x800 then utf8_bytes [0xC0 + n div 64, 0x80 + n mod 64]
      else if 0xD800 \<le> n \<and> n < 0xE000 \<or> 0x110000 \<le> n then replacement_char
      else if n < 0x10000 then
        utf8_bytes [0xE0 + n div 4096, 0x80 + n div 64 mod 64, 0x80 + n mod 64]
      else utf8_bytes
        [0xF0 + n div 262144, 0x80 + n div 4096 mod 64, 0x80 + n div 64 mod 64, 0x80 + n mod 64])"

definition cont_byte :: "nat \<Rightarrow> bool" where
  "cont_byte n \<longleftrightarrow> 0x80 \<le> n \<and> n \<le> 0xBF"

text \<open>
  How many bytes the lead byte announces, and what the bytes after it must be: the second
  one rules out overlong forms, surrogates and values past U+10FFFF.
\<close>

definition utf8_lead :: "nat \<Rightarrow> nat" where
  "utf8_lead a =
     (if a < 0x80 then 1
      else if 0xC2 \<le> a \<and> a \<le> 0xDF then 2
      else if 0xE0 \<le> a \<and> a \<le> 0xEF then 3
      else if 0xF0 \<le> a \<and> a \<le> 0xF4 then 4
      else 0)"

definition utf8_tail :: "nat \<Rightarrow> nat list \<Rightarrow> bool" where
  "utf8_tail a cs \<longleftrightarrow>
     list_all cont_byte cs \<and>
     (case cs of
        [] \<Rightarrow> True
      | b # _ \<Rightarrow> (a = 0xE0 \<longrightarrow> 0xA0 \<le> b) \<and> (a = 0xED \<longrightarrow> b \<le> 0x9F) \<and>
                 (a = 0xF0 \<longrightarrow> 0x90 \<le> b) \<and> (a = 0xF4 \<longrightarrow> b \<le> 0x8F))"

fun utf8_len_codes :: "nat list \<Rightarrow> nat" where
  "utf8_len_codes [] = 0"
| "utf8_len_codes (a # r) =
     (let k = utf8_lead a in
      if k \<le> Suc (length r) \<and> utf8_tail a (take (k - 1) r) then k else 0)"

definition utf8_len :: "string \<Rightarrow> nat" where
  "utf8_len s = utf8_len_codes (map of_char (take 4 s))"

subsection \<open>String literals\<close>

definition simple_escape :: "char \<Rightarrow> char option" where
  "simple_escape c =
     (if c = CHR 0x22 \<or> c = CHR 0x5C \<or> c = CHR ''/'' then Some c
      else if c = CHR ''b'' then Some (CHR 0x08)
      else if c = CHR ''f'' then Some (CHR 0x0C)
      else if c = CHR ''n'' then Some (CHR 0x0A)
      else if c = CHR ''r'' then Some (CHR 0x0D)
      else if c = CHR ''t'' then Some (CHR 0x09)
      else None)"

definition prepend :: "string \<Rightarrow> (string \<times> string) option \<Rightarrow> (string \<times> string) option" where
  "prepend d x = map_option (\<lambda>(t, r). (d @ t, r)) x"

text \<open>
  The second half of a surrogate pair, if the text continues with one: its value and the
  text after it.
\<close>

fun low_surrogate :: "string \<Rightarrow> (nat \<times> string) option" where
  "low_surrogate (b # u # h1 # h2 # h3 # h4 # r) =
     (if b = CHR 0x5C \<and> u = CHR ''u'' then
        (case hex4 h1 h2 h3 h4 of
           Some l \<Rightarrow> if 0xDC00 \<le> l \<and> l < 0xE000 then Some (l, r) else None
         | None \<Rightarrow> None)
      else None)"
| "low_surrogate _ = None"

text \<open>
  After the opening quote: the string's value and the text after its closing quote.
  Invalid UTF-8 becomes U+FFFD, one per byte, and so does an unpaired surrogate.
\<close>

function (sequential) str_body :: "string \<Rightarrow> (string \<times> string) option" where
  "str_body [] = None"
| "str_body (c # r) =
     (if c = CHR 0x22 then Some ([], r)
      else if c = CHR 0x5C then
        (case r of
           [] \<Rightarrow> None
         | e # r1 \<Rightarrow>
             if e = CHR ''u'' then
               (case r1 of
                  h1 # h2 # h3 # h4 # r2 \<Rightarrow>
                    (case hex4 h1 h2 h3 h4 of
                       None \<Rightarrow> None
                     | Some n \<Rightarrow>
                         if 0xD800 \<le> n \<and> n < 0xDC00 then
                           (case low_surrogate r2 of
                              Some (l, r3) \<Rightarrow>
                                if length r3 < length r2
                                then prepend (utf8_encode (0x10000 + (n - 0xD800) * 1024 + (l - 0xDC00)))
                                       (str_body r3)
                                else None
                            | None \<Rightarrow> prepend replacement_char (str_body r2))
                         else prepend (utf8_encode n) (str_body r2))
                | _ \<Rightarrow> None)
             else (case simple_escape e of
                     None \<Rightarrow> None
                   | Some d \<Rightarrow> prepend [d] (str_body r1)))
      else if of_char c < (32 :: nat) then None
      else (let k = utf8_len (c # r) in
            if k = 0 then prepend replacement_char (str_body r)
            else prepend (take k (c # r)) (str_body (drop (k - 1) r))))"
  by pat_completeness auto
termination
  by (relation "measure length") auto

declare str_body.simps [simp del]

subsection \<open>Numbers\<close>

fun digits_of :: "string \<Rightarrow> string \<times> string" where
  "digits_of [] = ([], [])"
| "digits_of (c # r) =
     (if is_digit c then (case digits_of r of (d, r') \<Rightarrow> (c # d, r')) else ([], c # r))"

text \<open>The integer part: \<^verbatim>\<open>0\<close>, or digits that do not start with 0.\<close>

definition num_int :: "string \<Rightarrow> (string \<times> string) option" where
  "num_int s =
     (case s of
        [] \<Rightarrow> None
      | c # r \<Rightarrow> if c = CHR ''0'' then Some ([c], r)
                 else if is_digit c then Some (digits_of s) else None)"

definition num_frac :: "string \<Rightarrow> (string \<times> string) option" where
  "num_frac s =
     (case s of
        c # r \<Rightarrow> if c = CHR ''.'' then
                   (case digits_of r of (d, r') \<Rightarrow> if d = [] then None else Some (c # d, r'))
                 else Some ([], s)
      | [] \<Rightarrow> Some ([], s))"

definition num_exp :: "string \<Rightarrow> (string \<times> string) option" where
  "num_exp s =
     (case s of
        c # r \<Rightarrow>
          if c = CHR ''e'' \<or> c = CHR ''E'' then
            (case r of
               g # r1 \<Rightarrow>
                 (let (sg, r2) = (if g = CHR ''+'' \<or> g = CHR ''-'' then ([g], r1) else ([], r))
                  in case digits_of r2 of (d, r') \<Rightarrow> if d = [] then None else Some (c # sg @ d, r'))
             | [] \<Rightarrow> None)
          else Some ([], s)
      | [] \<Rightarrow> Some ([], s))"

definition jnumber :: "string \<Rightarrow> (string \<times> string) option" where
  "jnumber s =
     (let (sg, s0) = (case s of c # r \<Rightarrow> if c = CHR ''-'' then ([c], r) else ([], s) | [] \<Rightarrow> ([], s))
      in case num_int s0 of None \<Rightarrow> None
         | Some (i, s1) \<Rightarrow>
             (case num_frac s1 of None \<Rightarrow> None
              | Some (f, s2) \<Rightarrow>
                  (case num_exp s2 of None \<Rightarrow> None
                   | Some (e, s3) \<Rightarrow> Some (sg @ i @ f @ e, s3))))"

text \<open>
  Decoded into an \<^verbatim>\<open>interface{}\<close> a number becomes a \<^verbatim>\<open>float64\<close>, and one that rounds
  to infinity is an error. \<open>float64_overflows\<close> is that check, exactly: the largest finite
  value is \<open>2^1024 - 2^971\<close>, and from \<open>2^1024 - 2^970\<close> on values round up to infinity.
\<close>

fun digits_value :: "string \<Rightarrow> nat \<Rightarrow> nat" where
  "digits_value [] a = a"
| "digits_value (c # r) a = digits_value r (a * 10 + (of_char c - 48))"

definition float64_overflows :: "string \<Rightarrow> bool" where
  "float64_overflows s =
     (let s0 = (case s of c # r \<Rightarrow> if c = CHR ''-'' then r else s | [] \<Rightarrow> s);
          (i, s1) = digits_of s0;
          (f, s2) = (case s1 of c # r \<Rightarrow> if c = CHR ''.'' then digits_of r else ([], s1) | [] \<Rightarrow> ([], s1));
          m = digits_value (i @ f) 0;
          bound = 2 ^ 1024 - 2 ^ 970;
          (neg, e) = (case s2 of
                        _ # g # r \<Rightarrow> if g = CHR ''-'' then (True, digits_value r 0)
                                     else if g = CHR ''+'' then (False, digits_value r 0)
                                     else (False, digits_value (g # r) 0)
                      | _ \<Rightarrow> (False, 0))
      in if neg then bound * 10 ^ (length f + e) \<le> m
         else bound * 10 ^ length f \<le> m * 10 ^ e)"

subsection \<open>Values\<close>

definition literal_at :: "string \<Rightarrow> string \<Rightarrow> string option" where
  "literal_at l s = (if take (length l) s = l then Some (drop (length l) s) else None)"

fun jvalue :: "nat \<Rightarrow> int \<Rightarrow> string \<Rightarrow> (json \<times> string) option"
  and jelements :: "nat \<Rightarrow> int \<Rightarrow> string \<Rightarrow> (json list \<times> string) option"
  and jmembers :: "nat \<Rightarrow> int \<Rightarrow> string \<Rightarrow> (jmember list \<times> string) option" where
  "jvalue 0 d s = None"
| "jvalue (Suc n) d s =
     (case skip_ws s of
        [] \<Rightarrow> None
      | c # r \<Rightarrow>
          if c = CHR 0x22 then map_option (\<lambda>(t, r'). (JStr t, r')) (str_body r)
          else if c = CHR ''{'' then
            (if d \<le> 0 then None
             else case skip_ws r of
                    [] \<Rightarrow> None
                  | c' # r' \<Rightarrow> if c' = CHR ''}'' then Some (JObj [], r')
                               else map_option (\<lambda>(ms, r''). (JObj ms, r'')) (jmembers n (d - 1) r))
          else if c = CHR ''['' then
            (if d \<le> 0 then None
             else case skip_ws r of
                    [] \<Rightarrow> None
                  | c' # r' \<Rightarrow> if c' = CHR '']'' then Some (JArr [], r')
                               else map_option (\<lambda>(vs, r''). (JArr vs, r'')) (jelements n (d - 1) r))
          else if c = CHR ''t'' then map_option (\<lambda>r'. (JBool True, r')) (literal_at ''true'' (c # r))
          else if c = CHR ''f'' then map_option (\<lambda>r'. (JBool False, r')) (literal_at ''false'' (c # r))
          else if c = CHR ''n'' then map_option (\<lambda>r'. (JNull, r')) (literal_at ''null'' (c # r))
          else map_option (\<lambda>(t, r'). (JNum t, r')) (jnumber (c # r)))"
| "jelements 0 d s = None"
| "jelements (Suc n) d s =
     (case jvalue n d s of
        None \<Rightarrow> None
      | Some (v, r) \<Rightarrow>
          (case skip_ws r of
             [] \<Rightarrow> None
           | c # r' \<Rightarrow>
               if c = CHR '','' then map_option (\<lambda>(vs, r''). (v # vs, r'')) (jelements n d r')
               else if c = CHR '']'' then Some ([v], r')
               else None))"
| "jmembers 0 d s = None"
| "jmembers (Suc n) d s =
     (case skip_ws s of
        [] \<Rightarrow> None
      | q # r \<Rightarrow>
          if q \<noteq> CHR 0x22 then None
          else case str_body r of
                 None \<Rightarrow> None
               | Some (k, r1) \<Rightarrow>
                   (case skip_ws r1 of
                      [] \<Rightarrow> None
                    | c # r2 \<Rightarrow>
                        if c \<noteq> CHR '':'' then None
                        else let r3 = skip_ws r2 in
                          (case jvalue n d r3 of
                             None \<Rightarrow> None
                           | Some (v, r4) \<Rightarrow>
                               let m = (k, take (length r3 - length r4) r3, v) in
                               (case skip_ws r4 of
                                  [] \<Rightarrow> None
                                | c' # r5 \<Rightarrow>
                                    if c' = CHR '','' then
                                      map_option (\<lambda>(ms, r6). (m # ms, r6)) (jmembers n d r5)
                                    else if c' = CHR ''}'' then Some ([m], r5)
                                    else None))))"

definition max_depth :: int where
  "max_depth = 10000"

definition json_first :: "string \<Rightarrow> json option" where
  "json_first s = map_option fst (jvalue (2 * length s + 2) max_depth s)"

definition json_parse :: "string \<Rightarrow> json option" where
  "json_parse s =
     (case jvalue (2 * length s + 2) max_depth s of
        None \<Rightarrow> None
      | Some (v, r) \<Rightarrow> if skip_ws r = [] then Some v else None)"


subsection \<open>Writing\<close>

definition hex_digit :: "nat \<Rightarrow> char" where
  "hex_digit n = (if n < 10 then char_of (48 + n) else char_of (87 + n))"

definition unicode_escape :: "nat \<Rightarrow> string" where
  "unicode_escape n =
     [CHR 0x5C, CHR ''u'', hex_digit (n div 4096), hex_digit (n div 256 mod 16),
      hex_digit (n div 16 mod 16), hex_digit (n mod 16)]"

definition ascii_escape :: "char \<Rightarrow> string" where
  "ascii_escape c =
     (if c = CHR 0x22 \<or> c = CHR 0x5C then [CHR 0x5C, c]
      else if c = CHR 0x08 then [CHR 0x5C, CHR ''b'']
      else if c = CHR 0x0C then [CHR 0x5C, CHR ''f'']
      else if c = CHR 0x0A then [CHR 0x5C, CHR ''n'']
      else if c = CHR 0x0D then [CHR 0x5C, CHR ''r'']
      else if c = CHR 0x09 then [CHR 0x5C, CHR ''t'']
      else if of_char c < (32 :: nat) \<or> c = CHR ''<'' \<or> c = CHR ''>'' \<or> c = CHR ''&''
      then unicode_escape (of_char c)
      else [c])"

function (sequential) json_escape :: "string \<Rightarrow> string" where
  "json_escape [] = []"
| "json_escape (c # r) =
     (if of_char c < (128 :: nat) then ascii_escape c @ json_escape r
      else (let k = utf8_len (c # r); u = take k (c # r) in
            if k = 0 then unicode_escape 0xFFFD @ json_escape r
            else if u = line_separator then unicode_escape 0x2028 @ json_escape (drop (k - 1) r)
            else if u = paragraph_separator then unicode_escape 0x2029 @ json_escape (drop (k - 1) r)
            else u @ json_escape (drop (k - 1) r)))"
  by pat_completeness auto
termination
  by (relation "measure length") auto

declare json_escape.simps [simp del]

definition json_string :: "string \<Rightarrow> string" where
  "json_string s = [CHR 0x22] @ json_escape s @ [CHR 0x22]"

text \<open>
  \<open>compact instr esc s\<close>: \<open>instr\<close> says whether the position is inside a string literal,
  \<open>esc\<close> whether the character before was an unescaped backslash.
\<close>

fun compact :: "bool \<Rightarrow> bool \<Rightarrow> string \<Rightarrow> string" where
  "compact instr esc [] = []"
| "compact instr esc (c # r) =
     (let rest = compact (if instr then esc \<or> c \<noteq> CHR 0x22 else c = CHR 0x22)
                         (instr \<and> \<not> esc \<and> c = CHR 0x5C) r
      in if c = CHR ''<'' \<or> c = CHR ''>'' \<or> c = CHR ''&'' then unicode_escape (of_char c) @ rest
         else if take 3 (c # r) = line_separator
         then unicode_escape 0x2028 @ compact instr False (drop 2 r)
         else if take 3 (c # r) = paragraph_separator
         then unicode_escape 0x2029 @ compact instr False (drop 2 r)
         else if \<not> instr \<and> is_space c then rest
         else c # rest)"

text \<open>A \<^verbatim>\<open>json.RawMessage\<close> in a marshalled struct: \<open>[]\<close> stands for the nil slice.\<close>

definition marshal_raw :: "string \<Rightarrow> string option" where
  "marshal_raw raw =
     (if raw = [] then Some ''null''
      else if json_parse raw = None then None
      else Some (compact False False raw))"

text \<open>A JSON object from its member names and the texts of their values.\<close>

fun object_fields :: "(string \<times> string) list \<Rightarrow> string" where
  "object_fields [] = []"
| "object_fields [(k, t)] = json_string k @ '':'' @ t"
| "object_fields ((k, t) # r) = json_string k @ '':'' @ t @ '','' @ object_fields r"

definition json_object :: "(string \<times> string) list \<Rightarrow> string" where
  "json_object fs = ''{'' @ object_fields fs @ ''}''"

subsection \<open>Decoding an object into a struct\<close>

text \<open>
  A member sets the field whose JSON name its key equals, exactly or else up to the case
  folding of \<^verbatim>\<open>encoding/json\<close>: ASCII letters, the long s U+017F and the Kelvin sign
  U+212A.
\<close>

definition fold_ascii :: "char \<Rightarrow> char" where
  "fold_ascii c =
     (let n = of_char c in if 97 \<le> n \<and> n \<le> (122 :: nat) then char_of (n - 32) else c)"

fun fold_name :: "string \<Rightarrow> string" where
  "fold_name (a # b # c # r) =
     (if [a, b] = long_s then CHR ''S'' # fold_name (c # r)
      else if [a, b, c] = kelvin_sign then CHR ''K'' # fold_name r
      else fold_ascii a # fold_name (b # c # r))"
| "fold_name [a, b] =
     (if [a, b] = long_s then [CHR ''S''] else [fold_ascii a, fold_ascii b])"
| "fold_name [a] = [fold_ascii a]"
| "fold_name [] = []"

definition names_field :: "string \<Rightarrow> string \<Rightarrow> bool" where
  "names_field name key \<longleftrightarrow> key = name \<or> fold_name key = fold_name name"

text \<open>
  A string field takes the value of the last member that names it; null leaves it as it is;
  any other JSON type is an error of the whole decoding.
\<close>

fun string_field :: "string \<Rightarrow> string \<Rightarrow> jmember list \<Rightarrow> string" where
  "string_field name acc [] = acc"
| "string_field name acc ((k, _, v) # r) =
     string_field name
       (if names_field name k then (case v of JStr t \<Rightarrow> t | _ \<Rightarrow> acc) else acc) r"

definition string_or_null :: "json \<Rightarrow> bool" where
  "string_or_null v = (case v of JStr _ \<Rightarrow> True | JNull \<Rightarrow> True | _ \<Rightarrow> False)"

definition string_field_ok :: "string \<Rightarrow> jmember list \<Rightarrow> bool" where
  "string_field_ok name ms \<longleftrightarrow>
     list_all (\<lambda>(k, _, v). names_field name k \<longrightarrow> string_or_null v) ms"

fun raw_field :: "string \<Rightarrow> string \<Rightarrow> jmember list \<Rightarrow> string" where
  "raw_field name acc [] = acc"
| "raw_field name acc ((k, raw, _) # r) =
     raw_field name (if names_field name k then raw else acc) r"

text \<open>A \<^verbatim>\<open>map[string]string\<close> field: the members of an object, the last one of a key wins.\<close>

fun set_entry :: "string \<Rightarrow> string \<Rightarrow> (string \<times> string) list \<Rightarrow> (string \<times> string) list" where
  "set_entry k v [] = [(k, v)]"
| "set_entry k v ((k', v') # r) = (if k = k' then (k, v) # r else (k', v') # set_entry k v r)"

fun set_entries :: "(string \<times> string) list \<Rightarrow> jmember list \<Rightarrow> (string \<times> string) list" where
  "set_entries m [] = m"
| "set_entries m ((k, _, v) # r) =
     set_entries (set_entry k (case v of JStr t \<Rightarrow> t | _ \<Rightarrow> []) m) r"

fun map_field :: "string \<Rightarrow> (string \<times> string) list \<Rightarrow> jmember list \<Rightarrow> (string \<times> string) list" where
  "map_field name acc [] = acc"
| "map_field name acc ((k, _, v) # r) =
     map_field name
       (if names_field name k then
          (case v of JObj ms \<Rightarrow> set_entries acc ms | JNull \<Rightarrow> [] | _ \<Rightarrow> acc) else acc) r"

definition map_field_ok :: "string \<Rightarrow> jmember list \<Rightarrow> bool" where
  "map_field_ok name ms \<longleftrightarrow>
     list_all (\<lambda>(k, _, v). names_field name k \<longrightarrow>
       (case v of JObj es \<Rightarrow> list_all (\<lambda>(_, _, e). string_or_null e) es | JNull \<Rightarrow> True | _ \<Rightarrow> False)) ms"

text \<open>The members a struct or a map is decoded from: those of an object, none for null.\<close>

definition members_of :: "json \<Rightarrow> jmember list option" where
  "members_of v = (case v of JObj ms \<Rightarrow> Some ms | JNull \<Rightarrow> Some [] | _ \<Rightarrow> None)"

text \<open>Whether every number in a value fits a \<^verbatim>\<open>float64\<close>, as decoding into an interface needs.\<close>

fun numbers_fit :: "json \<Rightarrow> bool" where
  "numbers_fit (JNum t) = (\<not> float64_overflows t)"
| "numbers_fit (JArr vs) = list_all numbers_fit vs"
| "numbers_fit (JObj ms) = list_all (\<lambda>(_, _, v). numbers_fit v) ms"
| "numbers_fit _ = True"

subsection \<open>The parser consumes its input, and its fuel is enough\<close>

lemma prepend_Some: "prepend d x = Some (t, r) \<longleftrightarrow> (\<exists>t'. x = Some (t', r) \<and> t = d @ t')"
  by (auto simp: prepend_def)

lemma low_surrogate_len: "low_surrogate s = Some (l, r) \<Longrightarrow> length r < length s"
  by (induction s rule: low_surrogate.induct) (auto split: if_splits option.splits)

lemma str_body_len: "str_body s = Some (t, r) \<Longrightarrow> length r < length s"
proof (induction s arbitrary: t r rule: measure_induct_rule [where f = length])
  case (less s)
  show ?case
  proof (cases s)
    case Nil
    with less.prems show ?thesis by (simp add: str_body.simps)
  next
    case (Cons c r0)
    have IH: "str_body u = Some (t, r) \<Longrightarrow> length u \<le> length r0 \<longrightarrow> length r < length u" for u t r
      using less.IH [of u t r] Cons by auto
    from less.prems Cons have "str_body (c # r0) = Some (t, r)" by simp
    then show ?thesis
      unfolding Cons
      apply (subst (asm) str_body.simps(2))
      apply (auto simp: prepend_Some Let_def split: if_splits list.splits option.splits dest!: IH)
      done
  qed
qed

lemma digits_of_len: "digits_of s = (d, r) \<Longrightarrow> length s = length d + length r"
  by (induction s arbitrary: d r) (auto split: if_splits prod.splits)

lemma num_int_len: "num_int s = Some (t, r) \<Longrightarrow> length r < length s"
  by (auto simp: num_int_def split: list.splits if_splits prod.splits dest!: digits_of_len)

lemma num_frac_len: "num_frac s = Some (t, r) \<Longrightarrow> length r \<le> length s"
  by (auto simp: num_frac_def split: list.splits if_splits prod.splits dest!: digits_of_len)

lemma num_exp_len: "num_exp s = Some (t, r) \<Longrightarrow> length r \<le> length s"
  by (auto simp: num_exp_def split: list.splits if_splits prod.splits dest!: digits_of_len)

lemma jnumber_len: "jnumber s = Some (t, r) \<Longrightarrow> length r < length s"
  by (fastforce simp: jnumber_def split: list.splits if_splits prod.splits option.splits
      dest!: num_int_len num_frac_len num_exp_len)

lemma literal_at_len: "literal_at l s = Some r \<Longrightarrow> l \<noteq> [] \<Longrightarrow> length r < length s"
  by (cases s) (auto simp: literal_at_def split: if_splits)

lemmas lexer_len = str_body_len jnumber_len literal_at_len

lemma skip_ws_Cons_len: "skip_ws s = c # r \<Longrightarrow> length r < length s"
  using length_skip_ws [of s] by simp

lemma jmembers_SucD:
  assumes "jmembers (Suc n) d s = Some (ms, r)"
  shows "\<exists>q r0 k r1 c r2 v r4 c' r5. skip_ws s = q # r0 \<and> str_body r0 = Some (k, r1) \<and>
    skip_ws r1 = c # r2 \<and> jvalue n d (skip_ws r2) = Some (v, r4) \<and> skip_ws r4 = c' # r5 \<and>
    (r = r5 \<or> (\<exists>ms'. jmembers n d r5 = Some (ms', r)))"
  using assms by (fastforce simp: Let_def split: list.splits if_splits option.splits prod.splits)

lemma jparse_len_all:
  "(\<forall>d s v r. jvalue n d s = Some (v, r) \<longrightarrow> length r < length s) \<and>
   (\<forall>d s v r. jelements n d s = Some (v, r) \<longrightarrow> length r < length s) \<and>
   (\<forall>d s v r. jmembers n d s = Some (v, r) \<longrightarrow> length r < length s)"
proof (induction n)
  case 0
  show ?case by simp
next
  case (Suc n)
  then have V: "\<And>d s v r. jvalue n d s = Some (v, r) \<Longrightarrow> length r < length s"
    and E: "\<And>d s v r. jelements n d s = Some (v, r) \<Longrightarrow> length r < length s"
    and M: "\<And>d s v r. jmembers n d s = Some (v, r) \<Longrightarrow> length r < length s"
    by blast+
  have "length r < length s" if "jvalue (Suc n) d s = Some (v, r)" for d s v r
    using that length_skip_ws [of s]
    by (fastforce split: list.splits if_splits option.splits simp del: str_body.simps
        dest!: E M lexer_len dest: skip_ws_Cons_len)
  moreover have "length r < length s" if "jelements (Suc n) d s = Some (v, r)" for d s v r
    using that
    by (fastforce split: list.splits if_splits option.splits prod.splits
        dest!: V E dest: skip_ws_Cons_len)
  moreover have "length r < length s" if j: "jmembers (Suc n) d s = Some (v, r)" for d s v r
  proof -
    obtain q r0 k r1 c r2 w r4 c' r5 where *: "skip_ws s = q # r0" "str_body r0 = Some (k, r1)"
      "skip_ws r1 = c # r2" "jvalue n d (skip_ws r2) = Some (w, r4)" "skip_ws r4 = c' # r5"
      "r = r5 \<or> (\<exists>ms'. jmembers n d r5 = Some (ms', r))"
      using jmembers_SucD [OF j] by blast
    then have "length r \<le> length r5" by (auto dest: M)
    with *(1-5) show ?thesis
      using length_skip_ws [of r2] by (auto dest!: skip_ws_Cons_len str_body_len V)
  qed
  ultimately show ?case by blast
qed

lemmas jparse_len =
  jparse_len_all [THEN conjunct1, rule_format]
  jparse_len_all [THEN conjunct2, THEN conjunct1, rule_format]
  jparse_len_all [THEN conjunct2, THEN conjunct2, rule_format]

lemma jparse_fuel_all:
  "(\<forall>m d s. 2 * length s + 1 \<le> n \<longrightarrow> 2 * length s + 1 \<le> m \<longrightarrow> jvalue n d s = jvalue m d s) \<and>
   (\<forall>m d s. 2 * length s + 2 \<le> n \<longrightarrow> 2 * length s + 2 \<le> m \<longrightarrow> jelements n d s = jelements m d s) \<and>
   (\<forall>m d s. 2 * length s + 2 \<le> n \<longrightarrow> 2 * length s + 2 \<le> m \<longrightarrow> jmembers n d s = jmembers m d s)"
proof (induction n)
  case 0
  show ?case by simp
next
  case (Suc n)
  then have V: "\<And>m d s. 2 * length s + 1 \<le> n \<Longrightarrow> 2 * length s + 1 \<le> m \<Longrightarrow> jvalue n d s = jvalue m d s"
    and E: "\<And>m d s. 2 * length s + 2 \<le> n \<Longrightarrow> 2 * length s + 2 \<le> m \<Longrightarrow> jelements n d s = jelements m d s"
    and M: "\<And>m d s. 2 * length s + 2 \<le> n \<Longrightarrow> 2 * length s + 2 \<le> m \<Longrightarrow> jmembers n d s = jmembers m d s"
    by blast+
  have "jvalue (Suc n) d s = jvalue m d s"
    if n: "2 * length s + 1 \<le> Suc n" and m: "2 * length s + 1 \<le> m" for m d s
  proof -
    from m obtain m' where m': "m = Suc m'" by (cases m) auto
    show ?thesis
    proof (cases "skip_ws s")
      case (Cons c r)
      then have "length r < length s" by (rule skip_ws_Cons_len)
      then have "jelements n (d - 1) r = jelements m' (d - 1) r"
        and "jmembers n (d - 1) r = jmembers m' (d - 1) r"
        using n m m' by (auto intro!: E M)
      with Cons m' show ?thesis by (auto split: list.split)
    qed (simp add: m')
  qed
  moreover have "jelements (Suc n) d s = jelements m d s"
    if n: "2 * length s + 2 \<le> Suc n" and m: "2 * length s + 2 \<le> m" for m d s
  proof -
    from m obtain m' where m': "m = Suc m'" by (cases m) auto
    have v: "jvalue n d s = jvalue m' d s" using n m m' by (intro V) auto
    have e: "jelements n d r' = jelements m' d r'"
      if "jvalue m' d s = Some (v, r)" "skip_ws r = c # r'" for v r c r'
      using jparse_len(1) [OF that(1)] skip_ws_Cons_len [OF that(2)] n m m' by (intro E) auto
    show ?thesis
      by (auto simp: m' v e split: option.splits list.splits)
  qed
  moreover have "jmembers (Suc n) d s = jmembers m d s"
    if n: "2 * length s + 2 \<le> Suc n" and m: "2 * length s + 2 \<le> m" for m d s
  proof -
    from m obtain m' where m': "m = Suc m'" by (cases m) auto
    have v: "jvalue n d (skip_ws r2) = jvalue m' d (skip_ws r2)"
      if "skip_ws s = q # r0" "str_body r0 = Some (k, r1)" "skip_ws r1 = c # r2" for q r0 k r1 c r2
      using skip_ws_Cons_len [OF that(1)] str_body_len [OF that(2)] skip_ws_Cons_len [OF that(3)]
        length_skip_ws [of r2] n m m' by (intro V) auto
    have e: "jmembers n d r5 = jmembers m' d r5"
      if "skip_ws s = q # r0" "str_body r0 = Some (k, r1)" "skip_ws r1 = c # r2"
        "jvalue m' d (skip_ws r2) = Some (w, r4)" "skip_ws r4 = c' # r5" for q r0 k r1 c r2 w r4 c' r5
      using skip_ws_Cons_len [OF that(1)] str_body_len [OF that(2)] skip_ws_Cons_len [OF that(3)]
        length_skip_ws [of r2] jparse_len(1) [OF that(4)] skip_ws_Cons_len [OF that(5)] n m m'
      by (intro M) auto
    show ?thesis
      by (auto simp: m' Let_def v e split: option.splits list.splits)
  qed
  ultimately show ?case by blast
qed

text \<open>Any fuel from \<open>2 * length s + 1\<close> on gives the same answer.\<close>

lemma jvalue_fuel:
  "2 * length s + 1 \<le> n \<Longrightarrow> 2 * length s + 1 \<le> m \<Longrightarrow> jvalue n d s = jvalue m d s"
  using jparse_fuel_all by blast

subsection \<open>What is written is read back\<close>

text \<open>
  A written string is read back as itself, with U+FFFD for each byte that was not valid
  UTF-8.
\<close>

function (sequential) to_valid_utf8 :: "string \<Rightarrow> string" where
  "to_valid_utf8 [] = []"
| "to_valid_utf8 (c # r) =
     (let k = utf8_len (c # r) in
      if k = 0 then replacement_char @ to_valid_utf8 r
      else take k (c # r) @ to_valid_utf8 (drop (k - 1) r))"
  by pat_completeness auto
termination
  by (relation "measure length") auto

declare to_valid_utf8.simps [simp del]

lemma utf8_encode_specials:
  "utf8_encode 0xFFFD = replacement_char" "utf8_encode 0x2028 = line_separator"
  "utf8_encode 0x2029 = paragraph_separator" "utf8_encode 0x17F = long_s" "utf8_encode 0x212A = kelvin_sign"
  by code_simp+

lemma hex_value_digit: "n < 16 \<Longrightarrow> hex_value (hex_digit n) = Some n"
  by (simp add: hex_value_def hex_digit_def Let_def)

lemma hex4_escape:
  assumes "n < 65536"
  shows "hex4 (hex_digit (n div 4096)) (hex_digit (n div 256 mod 16))
    (hex_digit (n div 16 mod 16)) (hex_digit (n mod 16)) = Some n"
proof -
  have "n div 4096 < 16" using assms by (simp add: less_mult_imp_div_less)
  moreover have "((n div 4096 * 16 + n div 256 mod 16) * 16 + n div 16 mod 16) * 16 + n mod 16 = n"
  proof -
    have "n div 16 div 16 = n div 256" "n div 256 div 16 = n div 4096"
      by (simp_all add: div_mult2_eq [symmetric])
    then show ?thesis
      by (metis div_mult_mod_eq)
  qed
  ultimately show ?thesis by (simp add: hex4_def hex_value_digit)
qed

lemma str_body_unicode:
  assumes "n < 65536" and "\<not> (0xD800 \<le> n \<and> n < 0xDC00)"
  shows "str_body (unicode_escape n @ y) = prepend (utf8_encode n) (str_body y)"
  using hex4_escape [OF assms(1)] assms(2)
  by (auto simp add: str_body.simps(2) unicode_escape_def)

lemma str_body_plain:
  assumes "c \<noteq> CHR 0x22" "c \<noteq> CHR 0x5C" "32 \<le> (of_char c :: nat)" "of_char c < (128 :: nat)"
  shows "str_body (c # y) = prepend [c] (str_body y)"
proof -
  have "utf8_len (c # y) = 1" using assms(4) by (simp add: utf8_len_def utf8_lead_def utf8_tail_def)
  with assms show ?thesis by (simp add: str_body.simps(2))
qed

lemma str_body_ascii:
  assumes "of_char c < (128 :: nat)"
  shows "str_body (ascii_escape c @ y) = prepend [c] (str_body y)"
proof -
  have u: "utf8_encode (of_char c) = [c]" using assms by (simp add: utf8_encode_def utf8_bytes_def)
  show ?thesis
    using assms str_body_unicode [of "of_char c" y] u str_body_plain [of c y]
    by (auto simp: ascii_escape_def str_body.simps(2) [of "CHR 0x5C"] simple_escape_def)
qed

lemma utf8_lead_le: "utf8_lead a \<le> 4"
  by (simp add: utf8_lead_def)

lemma utf8_lead_ascii: "a < 128 \<Longrightarrow> utf8_lead a = 1"
  by (simp add: utf8_lead_def)

lemma utf8_len_codes_prefix:
  "utf8_len_codes ns = Suc k \<Longrightarrow> Suc k \<le> length ns \<and> k < 4 \<and> utf8_len_codes (take (Suc k) ns @ x) = Suc k"
  by (cases ns) (use utf8_lead_le [of "hd ns"] in \<open>auto simp: Let_def min_def split: if_splits\<close>)

lemma utf8_len_prefix:
  assumes "utf8_len s = k" "0 < k"
  shows "k \<le> length s" "k \<le> 4" "utf8_len (take k s @ x) = k"
proof -
  from assms obtain j where k: "k = Suc j" by (cases k) auto
  then have len: "k \<le> length (take 4 s)" and k4: "k \<le> 4"
    using assms utf8_len_codes_prefix [of "map of_char (take 4 s)" j "[]"] by (auto simp: utf8_len_def)
  then show "k \<le> length s" "k \<le> 4" by auto
  then have "map (of_char :: char \<Rightarrow> nat) (take 4 (take k s @ x)) =
      take k (map of_char (take 4 s)) @ map of_char (take (4 - k) x)"
    by (simp add: take_map min_def)
  then show "utf8_len (take k s @ x) = k"
    using assms(1) k utf8_len_codes_prefix [of "map of_char (take 4 s)" j]
    by (simp add: utf8_len_def)
qed

lemma str_body_multi:
  assumes "utf8_len (c # r) = k" "0 < k" "128 \<le> (of_char c :: nat)"
  shows "str_body (take k (c # r) @ y) = prepend (take k (c # r)) (str_body y)"
proof -
  from assms(2) obtain j where k: "k = Suc j" by (cases k) auto
  have "c \<noteq> CHR 0x22" "c \<noteq> CHR 0x5C" using assms(3) by auto
  moreover have "utf8_len (c # (take j r @ y)) = Suc j" "j \<le> length r"
    using utf8_len_prefix [OF assms(1,2)] k by auto
  ultimately show ?thesis
    using assms(3) k by (simp add: str_body.simps(2))
qed

lemma str_body_json_escape:
  "str_body (json_escape s @ CHR 0x22 # y) = Some (to_valid_utf8 s, y)"
proof (induction s rule: measure_induct_rule [where f = length])
  case (less s)
  show ?case
  proof (cases s)
    case Nil
    then show ?thesis by (simp add: json_escape.simps to_valid_utf8.simps str_body.simps)
  next
    case (Cons c r)
    let ?k = "utf8_len (c # r)"
    have IH: "str_body (json_escape u @ CHR 0x22 # y) = Some (to_valid_utf8 u, y)" if "length u \<le> length r" for u
      using less.IH [of u] Cons that by auto
    show ?thesis
    proof (cases "of_char c < (128 :: nat)")
      case True
      then have "?k = 1" by (simp add: utf8_len_def utf8_lead_def utf8_tail_def)
      with True show ?thesis
        using IH [of r] Cons
        by (simp add: json_escape.simps to_valid_utf8.simps str_body_ascii prepend_def)
    next
      case False
      show ?thesis
      proof (cases "?k = 0")
        case True
        with True False show ?thesis
          using IH [of r] Cons
          by (simp add: json_escape.simps to_valid_utf8.simps str_body_unicode utf8_encode_specials prepend_def)
      next
        case k: False
        with False show ?thesis
          using IH [of "drop (?k - 1) r"] Cons str_body_multi [of c r ?k]
          by (auto simp: json_escape.simps to_valid_utf8.simps str_body_unicode utf8_encode_specials prepend_def Let_def)
      qed
    qed
  qed
qed

lemma json_parse_json_string: "json_parse (json_string s) = Some (JStr (to_valid_utf8 s))"
proof -
  have q: "is_space (CHR 0x22) = False" by (simp add: is_space_def)
  show ?thesis
    using str_body_json_escape [of s "[]"]
    by (simp add: json_parse_def json_string_def q)
qed

lemma to_valid_utf8_ascii: "\<forall>c \<in> set s. of_char c < (128 :: nat) \<Longrightarrow> to_valid_utf8 s = s"
proof (induction s)
  case (Cons c r)
  then have "utf8_len (c # r) = 1" by (simp add: utf8_len_def utf8_lead_def utf8_tail_def)
  with Cons show ?case by (simp add: to_valid_utf8.simps)
qed (simp add: to_valid_utf8.simps)

text \<open>
  An object written with string members is read back as that object, each member with its
  raw text.
\<close>

definition string_members :: "(string \<times> string) list \<Rightarrow> jmember list" where
  "string_members fs = map (\<lambda>(k, v). (to_valid_utf8 k, json_string v, JStr (to_valid_utf8 v))) fs"

lemma not_space_simps [simp]:
  "is_space (CHR 0x22) = False" "is_space CHR '':'' = False" "is_space CHR '','' = False"
  "is_space CHR ''}'' = False" "is_space CHR ''{'' = False"
  by (simp_all add: is_space_def)

lemma jvalue_json_string:
  "jvalue (Suc n) d (json_string v @ y) = Some (JStr (to_valid_utf8 v), y)"
  using str_body_json_escape [of v y] by (simp add: json_string_def)

lemma jmembers_object_fields:
  assumes "fs \<noteq> []" "length fs < n"
  shows "jmembers n d (object_fields (map (\<lambda>(k, v). (k, json_string v)) fs) @ CHR ''}'' # y) =
    Some (string_members fs, y)"
  using assms
proof (induction fs arbitrary: n)
  case (Cons kv fs)
  obtain k v where kv: "kv = (k, v)" by (cases kv)
  from Cons.prems have "n = Suc (Suc (n - 2))" by simp
  then obtain m where n: "n = Suc (Suc m)" by blast
  have ws: "skip_ws (json_string v @ y') = json_string v @ y'" for v y'
    by (simp add: json_string_def)
  have member: "jmembers (Suc (Suc m)) d (json_string k @ '':'' @ json_string v @ c # y') =
      (if c = CHR '','' then
         map_option (\<lambda>(ms, r6). ((to_valid_utf8 k, json_string v, JStr (to_valid_utf8 v)) # ms, r6))
           (jmembers (Suc m) d y')
       else if c = CHR ''}'' then Some ([(to_valid_utf8 k, json_string v, JStr (to_valid_utf8 v))], y')
       else None)" if "\<not> is_space c" for c y'
    using that str_body_json_escape [of k "'':'' @ json_string v @ c # y'"]
      jvalue_json_string [of m d v "c # y'"] ws [of v "c # y'"]
    by (simp add: json_string_def Let_def)
  show ?case
  proof (cases fs)
    case Nil
    show ?thesis using member [of "CHR ''}''" y]
      by (simp add: Nil kv n string_members_def)
  next
    case (Cons kv' fs')
    have "jmembers (Suc m) d (object_fields (map (\<lambda>(k, v). (k, json_string v)) fs) @ CHR ''}'' # y) =
      Some (string_members fs, y)"
      using Cons.prems n Cons by (intro Cons.IH) auto
    then show ?thesis
      using member [of "CHR '',''" "object_fields (map (\<lambda>(k, v). (k, json_string v)) fs) @ CHR ''}'' # y"]
        Cons kv n
      by (cases kv') (simp add: string_members_def)
  qed
qed simp

end
