(* ===== verification/Messages.thy ===== *)
theory Messages
  imports Json "HOL-Library.Char_ord" "HOL-Library.List_Lexorder"
begin

section \<open>Protocol messages\<close>

text \<open>
  \<^verbatim>\<open>internal/protocol/messages.go\<close> and \<^verbatim>\<open>unmarshal.go\<close>: the envelope
  \<^verbatim>\<open>ProtocolMessage\<close>, the part of it that is signed, and the payload of each action with
  its custom \<^verbatim>\<open>UnmarshalJSON\<close>, which refuses a payload that lacks a required member.
  The record fields follow the Go fields; a Go map is an association list with distinct
  keys, in the order its entries were set (Go's own iteration order is unspecified).
\<close>

subsection \<open>Constants\<close>

definition PKDContextV1 :: string where
  "PKDContextV1 = ''https://github.com/fedi-e2ee/public-key-directory/v1''"

definition ExtensionURNOLM :: string where
  "ExtensionURNOLM = ''urn:fedi-e2ee:aux:olm''"

subsection \<open>The envelope\<close>

record protocol_message =
  pm_context :: string
  pm_action :: string
  pm_key_id :: string
  pm_message :: string
  pm_recent_merkle_root :: string
  pm_signature :: string
  pm_symmetric_keys :: "(string \<times> string) list"
  pm_otp :: string

record signed_message =
  sm_context :: string
  sm_action :: string
  sm_message :: string
  sm_recent_merkle_root :: string

text \<open>The struct literal every handler and \<^verbatim>\<open>VerifyMessageSignature\<close> build.\<close>

definition signed_part :: "protocol_message \<Rightarrow> signed_message" where
  "signed_part msg =
     \<lparr> sm_context = pm_context msg, sm_action = pm_action msg, sm_message = pm_message msg,
       sm_recent_merkle_root = pm_recent_merkle_root msg \<rparr>"

text \<open>\<^verbatim>\<open>json.Marshal\<close> of the two structs; it fails only on a raw message that is not JSON.\<close>

definition marshal_signed :: "signed_message \<Rightarrow> string result" where
  "marshal_signed sm =
     (case marshal_raw (sm_message sm) of
        None \<Rightarrow> Inl (Errorf ''json: error calling MarshalJSON for type json.RawMessage'')
      | Some raw \<Rightarrow>
          Inr (json_object
            [(''!pkd-context'', json_string (sm_context sm)),
             (''action'', json_string (sm_action sm)),
             (''message'', raw),
             (''recent-merkle-root'', json_string (sm_recent_merkle_root sm))]))"

definition omit_empty :: "string \<Rightarrow> string \<Rightarrow> (string \<times> string) list" where
  "omit_empty name v = (if v = [] then [] else [(name, json_string v)])"

definition marshal_string_map :: "(string \<times> string) list \<Rightarrow> string" where
  "marshal_string_map m = json_object (map (\<lambda>(k, v). (k, json_string v)) (sort_key fst m))"

definition marshal_protocol :: "protocol_message \<Rightarrow> string result" where
  "marshal_protocol msg =
     (case marshal_raw (pm_message msg) of
        None \<Rightarrow> Inl (Errorf ''json: error calling MarshalJSON for type json.RawMessage'')
      | Some raw \<Rightarrow>
          Inr (json_object
            ([(''!pkd-context'', json_string (pm_context msg)),
              (''action'', json_string (pm_action msg))] @
             omit_empty ''key-id'' (pm_key_id msg) @
             [(''message'', raw),
              (''recent-merkle-root'', json_string (pm_recent_merkle_root msg)),
              (''signature'', json_string (pm_signature msg))] @
             (if pm_symmetric_keys msg = [] then []
              else [(''symmetric-keys'', marshal_string_map (pm_symmetric_keys msg))]) @
             omit_empty ''otp'' (pm_otp msg))))"

text \<open>\<^verbatim>\<open>json.NewDecoder(r.Body).Decode(&msg)\<close> into the envelope.\<close>

definition decode_protocol :: "string \<Rightarrow> protocol_message option" where
  "decode_protocol body =
     (case Option.bind (json_first body) members_of of
        None \<Rightarrow> None
      | Some ms \<Rightarrow>
          if list_all (\<lambda>f. string_field_ok f ms)
               [''!pkd-context'', ''action'', ''key-id'', ''recent-merkle-root'', ''signature'', ''otp'']
             \<and> map_field_ok ''symmetric-keys'' ms
          then Some
            \<lparr> pm_context = string_field ''!pkd-context'' [] ms,
              pm_action = string_field ''action'' [] ms,
              pm_key_id = string_field ''key-id'' [] ms,
              pm_message = raw_field ''message'' [] ms,
              pm_recent_merkle_root = string_field ''recent-merkle-root'' [] ms,
              pm_signature = string_field ''signature'' [] ms,
              pm_symmetric_keys = map_field ''symmetric-keys'' [] ms,
              pm_otp = string_field ''otp'' [] ms \<rparr>
          else None)"

subsection \<open>Unmarshalling with required fields\<close>

text \<open>
  \<^verbatim>\<open>unmarshalWithChecks\<close> decodes twice: into a map, to look for the required keys, and
  into the target struct. The model's first half returns the members, from which
  \<open>decode_strings\<close>, the second half, reads the struct's fields.
\<close>

definition decode_map :: "string \<Rightarrow> jmember list option" where
  "decode_map data =
     (case Option.bind (json_parse data) members_of of
        None \<Rightarrow> None
      | Some ms \<Rightarrow> if numbers_fit (JObj ms) then Some ms else None)"

definition json_error :: go_error where
  "json_error = Errorf ''json: invalid input''"

definition unmarshal_with_checks :: "string \<Rightarrow> string list \<Rightarrow> jmember list result" where
  "unmarshal_with_checks data required =
     (case decode_map data of
        None \<Rightarrow> Inl (Wrap ''failed to unmarshal for field check: '' json_error [])
      | Some ms \<Rightarrow>
          (case find (\<lambda>f. f \<notin> fst ` set ms) required of
             Some f \<Rightarrow> Inl (Errorf (''missing required field: '' @ f))
           | None \<Rightarrow> Inr ms))"

definition decode_strings :: "string list \<Rightarrow> jmember list \<Rightarrow> (string \<Rightarrow> string) result" where
  "decode_strings names ms =
     (if list_all (\<lambda>f. string_field_ok f ms) names
      then Inr (\<lambda>f. string_field f [] ms)
      else Inl (Wrap ''failed to unmarshal into target struct: '' json_error []))"

definition unmarshal_struct :: "string \<Rightarrow> string list \<Rightarrow> string list \<Rightarrow> (string \<Rightarrow> string) result" where
  "unmarshal_struct data required names =
     (case unmarshal_with_checks data required of
        Inl e \<Rightarrow> Inl e
      | Inr ms \<Rightarrow> decode_strings names ms)"

subsection \<open>The payloads\<close>

record add_key_message =
  ak_actor :: string
  ak_time :: string
  ak_public_key :: string

definition unmarshal_add_key :: "string \<Rightarrow> add_key_message result" where
  "unmarshal_add_key data =
     (case unmarshal_struct data [''actor'', ''time'', ''public-key''] [''actor'', ''time'', ''public-key''] of
        Inl e \<Rightarrow> Inl e
      | Inr f \<Rightarrow> Inr \<lparr> ak_actor = f ''actor'', ak_time = f ''time'', ak_public_key = f ''public-key'' \<rparr>)"

record revoke_key_message =
  rk_actor :: string
  rk_time :: string
  rk_public_key :: string

definition unmarshal_revoke_key :: "string \<Rightarrow> revoke_key_message result" where
  "unmarshal_revoke_key data =
     (case unmarshal_struct data [''actor'', ''time'', ''public-key''] [''actor'', ''time'', ''public-key''] of
        Inl e \<Rightarrow> Inl e
      | Inr f \<Rightarrow> Inr \<lparr> rk_actor = f ''actor'', rk_time = f ''time'', rk_public_key = f ''public-key'' \<rparr>)"

record revoke_key_third_party_message =
  tp_action :: string
  tp_revocation_token :: string

definition unmarshal_revoke_key_third_party :: "string \<Rightarrow> revoke_key_third_party_message result" where
  "unmarshal_revoke_key_third_party data =
     (case unmarshal_struct data [''action'', ''revocation-token''] [''action'', ''revocation-token''] of
        Inl e \<Rightarrow> Inl e
      | Inr f \<Rightarrow> Inr \<lparr> tp_action = f ''action'', tp_revocation_token = f ''revocation-token'' \<rparr>)"

record move_identity_message =
  mi_old_actor :: string
  mi_new_actor :: string
  mi_time :: string

definition unmarshal_move_identity :: "string \<Rightarrow> move_identity_message result" where
  "unmarshal_move_identity data =
     (case unmarshal_struct data [''old-actor'', ''new-actor'', ''time''] [''old-actor'', ''new-actor'', ''time''] of
        Inl e \<Rightarrow> Inl e
      | Inr f \<Rightarrow> Inr \<lparr> mi_old_actor = f ''old-actor'', mi_new_actor = f ''new-actor'', mi_time = f ''time'' \<rparr>)"

record burn_down_message =
  bd_actor :: string
  bd_operator :: string
  bd_time :: string

definition unmarshal_burn_down :: "string \<Rightarrow> burn_down_message result" where
  "unmarshal_burn_down data =
     (case unmarshal_struct data [''actor'', ''operator'', ''time''] [''actor'', ''operator'', ''time''] of
        Inl e \<Rightarrow> Inl e
      | Inr f \<Rightarrow> Inr \<lparr> bd_actor = f ''actor'', bd_operator = f ''operator'', bd_time = f ''time'' \<rparr>)"

record fireproof_message =
  fp_actor :: string
  fp_time :: string

definition unmarshal_fireproof :: "string \<Rightarrow> fireproof_message result" where
  "unmarshal_fireproof data =
     (case unmarshal_struct data [''actor'', ''time''] [''actor'', ''time''] of
        Inl e \<Rightarrow> Inl e
      | Inr f \<Rightarrow> Inr \<lparr> fp_actor = f ''actor'', fp_time = f ''time'' \<rparr>)"

record undo_fireproof_message =
  uf_actor :: string
  uf_time :: string

definition unmarshal_undo_fireproof :: "string \<Rightarrow> undo_fireproof_message result" where
  "unmarshal_undo_fireproof data =
     (case unmarshal_struct data [''actor'', ''time''] [''actor'', ''time''] of
        Inl e \<Rightarrow> Inl e
      | Inr f \<Rightarrow> Inr \<lparr> uf_actor = f ''actor'', uf_time = f ''time'' \<rparr>)"

record add_aux_data_message =
  aa_actor :: string
  aa_aux_type :: string
  aa_aux_data :: string
  aa_aux_id :: string
  aa_time :: string

definition unmarshal_add_aux_data :: "string \<Rightarrow> add_aux_data_message result" where
  "unmarshal_add_aux_data data =
     (case unmarshal_struct data [''actor'', ''aux-type'', ''aux-data'', ''time'']
             [''actor'', ''aux-type'', ''aux-data'', ''aux-id'', ''time''] of
        Inl e \<Rightarrow> Inl e
      | Inr f \<Rightarrow> Inr \<lparr> aa_actor = f ''actor'', aa_aux_type = f ''aux-type'',
          aa_aux_data = f ''aux-data'', aa_aux_id = f ''aux-id'', aa_time = f ''time'' \<rparr>)"

record revoke_aux_data_message =
  ra_actor :: string
  ra_aux_type :: string
  ra_aux_data :: string
  ra_aux_id :: string
  ra_time :: string

definition unmarshal_revoke_aux_data :: "string \<Rightarrow> revoke_aux_data_message result" where
  "unmarshal_revoke_aux_data data =
     (case decode_map data of
        None \<Rightarrow> Inl json_error
      | Some raw \<Rightarrow>
          if ''aux-data'' \<notin> fst ` set raw \<and> ''aux-id'' \<notin> fst ` set raw
          then Inl (Errorf ''at least one of 'aux-data' or 'aux-id' must be present'')
          else
            (case unmarshal_struct data [''actor'', ''aux-type'', ''time'']
                    [''actor'', ''aux-type'', ''aux-data'', ''aux-id'', ''time''] of
               Inl e \<Rightarrow> Inl e
             | Inr f \<Rightarrow> Inr \<lparr> ra_actor = f ''actor'', ra_aux_type = f ''aux-type'',
                 ra_aux_data = f ''aux-data'', ra_aux_id = f ''aux-id'', ra_time = f ''time'' \<rparr>))"

record query_message =
  q_actor :: string

definition unmarshal_query :: "string \<Rightarrow> query_message result" where
  "unmarshal_query data =
     (case unmarshal_struct data [''actor''] [''actor''] of
        Inl e \<Rightarrow> Inl e
      | Inr f \<Rightarrow> Inr \<lparr> q_actor = f ''actor'' \<rparr>)"

record checkpoint_message =
  cp_time :: string
  cp_from_directory :: string
  cp_from_root :: string
  cp_from_public_key :: string
  cp_to_directory :: string
  cp_to_validated_root :: string

definition checkpoint_names :: "string list" where
  "checkpoint_names =
     [''time'', ''from-directory'', ''from-root'', ''from-public-key'', ''to-directory'', ''to-validated-root'']"

definition unmarshal_checkpoint :: "string \<Rightarrow> checkpoint_message result" where
  "unmarshal_checkpoint data =
     (case unmarshal_struct data checkpoint_names checkpoint_names of
        Inl e \<Rightarrow> Inl e
      | Inr f \<Rightarrow> Inr \<lparr> cp_time = f ''time'', cp_from_directory = f ''from-directory'',
          cp_from_root = f ''from-root'', cp_from_public_key = f ''from-public-key'',
          cp_to_directory = f ''to-directory'', cp_to_validated_root = f ''to-validated-root'' \<rparr>)"

text \<open>\<^verbatim>\<open>json.Marshal\<close> of the one payload the server writes itself.\<close>

definition checkpoint_fields :: "checkpoint_message \<Rightarrow> (string \<times> string) list" where
  "checkpoint_fields m =
     [(''time'', cp_time m), (''from-directory'', cp_from_directory m), (''from-root'', cp_from_root m),
      (''from-public-key'', cp_from_public_key m), (''to-directory'', cp_to_directory m),
      (''to-validated-root'', cp_to_validated_root m)]"

definition marshal_checkpoint :: "checkpoint_message \<Rightarrow> string" where
  "marshal_checkpoint m = json_object (map (\<lambda>(k, v). (k, json_string v)) (checkpoint_fields m))"


subsection \<open>What a successful unmarshalling tells\<close>

lemma find_missing_None: "find (\<lambda>f. f \<notin> A) fs = None \<longleftrightarrow> set fs \<subseteq> A"
  by (auto simp: find_None_iff)

lemma unmarshal_with_checks_Inr:
  "unmarshal_with_checks data req = Inr ms \<longleftrightarrow> decode_map data = Some ms \<and> set req \<subseteq> fst ` set ms"
proof (cases "decode_map data")
  case (Some ms')
  show ?thesis
    by (cases "find (\<lambda>f. f \<notin> fst ` set ms') req")
       (use Some find_missing_None [of "fst ` set ms'" req] in \<open>auto simp: unmarshal_with_checks_def\<close>)
qed (simp add: unmarshal_with_checks_def)

lemma unmarshal_struct_Inr:
  "unmarshal_struct data req names = Inr f \<longleftrightarrow>
     (\<exists>ms. decode_map data = Some ms \<and> set req \<subseteq> fst ` set ms \<and>
        (\<forall>n \<in> set names. string_field_ok n ms) \<and> f = (\<lambda>n. string_field n [] ms))"
proof (cases "unmarshal_with_checks data req")
  case (Inl e)
  then have "\<not> (\<exists>ms. decode_map data = Some ms \<and> set req \<subseteq> fst ` set ms)"
    using unmarshal_with_checks_Inr [of data req] by auto
  with Inl show ?thesis by (auto simp: unmarshal_struct_def)
next
  case (Inr ms)
  with unmarshal_with_checks_Inr [of data req ms] show ?thesis
    by (auto simp: unmarshal_struct_def decode_strings_def list_all_iff)
qed

text \<open>
  The refusal of a payload without one of its required members, whatever else it holds.
  The bundle serves every payload.
\<close>

lemma unmarshal_struct_missing:
  "decode_map data = Some ms \<Longrightarrow> r \<in> set req \<Longrightarrow> r \<notin> fst ` set ms \<Longrightarrow>
   \<exists>e. unmarshal_struct data req names = Inl e"
  using unmarshal_struct_Inr [of data req names]
  by (cases "unmarshal_struct data req names") auto

lemmas unmarshal_defs =
  unmarshal_add_key_def unmarshal_revoke_key_def unmarshal_revoke_key_third_party_def
  unmarshal_move_identity_def unmarshal_burn_down_def unmarshal_fireproof_def
  unmarshal_undo_fireproof_def unmarshal_add_aux_data_def unmarshal_query_def
  unmarshal_checkpoint_def

subsection \<open>Written payloads are read back\<close>

lemma string_members_keys: "map fst (string_members fs) = map (to_valid_utf8 \<circ> fst) fs"
  by (induction fs) (auto simp: string_members_def)

lemma json_parse_object:
  assumes "fs \<noteq> []"
  shows "json_parse (json_object (map (\<lambda>(k, v). (k, json_string v)) fs)) = Some (JObj (string_members fs))"
proof -
  let ?t = "object_fields (map (\<lambda>(k, v). (k, json_string v)) fs)"
  have len: "length fs \<le> length (object_fields (map (\<lambda>(k, v). (k, json_string v)) fs))" for fs
    by (induction fs rule: induct_list012) (auto simp: json_string_def split: prod.splits)
  obtain k v fs' where fs: "fs = (k, v) # fs'" using assms by (cases fs) auto
  have q: "\<exists>u. ?t = CHR 0x22 # u"
    by (cases fs') (auto simp: fs json_string_def split: prod.splits)
  have *: "jvalue (Suc n) max_depth (CHR ''{'' # ?t @ ''}'') = Some (JObj (string_members fs), [])"
    if "length fs < n" for n
    using q jmembers_object_fields [OF assms that, of "max_depth - 1" "[]"]
    by (auto simp: max_depth_def simp del: jmembers.simps)
  have "length fs < 2 * length (json_object (map (\<lambda>(k, v). (k, json_string v)) fs)) + 1"
    using len [of fs] by (simp add: json_object_def)
  from * [OF this] show ?thesis by (simp add: json_parse_def json_object_def)
qed

lemma string_field_notin: "\<forall>(k, _, _) \<in> set ms. \<not> names_field name k \<Longrightarrow> string_field name acc ms = acc"
  by (induction ms) auto

lemma string_field_append:
  "string_field name acc (xs @ ys) = string_field name (string_field name acc xs) ys"
  by (induction xs arbitrary: acc) auto

definition ascii :: "string \<Rightarrow> bool" where
  "ascii s \<longleftrightarrow> list_all (\<lambda>c. of_char c < (128 :: nat)) s"

text \<open>
  A struct of string fields whose names differ even after case folding, written by
  \<^verbatim>\<open>json.Marshal\<close>: each field is read back, with U+FFFD for invalid UTF-8.
\<close>

lemma string_members_field:
  assumes "distinct (map (fold_name \<circ> fst) fs)" "list_all (ascii \<circ> fst) fs" "(n, v) \<in> set fs"
  shows "string_field n acc (string_members fs) = to_valid_utf8 v"
proof -
  obtain xs ys where fs: "fs = xs @ (n, v) # ys" using assms(3) by (meson split_list)
  have asc: "to_valid_utf8 k = k" if "(k, w) \<in> set fs" for k w
    using assms(2) that by (auto simp: list_all_iff ascii_def intro!: to_valid_utf8_ascii)
  have other: "\<not> names_field n k" if "(k, w) \<in> set ys" for k w
  proof -
    have "fold_name n \<notin> fold_name ` fst ` set ys"
      using assms(1) by (simp add: fs image_comp)
    moreover have "fold_name k \<in> fold_name ` fst ` set ys"
      using that by (intro imageI) force
    ultimately show ?thesis by (metis names_field_def)
  qed
  have "string_field n a (string_members ys) = a" for a
  proof (rule string_field_notin)
    have "to_valid_utf8 k = k" if "(k, w) \<in> set ys" for k w
      using asc that by (auto simp: fs)
    then show "\<forall>(k, _, _) \<in> set (string_members ys). \<not> names_field n k"
      using other by (fastforce simp: string_members_def)
  qed
  moreover have "string_members fs = string_members xs @ (n, json_string v, JStr (to_valid_utf8 v)) # string_members ys"
    using asc [of n v] assms(3) by (simp add: fs string_members_def)
  ultimately show ?thesis
    by (simp add: string_field_append names_field_def)
qed

lemma string_members_ok: "string_field_ok n (string_members fs)"
  by (auto simp: string_field_ok_def string_members_def list_all_iff string_or_null_def)

lemma decode_map_object:
  assumes "fs \<noteq> []" "list_all (ascii \<circ> fst) fs"
  shows "decode_map (json_object (map (\<lambda>(k, v). (k, json_string v)) fs)) = Some (string_members fs)"
    and "fst ` set (string_members fs) = fst ` set fs"
proof -
  have "numbers_fit (JObj (string_members fs))"
    by (auto simp: string_members_def list_all_iff)
  then show "decode_map (json_object (map (\<lambda>(k, v). (k, json_string v)) fs)) = Some (string_members fs)"
    by (simp add: decode_map_def json_parse_object [OF assms(1)] members_of_def)
  have "to_valid_utf8 k = k" if "(k, w) \<in> set fs" for k w
    using assms(2) that by (auto simp: list_all_iff ascii_def intro!: to_valid_utf8_ascii)
  then show "fst ` set (string_members fs) = fst ` set fs"
    by (force simp: string_members_def)
qed

lemma unmarshal_struct_object:
  assumes "fs \<noteq> []" "list_all (ascii \<circ> fst) fs" "set req \<subseteq> fst ` set fs"
  shows "unmarshal_struct (json_object (map (\<lambda>(k, v). (k, json_string v)) fs)) req names =
    Inr (\<lambda>n. string_field n [] (string_members fs))"
  using decode_map_object [OF assms(1,2)] assms(3)
  by (simp add: unmarshal_struct_Inr string_members_ok)

lemma checkpoint_fields_names:
  "distinct (map (fold_name \<circ> fst) (checkpoint_fields m))"
  "list_all (ascii \<circ> fst) (checkpoint_fields m)"
  "checkpoint_fields m \<noteq> []"
  "fst ` set (checkpoint_fields m) = set checkpoint_names"
proof -
  have names: "map fst (checkpoint_fields m) = checkpoint_names"
    by (simp add: checkpoint_fields_def checkpoint_names_def)
  have "distinct (map fold_name checkpoint_names)" and "list_all ascii checkpoint_names"
    by code_simp+
  then show "distinct (map (fold_name \<circ> fst) (checkpoint_fields m))"
    and "list_all (ascii \<circ> fst) (checkpoint_fields m)"
    by (simp_all add: names [symmetric] list.pred_map)
  show "fst ` set (checkpoint_fields m) = set checkpoint_names"
    by (metis names list.set_map)
qed (simp add: checkpoint_fields_def)

definition valid_checkpoint :: "checkpoint_message \<Rightarrow> checkpoint_message" where
  "valid_checkpoint m =
     \<lparr> cp_time = to_valid_utf8 (cp_time m), cp_from_directory = to_valid_utf8 (cp_from_directory m),
       cp_from_root = to_valid_utf8 (cp_from_root m),
       cp_from_public_key = to_valid_utf8 (cp_from_public_key m),
       cp_to_directory = to_valid_utf8 (cp_to_directory m),
       cp_to_validated_root = to_valid_utf8 (cp_to_validated_root m) \<rparr>"

lemma unmarshal_marshal_checkpoint:
  "unmarshal_checkpoint (marshal_checkpoint m) = Inr (valid_checkpoint m)"
proof -
  let ?f = "\<lambda>n. string_field n [] (string_members (checkpoint_fields m))"
  have "unmarshal_struct (marshal_checkpoint m) checkpoint_names checkpoint_names = Inr ?f"
    unfolding marshal_checkpoint_def
    by (rule unmarshal_struct_object) (simp_all add: checkpoint_fields_names)
  moreover have "?f n = to_valid_utf8 v" if "(n, v) \<in> set (checkpoint_fields m)" for n v
    using that by (intro string_members_field checkpoint_fields_names)
  ultimately show ?thesis
    by (simp add: unmarshal_checkpoint_def valid_checkpoint_def checkpoint_fields_def)
qed

text \<open>A checkpoint payload written by this server is accepted by \<^verbatim>\<open>UnmarshalJSON\<close>, with
  every field as it was written (invalid UTF-8 apart, which becomes U+FFFD): all the
  required members are there even when their values are empty.\<close>

theorem checkpoint_roundtrip:
  "unmarshal_checkpoint (marshal_checkpoint m) = Inr (valid_checkpoint m)"
  by (rule unmarshal_marshal_checkpoint)

end
