(* ===== verification/Repo.thy ===== *)
theory Repo
  imports StoreLaws Messages
begin

section \<open>The repository interface\<close>

text \<open>
  The Go interfaces \<^verbatim>\<open>db.Repository\<close> (\<^verbatim>\<open>internal/db/repository.go\<close>) and
  \<^verbatim>\<open>domain.TransactionalRepository\<close> (\<^verbatim>\<open>internal/domain/service.go\<close>) as one record of
  operations over a database handle of type \<open>'s\<close>. A handle has at most one open
  transaction, the one of the request in hand; the operations up to
  \<open>DeleteSymmetricKeysByHashes\<close> act on it, the others on the committed tables.

  The locale \<open>repository\<close> is the contract a back end has to meet: each operation leaves the
  handle in order, whatever happens; if it succeeds it satisfies its table relation; if it
  fails, the committed tables are what they were. The domain service and the HTTP handlers
  are verified against this contract, for SQLite and PostgreSQL at once.
\<close>

record 's repo =
  BeginTx :: "('s, unit) op"
  Commit :: "('s, unit) op"
  Rollback :: "('s, unit) op"
  GetOrCreateActor :: "string \<Rightarrow> ('s, actor) op"
  TxFindActorByActorID :: "string \<Rightarrow> ('s, actor option) op"
  ActorExists :: "string \<Rightarrow> ('s, bool) op"
  UpdateActorID :: "string \<Rightarrow> string \<Rightarrow> ('s, nat) op"
  InsertPublicKey :: "public_key \<Rightarrow> ('s, public_key) op"
  FindKeyToRevoke :: "string \<Rightarrow> string \<Rightarrow> ('s, public_key option) op"
  RevokeKey :: "nat \<Rightarrow> string \<Rightarrow> ('s, unit) op"
  GetMessageHashesForActor :: "nat \<Rightarrow> ('s, string list) op"
  RevokeAllKeysForActor :: "nat \<Rightarrow> string \<Rightarrow> ('s, unit) op"
  InsertAuxData :: "auxiliary_data \<Rightarrow> ('s, auxiliary_data) op"
  RevokeAuxData :: "string \<Rightarrow> string \<Rightarrow> string \<Rightarrow> ('s, nat) op"
  StoreSymmetricKeys :: "string \<Rightarrow> (string \<times> bytes) list \<Rightarrow> ('s, unit) op"
  DeleteSymmetricKeysByHashes :: "string list \<Rightarrow> ('s, unit) op"
  FindActorByActorID :: "string \<Rightarrow> ('s, actor option) op"
  IsFireproof :: "string \<Rightarrow> ('s, bool) op"
  SetFireproof :: "string \<Rightarrow> bool \<Rightarrow> ('s, unit) op"
  ListKeysForActor :: "string \<Rightarrow> ('s, public_key list) op"
  FindKeyByKeyID :: "string \<Rightarrow> ('s, public_key option) op"
  ListAuxDataForActor :: "string \<Rightarrow> ('s, auxiliary_data list) op"
  FindAuxDataByAuxID :: "string \<Rightarrow> ('s, auxiliary_data option) op"
  FindSymmetricKeysByMessageHash :: "string \<Rightarrow> ('s, symmetric_key list) op"
  StoreMessage :: "string \<Rightarrow> string \<Rightarrow> protocol_message \<Rightarrow> ('s, unit) op"
  GetLatestMerkleRoot :: "('s, string) op"
  StoreTOTPSecret :: "string \<Rightarrow> bytes \<Rightarrow> ('s, unit) op"
  GetTOTPSecret :: "string \<Rightarrow> ('s, bytes option) op"
  DeleteTOTPSecret :: "string \<Rightarrow> ('s, unit) op"

text \<open>Errors that come from the database layer itself.\<close>

definition driver_error :: go_error where
  "driver_error = Errorf ''database error''"

definition ErrTxDone :: go_error where
  "ErrTxDone = Sentinel ''sql: transaction has already been committed or rolled back''"

subsection \<open>Table relations of the operations that take several statements\<close>

definition get_or_create_spec :: "string \<Rightarrow> actor table_spec" where
  "get_or_create_spec actorID t a t' \<longleftrightarrow>
     find_actor actorID t = Some a \<and> t' = t \<or> insert_actor_spec actorID t a t'"

definition inserted_key_spec :: "public_key \<Rightarrow> public_key table_spec" where
  "inserted_key_spec k t k' t' \<longleftrightarrow>
     (\<exists>i now. insert_public_key_spec k t (i, now) t' \<and> k' = k\<lparr> pk_id := i, pk_created_at := now \<rparr>)"

definition inserted_aux_spec :: "auxiliary_data \<Rightarrow> auxiliary_data table_spec" where
  "inserted_aux_spec d t d' t' \<longleftrightarrow>
     (\<exists>i now. insert_aux_data_spec d t (i, now) t' \<and> d' = d\<lparr> ad_id := i, ad_created_at := now \<rparr>)"

text \<open>The struct with only its ID read, as \<^verbatim>\<open>SELECT pk.id\<close> fills it.\<close>

definition key_with_id :: "nat \<Rightarrow> public_key" where
  "key_with_id i =
     \<lparr> pk_id = i, pk_actor_id = 0, pk_key_id = [], pk_public_key = [], pk_created_at = 0,
       pk_merkle_root = [], pk_revoked_at = None, pk_revoke_root = None, pk_inclusion_proof = [] \<rparr>"

definition key_matches :: "string \<Rightarrow> string \<Rightarrow> tables \<Rightarrow> public_key \<Rightarrow> bool" where
  "key_matches actorID publicKey t k \<longleftrightarrow>
     owned_by actorID t (pk_actor_id k) \<and> pk_public_key k = publicKey \<and> pk_revoked_at k = None"

definition key_to_revoke :: "string \<Rightarrow> string \<Rightarrow> tables \<Rightarrow> public_key option" where
  "key_to_revoke actorID publicKey t =
     map_option (\<lambda>k. key_with_id (pk_id k)) (find (key_matches actorID publicKey t) (public_keys t))"

text \<open>Any matching row may be the one found; there is none only if none matches.\<close>

definition key_to_revoke_spec :: "string \<Rightarrow> string \<Rightarrow> public_key option table_spec" where
  "key_to_revoke_spec actorID publicKey t r t' \<longleftrightarrow>
     t' = t \<and>
     (case r of
        None \<Rightarrow> \<forall>k \<in> set (public_keys t). \<not> key_matches actorID publicKey t k
      | Some f \<Rightarrow> \<exists>k \<in> set (public_keys t). key_matches actorID publicKey t k \<and> pk_id f = pk_id k)"

text \<open>The rows written for a message's symmetric keys.\<close>

definition sym_rows :: "string \<Rightarrow> (string \<times> bytes) list \<Rightarrow> symmetric_key list \<Rightarrow> bool" where
  "sym_rows hash keys rows \<longleftrightarrow>
     map (\<lambda>s. (sk_message_hash s, sk_attribute s, sk_key s)) rows = map (\<lambda>(a, k). (hash, a, k)) keys"

definition store_symmetric_keys_spec :: "string \<Rightarrow> (string \<times> bytes) list \<Rightarrow> unit table_spec" where
  "store_symmetric_keys_spec hash keys t u t' \<longleftrightarrow>
     (\<exists>rows. sym_rows hash keys rows \<and> t' = t\<lparr> symmetric_keys := symmetric_keys t @ rows \<rparr>)"

definition set_fireproof_op_spec :: "string \<Rightarrow> bool \<Rightarrow> unit table_spec" where
  "set_fireproof_op_spec actorID b t u t' \<longleftrightarrow>
     find_actor actorID t \<noteq> None \<and> (\<exists>now. t' = set_fireproof now actorID b t)"

definition actor_fireproof :: "string \<Rightarrow> tables \<Rightarrow> bool" where
  "actor_fireproof actorID t = (case find_actor actorID t of None \<Rightarrow> False | Some a \<Rightarrow> a_is_fireproof a)"

definition latest_root :: "tables \<Rightarrow> string" where
  "latest_root t = (case latest_key (public_keys t) of None \<Rightarrow> [] | Some k \<Rightarrow> pk_merkle_root k)"

definition key_by_id :: "string \<Rightarrow> tables \<Rightarrow> public_key option" where
  "key_by_id keyID t = find (\<lambda>k. pk_key_id k = keyID) (public_keys t)"

definition aux_by_id :: "string \<Rightarrow> tables \<Rightarrow> auxiliary_data option" where
  "aux_by_id auxID t = find (\<lambda>d. ad_aux_id d = auxID) (auxiliary_data_rows t)"

definition totp_of :: "string \<Rightarrow> tables \<Rightarrow> bytes option" where
  "totp_of inst t =
     map_option ts_encrypted_secret (find (\<lambda>x. ts_instance x = inst) (totp_secrets t))"

definition message_stored :: "string \<Rightarrow> string \<Rightarrow> protocol_message \<Rightarrow> unit table_spec" where
  "message_stored hash raw msg t u t' \<longleftrightarrow>
     (\<exists>decrypted. marshal_protocol msg = Inr decrypted \<and> insert_message_log_spec hash raw decrypted t u t')"

definition totp_deleted :: "string \<Rightarrow> unit table_spec" where
  "totp_deleted inst t u t' \<longleftrightarrow> (\<exists>n. n \<noteq> 0 \<and> delete_totp_spec inst t n t')"

subsection \<open>Operations that keep the contract\<close>

text \<open>
  \<open>tx_ok\<close>: inside a transaction. \<open>conn_ok\<close>: outside, on the committed tables.
\<close>

definition tx_ok ::
  "('s \<Rightarrow> bool) \<Rightarrow> ('s \<Rightarrow> tables) \<Rightarrow> ('s \<Rightarrow> tables option) \<Rightarrow> 'a table_spec \<Rightarrow> ('s, 'a) op \<Rightarrow> bool" where
  "tx_ok good committed pending P f \<longleftrightarrow>
     (\<forall>s t. good s \<longrightarrow> pending s = Some t \<longrightarrow>
        (case f s of (r, s') \<Rightarrow>
           good s' \<and> committed s' = committed s \<and>
           (case r of Inl _ \<Rightarrow> pending s' \<noteq> None | Inr x \<Rightarrow> \<exists>t'. pending s' = Some t' \<and> P t x t')))"

definition conn_ok ::
  "('s \<Rightarrow> bool) \<Rightarrow> ('s \<Rightarrow> tables) \<Rightarrow> ('s \<Rightarrow> tables option) \<Rightarrow> 'a table_spec \<Rightarrow> ('s, 'a) op \<Rightarrow> bool" where
  "conn_ok good committed pending P f \<longleftrightarrow>
     (\<forall>s. good s \<longrightarrow> pending s = None \<longrightarrow>
        (case f s of (r, s') \<Rightarrow>
           good s' \<and> pending s' = None \<and>
           (case r of Inl _ \<Rightarrow> committed s' = committed s | Inr x \<Rightarrow> P (committed s) x (committed s'))))"

lemma tx_okI:
  assumes "\<And>s t r s'. good s \<Longrightarrow> pending s = Some t \<Longrightarrow> f s = (r, s') \<Longrightarrow>
    good s' \<and> committed s' = committed s \<and>
    (case r of Inl _ \<Rightarrow> pending s' \<noteq> None | Inr x \<Rightarrow> \<exists>t'. pending s' = Some t' \<and> P t x t')"
  shows "tx_ok good committed pending P f"
  unfolding tx_ok_def
proof (intro allI impI)
  fix s t
  assume a: "good s" "pending s = Some t"
  obtain r s' where e: "f s = (r, s')" by (cases "f s")
  from assms [OF a e] e
  show "case f s of (r, s') \<Rightarrow> good s' \<and> committed s' = committed s \<and>
      (case r of Inl _ \<Rightarrow> pending s' \<noteq> None | Inr x \<Rightarrow> \<exists>t'. pending s' = Some t' \<and> P t x t')"
    by simp
qed

lemma tx_okD:
  assumes "tx_ok good committed pending P f" "good s" "pending s = Some t" "f s = (r, s')"
  shows "good s' \<and> committed s' = committed s \<and>
    (case r of Inl _ \<Rightarrow> pending s' \<noteq> None | Inr x \<Rightarrow> \<exists>t'. pending s' = Some t' \<and> P t x t')"
  using assms(1) [unfolded tx_ok_def, rule_format, OF assms(2,3)] assms(4) by simp

lemma conn_okI:
  assumes "\<And>s r s'. good s \<Longrightarrow> pending s = None \<Longrightarrow> f s = (r, s') \<Longrightarrow>
    good s' \<and> pending s' = None \<and>
    (case r of Inl _ \<Rightarrow> committed s' = committed s | Inr x \<Rightarrow> P (committed s) x (committed s'))"
  shows "conn_ok good committed pending P f"
  unfolding conn_ok_def
proof (intro allI impI)
  fix s
  assume a: "good s" "pending s = None"
  obtain r s' where e: "f s = (r, s')" by (cases "f s")
  from assms [OF a e] e
  show "case f s of (r, s') \<Rightarrow> good s' \<and> pending s' = None \<and>
      (case r of Inl _ \<Rightarrow> committed s' = committed s | Inr x \<Rightarrow> P (committed s) x (committed s'))"
    by simp
qed

lemma conn_okD:
  assumes "conn_ok good committed pending P f" "good s" "pending s = None" "f s = (r, s')"
  shows "good s' \<and> pending s' = None \<and>
    (case r of Inl _ \<Rightarrow> committed s' = committed s | Inr x \<Rightarrow> P (committed s) x (committed s'))"
  using assms(1) [unfolded conn_ok_def, rule_format, OF assms(2,3)] assms(4) by simp

lemma tx_ok_weaken:
  "tx_ok good committed pending P f \<Longrightarrow> (\<And>t x t'. P t x t' \<Longrightarrow> Q t x t') \<Longrightarrow>
   tx_ok good committed pending Q f"
  by (rule tx_okI, drule (3) tx_okD) (auto split: sum.splits)

lemma conn_ok_weaken:
  "conn_ok good committed pending P f \<Longrightarrow> (\<And>t x t'. P t x t' \<Longrightarrow> Q t x t') \<Longrightarrow>
   conn_ok good committed pending Q f"
  by (rule conn_okI, drule (3) conn_okD) (auto split: sum.splits)

lemma tx_ok_wrapping: "tx_ok good committed pending P f \<Longrightarrow> tx_ok good committed pending P (wrapping msg f)"
  by (rule tx_okI) (fastforce simp: wrapping_def wrap_error_def dest: tx_okD split: prod.splits sum.splits)

lemma conn_ok_wrapping:
  "conn_ok good committed pending P f \<Longrightarrow> conn_ok good committed pending P (wrapping msg f)"
  by (rule conn_okI) (fastforce simp: wrapping_def wrap_error_def dest: conn_okD split: prod.splits sum.splits)

lemma tx_ok_return: "tx_ok good committed pending (\<lambda>t y t'. y = x \<and> t' = t) (return_op x)"
  by (rule tx_okI) (auto simp: return_op_def)

lemma tx_ok_fail: "tx_ok good committed pending P (fail_op e)"
  by (rule tx_okI) (auto simp: fail_op_def)

lemma tx_ok_lift: "tx_ok good committed pending (\<lambda>t y t'. r = Inr y \<and> t' = t) (lift_op r)"
  by (rule tx_okI) (auto simp: lift_op_def split: sum.splits)

lemma tx_ok_bind:
  assumes f: "tx_ok good committed pending P f" and g: "\<And>x. tx_ok good committed pending (Q x) (g x)"
  shows "tx_ok good committed pending (\<lambda>t y t''. \<exists>x t'. P t x t' \<and> Q x t' y t'') (bind_op f g)"
proof (rule tx_okI)
  fix s t r s''
  assume a: "good s" "pending s = Some t" and e: "bind_op f g s = (r, s'')"
  obtain r1 s1 where f1: "f s = (r1, s1)" by (cases "f s")
  note l1 = tx_okD [OF f a f1]
  show "good s'' \<and> committed s'' = committed s \<and>
    (case r of Inl _ \<Rightarrow> pending s'' \<noteq> None
     | Inr y \<Rightarrow> \<exists>t''. pending s'' = Some t'' \<and> (\<exists>x t'. P t x t' \<and> Q x t' y t''))"
  proof (cases r1)
    case (Inl err)
    with e f1 l1 show ?thesis by (auto simp: bind_op_def)
  next
    case (Inr x)
    with l1 obtain t' where t': "good s1" "committed s1 = committed s" "pending s1 = Some t'" "P t x t'"
      by auto
    from e f1 Inr have g1: "g x s1 = (r, s'')" by (simp add: bind_op_def)
    from tx_okD [OF g t'(1,3) g1] t'(2,4) show ?thesis
      by (auto split: sum.splits)
  qed
qed

lemma tx_ok_closing:
  assumes f: "tx_ok good committed pending P f" and c: "tx_ok good committed pending (query_spec g) c"
  shows "tx_ok good committed pending P (closing msg c f)"
proof (rule tx_okI)
  fix s t r s2
  assume a: "good s" "pending s = Some t" and e: "closing msg c f s = (r, s2)"
  obtain r1 s1 where f1: "f s = (r1, s1)" by (cases "f s")
  note l1 = tx_okD [OF f a f1]
  then obtain t1 where t1: "good s1" "committed s1 = committed s" "pending s1 = Some t1"
    by (auto split: sum.splits)
  obtain rc s3 where c1: "c s1 = (rc, s3)" by (cases "c s1")
  note l2 = tx_okD [OF c t1(1,3) c1]
  from e f1 c1 l1 l2 t1 show "good s2 \<and> committed s2 = committed s \<and>
      (case r of Inl _ \<Rightarrow> pending s2 \<noteq> None | Inr x \<Rightarrow> \<exists>t'. pending s2 = Some t' \<and> P t x t')"
    by (auto simp: closing_def query_spec_def wrap_error_def split: sum.splits)
qed

lemma conn_ok_require:
  assumes f: "conn_ok good committed pending P f" and bad: "\<And>t x t'. P t x t' \<Longrightarrow> bad x \<Longrightarrow> t' = t"
  shows "conn_ok good committed pending (\<lambda>t y t'. \<exists>x. P t x t' \<and> \<not> bad x)
    (bind_op f (\<lambda>x. if bad x then fail_op e else return_op ()))"
proof (rule conn_okI)
  fix s r s'
  assume a: "good s" "pending s = None"
    and e: "bind_op f (\<lambda>x. if bad x then fail_op e else return_op ()) s = (r, s')"
  obtain r1 s1 where f1: "f s = (r1, s1)" by (cases "f s")
  from conn_okD [OF f a f1] e f1 bad show "good s' \<and> pending s' = None \<and>
      (case r of Inl _ \<Rightarrow> committed s' = committed s
       | Inr y \<Rightarrow> \<exists>x. P (committed s) x (committed s') \<and> \<not> bad x)"
    by (auto simp: op_defs split: sum.splits if_splits)
qed

lemma store_each_ok:
  assumes "\<And>a k. tx_ok good committed pending (insert_symmetric_key_spec hash a k) (f (a, k))"
  shows "tx_ok good committed pending (store_symmetric_keys_spec hash keys) (each_op f keys)"
proof (induction keys)
  case Nil
  show ?case
    by (simp, rule tx_ok_weaken, rule tx_ok_return)
      (auto simp: store_symmetric_keys_spec_def sym_rows_def)
next
  case (Cons p keys)
  obtain a k where p: "p = (a, k)" by (cases p)
  show ?case
    unfolding p each_op.simps
    by (rule tx_ok_weaken, rule tx_ok_bind, rule assms, rule Cons.IH)
      (force simp: store_symmetric_keys_spec_def sym_rows_def insert_symmetric_key_spec_def)
qed

text \<open>What an affected-row count of zero, and a lookup, say about the tables.\<close>

lemma set_fireproof_absent: "find_actor actorID t = None \<Longrightarrow> set_fireproof now actorID b t = t"
proof -
  assume "find_actor actorID t = None"
  then have "update_where (\<lambda>a. a_actor_id a = actorID) f (actors t) = actors t" for f
    by (intro update_where_id) (auto simp: find_actor_None)
  then show ?thesis by (simp add: set_fireproof_def)
qed

lemma set_fireproof_rows:
  assumes "set_fireproof_spec actorID b t n t'"
  shows "n = 0 \<Longrightarrow> t' = t" "n \<noteq> 0 \<Longrightarrow> set_fireproof_op_spec actorID b t () t'"
  using assms
  by (auto simp: set_fireproof_spec_def set_fireproof_op_spec_def set_fireproof_absent)

lemma delete_totp_rows: "delete_totp_spec i t 0 t' \<Longrightarrow> t' = t"
  by (auto simp: delete_totp_spec_def image_iff intro!: tables.equality filter_True)

lemma key_to_revoke_found:
  "query_spec (key_to_revoke actorID publicKey) t r t' \<Longrightarrow> key_to_revoke_spec actorID publicKey t r t'"
  by (auto simp: query_spec_def key_to_revoke_def key_to_revoke_spec_def find_None_iff key_with_id_def
      dest: find_Some_D split: option.splits)

subsection \<open>The contract\<close>

locale repository =
  fixes R :: "'s repo"
    and good :: "'s \<Rightarrow> bool"
    and committed :: "'s \<Rightarrow> tables"
    and pending :: "'s \<Rightarrow> tables option"
  assumes good_wf: "good s \<Longrightarrow> wf_tables (committed s)"
    and begin_tx: "good s \<Longrightarrow> pending s = None \<Longrightarrow> BeginTx R s = (r, s') \<Longrightarrow>
      good s' \<and> committed s' = committed s \<and>
      (case r of Inl _ \<Rightarrow> pending s' = None | Inr _ \<Rightarrow> pending s' = Some (committed s))"
    and commit: "good s \<Longrightarrow> pending s = Some t \<Longrightarrow> Commit R s = (r, s') \<Longrightarrow>
      good s' \<and> pending s' = None \<and>
      (case r of Inl _ \<Rightarrow> committed s' = committed s | Inr _ \<Rightarrow> committed s' = t)"
    and rollback: "good s \<Longrightarrow> Rollback R s = (r, s') \<Longrightarrow>
      good s' \<and> pending s' = None \<and> committed s' = committed s"
    and get_or_create: "tx_ok good committed pending (get_or_create_spec actorID) (GetOrCreateActor R actorID)"
    and tx_find_actor: "tx_ok good committed pending (query_spec (find_actor actorID)) (TxFindActorByActorID R actorID)"
    and actor_exists: "tx_ok good committed pending (query_spec (\<lambda>t. find_actor actorID t \<noteq> None)) (ActorExists R actorID)"
    and update_actor_id: "tx_ok good committed pending (update_actor_id_spec old new) (UpdateActorID R old new)"
    and insert_public_key: "tx_ok good committed pending (inserted_key_spec k) (InsertPublicKey R k)"
    and find_key_to_revoke: "tx_ok good committed pending (key_to_revoke_spec actorID publicKey) (FindKeyToRevoke R actorID publicKey)"
    and revoke_key: "tx_ok good committed pending (revoke_key_spec i root) (RevokeKey R i root)"
    and get_message_hashes: "tx_ok good committed pending (\<lambda>t hs t'. t' = t \<and> set hs = set (key_roots i t)) (GetMessageHashesForActor R i)"
    and revoke_all_keys: "tx_ok good committed pending (revoke_all_keys_spec i root) (RevokeAllKeysForActor R i root)"
    and insert_aux_data: "tx_ok good committed pending (inserted_aux_spec d) (InsertAuxData R d)"
    and revoke_aux_data: "tx_ok good committed pending (revoke_aux_spec actorID auxID root) (RevokeAuxData R actorID auxID root)"
    and store_symmetric_keys: "tx_ok good committed pending (store_symmetric_keys_spec hash keys) (StoreSymmetricKeys R hash keys)"
    and delete_symmetric_keys: "tx_ok good committed pending (delete_symmetric_keys_spec hashes) (DeleteSymmetricKeysByHashes R hashes)"
    and find_actor_by_actor_id: "conn_ok good committed pending (query_spec (find_actor actorID)) (FindActorByActorID R actorID)"
    and is_fireproof: "conn_ok good committed pending (query_spec (actor_fireproof actorID)) (IsFireproof R actorID)"
    and set_fireproof_op: "conn_ok good committed pending (set_fireproof_op_spec actorID b) (SetFireproof R actorID b)"
    and list_keys: "conn_ok good committed pending (query_spec (active_keys actorID)) (ListKeysForActor R actorID)"
    and find_key_by_key_id: "conn_ok good committed pending (query_spec (key_by_id keyID)) (FindKeyByKeyID R keyID)"
    and list_aux: "conn_ok good committed pending (query_spec (active_aux actorID)) (ListAuxDataForActor R actorID)"
    and find_aux_by_aux_id: "conn_ok good committed pending (query_spec (aux_by_id auxID)) (FindAuxDataByAuxID R auxID)"
    and find_symmetric_keys: "conn_ok good committed pending (query_spec (symmetric_keys_of hash)) (FindSymmetricKeysByMessageHash R hash)"
    and store_message: "conn_ok good committed pending (message_stored hash raw msg) (StoreMessage R hash raw msg)"
    and get_latest_root: "conn_ok good committed pending (query_spec latest_root) (GetLatestMerkleRoot R)"
    and store_totp: "conn_ok good committed pending (upsert_totp_spec inst secret) (StoreTOTPSecret R inst secret)"
    and get_totp: "conn_ok good committed pending (query_spec (totp_of inst)) (GetTOTPSecret R inst)"
    and delete_totp: "conn_ok good committed pending (totp_deleted inst) (DeleteTOTPSecret R inst)"

end
