(* ===== verification/SQLite.thy ===== *)
theory SQLite
  imports Repo
begin

section \<open>The SQLite back end\<close>

text \<open>
  \<^verbatim>\<open>internal/db/sqlite.go\<close>. A handle holds the committed tables and sequences, and the
  working copy of the open transaction. Outside a transaction each statement commits by itself;
  a statement that fails leaves no trace, its sequence numbers included. The driver may
  refuse any statement or commit: \<open>sqlite_faults\<close> tells, for each call to come, whether it is
  refused and how many seconds have passed since the last (no entry: it runs at once).

  Rows come back in the order they were inserted, and the most recent key among those of the
  same second is the one inserted last; SQL leaves both open. The drivers' \<^verbatim>\<open>RowsAffected\<close>
  returns no error.
\<close>

record sqlite_db =
  sqlite_tables :: tables
  sqlite_seq :: sequences
  sqlite_tx :: "(tables \<times> sequences) option"
  sqlite_clock :: nat
  sqlite_faults :: "(bool \<times> nat) list"

definition sqlite_open :: sqlite_db where
  "sqlite_open =
     \<lparr> sqlite_tables = empty_tables, sqlite_seq = zero_sequences, sqlite_tx = None, sqlite_clock = 0,
       sqlite_faults = [] \<rparr>"

definition sqlite_committed :: "sqlite_db \<Rightarrow> tables" where
  "sqlite_committed s = sqlite_tables s"

definition sqlite_pending :: "sqlite_db \<Rightarrow> tables option" where
  "sqlite_pending s = map_option fst (sqlite_tx s)"

definition sqlite_good :: "sqlite_db \<Rightarrow> bool" where
  "sqlite_good s \<longleftrightarrow>
     wf_tables (sqlite_tables s) \<and> numbered (sqlite_tables s) (sqlite_seq s) \<and>
     (case sqlite_tx s of None \<Rightarrow> True | Some (t, q) \<Rightarrow> wf_tables t \<and> numbered t q)"

lemma sqlite_good_open [simp]: "sqlite_good sqlite_open"
  by (simp add: sqlite_good_def sqlite_open_def)

definition sqlite_tick :: "sqlite_db \<Rightarrow> bool \<times> sqlite_db" where
  "sqlite_tick s =
     (case sqlite_faults s of
        [] \<Rightarrow> (False, s)
      | (fails, elapsed) # fs \<Rightarrow>
          (fails, s\<lparr> sqlite_clock := sqlite_clock s + elapsed, sqlite_faults := fs \<rparr>))"

definition sqlite_exec :: "'a stmt \<Rightarrow> (sqlite_db, 'a) op" where
  "sqlite_exec st s =
     (case sqlite_tick s of (fails, s1) \<Rightarrow>
        if fails then (Inl driver_error, s1)
        else case st (sqlite_clock s1) (sqlite_tables s1) (sqlite_seq s1) of
               (Inl e, _, _) \<Rightarrow> (Inl e, s1)
             | (Inr x, t, q) \<Rightarrow> (Inr x, s1\<lparr> sqlite_tables := t, sqlite_seq := q \<rparr>))"

definition sqlite_tx_exec :: "'a stmt \<Rightarrow> (sqlite_db, 'a) op" where
  "sqlite_tx_exec st s =
     (case sqlite_tx s of
        None \<Rightarrow> (Inl ErrTxDone, s)
      | Some (t, q) \<Rightarrow>
          (case sqlite_tick s of (fails, s1) \<Rightarrow>
             if fails then (Inl driver_error, s1)
             else case st (sqlite_clock s1) t q of
                    (Inl e, _, _) \<Rightarrow> (Inl e, s1)
                  | (Inr x, t', q') \<Rightarrow> (Inr x, s1\<lparr> sqlite_tx := Some (t', q') \<rparr>)))"

subsection \<open>Transactions\<close>

definition sqlite_BeginTx :: "(sqlite_db, unit) op" where
  "sqlite_BeginTx =
     wrapping ''failed to begin transaction''
       (\<lambda>s. case sqlite_tick s of (fails, s1) \<Rightarrow>
          if fails then (Inl driver_error, s1)
          else (Inr (), s1\<lparr> sqlite_tx := Some (sqlite_tables s1, sqlite_seq s1) \<rparr>))"

text \<open>A transaction is over after \<^verbatim>\<open>Commit\<close>, whether the commit went through or not.\<close>

definition sqlite_Commit :: "(sqlite_db, unit) op" where
  "sqlite_Commit s =
     (case sqlite_tx s of
        None \<Rightarrow> (Inl ErrTxDone, s)
      | Some (t, q) \<Rightarrow>
          (case sqlite_tick s of (fails, s1) \<Rightarrow>
             if fails then (Inl driver_error, s1\<lparr> sqlite_tx := None \<rparr>)
             else (Inr (), s1\<lparr> sqlite_tables := t, sqlite_seq := q, sqlite_tx := None \<rparr>)))"

definition sqlite_Rollback :: "(sqlite_db, unit) op" where
  "sqlite_Rollback s =
     (case sqlite_tx s of
        None \<Rightarrow> (Inl ErrTxDone, s)
      | Some _ \<Rightarrow> (Inr (), s\<lparr> sqlite_tx := None \<rparr>))"

subsection \<open>Operations outside a transaction\<close>

definition sqlite_FindActorByActorID :: "string \<Rightarrow> (sqlite_db, actor option) op" where
  "sqlite_FindActorByActorID actorID =
     wrapping (''failed to find actor by actor_id '' @ actorID) (sqlite_exec (query (find_actor actorID)))"

definition sqlite_IsFireproof :: "string \<Rightarrow> (sqlite_db, bool) op" where
  "sqlite_IsFireproof actorID =
     wrapping (''failed to check fireproof status for actor '' @ actorID)
       (sqlite_exec (query (actor_fireproof actorID)))"

definition sqlite_SetFireproof :: "string \<Rightarrow> bool \<Rightarrow> (sqlite_db, unit) op" where
  "sqlite_SetFireproof actorID isFireproof =
     bind_op (wrapping (''failed to set fireproof status for actor '' @ actorID)
                (sqlite_exec (stmt_set_fireproof actorID isFireproof)))
       (\<lambda>rowsAffected.
          if rowsAffected = 0 then fail_op (Errorf (''actor not found: '' @ actorID)) else return_op ())"

definition sqlite_GetLatestMerkleRoot :: "(sqlite_db, string) op" where
  "sqlite_GetLatestMerkleRoot = wrapping ''failed to get latest merkle root'' (sqlite_exec (query latest_root))"

definition sqlite_ListKeysForActor :: "string \<Rightarrow> (sqlite_db, public_key list) op" where
  "sqlite_ListKeysForActor actorID =
     wrapping (''failed to list keys for actor '' @ actorID) (sqlite_exec (query (active_keys actorID)))"

definition sqlite_FindKeyByKeyID :: "string \<Rightarrow> (sqlite_db, public_key option) op" where
  "sqlite_FindKeyByKeyID keyID =
     wrapping (''failed to find key by key_id '' @ keyID) (sqlite_exec (query (key_by_id keyID)))"

definition sqlite_ListAuxDataForActor :: "string \<Rightarrow> (sqlite_db, auxiliary_data list) op" where
  "sqlite_ListAuxDataForActor actorID =
     wrapping (''failed to list auxiliary data for actor '' @ actorID)
       (sqlite_exec (query (active_aux actorID)))"

definition sqlite_FindAuxDataByAuxID :: "string \<Rightarrow> (sqlite_db, auxiliary_data option) op" where
  "sqlite_FindAuxDataByAuxID auxID =
     wrapping (''failed to find auxiliary data by aux_id '' @ auxID) (sqlite_exec (query (aux_by_id auxID)))"

definition sqlite_FindSymmetricKeysByMessageHash :: "string \<Rightarrow> (sqlite_db, symmetric_key list) op" where
  "sqlite_FindSymmetricKeysByMessageHash messageHash =
     wrapping (''failed to find symmetric keys by message hash '' @ messageHash)
       (sqlite_exec (query (symmetric_keys_of messageHash)))"

definition sqlite_StoreMessage :: "string \<Rightarrow> string \<Rightarrow> protocol_message \<Rightarrow> (sqlite_db, unit) op" where
  "sqlite_StoreMessage hash rawMessage decryptedMessage =
     bind_op (wrapping ''failed to marshal decrypted message to JSON''
                (lift_op (marshal_protocol decryptedMessage)))
       (\<lambda>decryptedJSON. wrapping ''failed to insert message log''
          (sqlite_exec (stmt_insert_message_log hash rawMessage decryptedJSON)))"

definition sqlite_StoreTOTPSecret :: "string \<Rightarrow> bytes \<Rightarrow> (sqlite_db, unit) op" where
  "sqlite_StoreTOTPSecret inst encryptedSecret =
     wrapping (''failed to store TOTP secret for instance '' @ inst)
       (sqlite_exec (stmt_upsert_totp inst encryptedSecret))"

definition sqlite_GetTOTPSecret :: "string \<Rightarrow> (sqlite_db, bytes option) op" where
  "sqlite_GetTOTPSecret inst =
     wrapping (''failed to get TOTP secret for instance '' @ inst) (sqlite_exec (query (totp_of inst)))"

definition sqlite_DeleteTOTPSecret :: "string \<Rightarrow> (sqlite_db, unit) op" where
  "sqlite_DeleteTOTPSecret inst =
     bind_op (wrapping (''failed to delete TOTP secret for instance '' @ inst)
                (sqlite_exec (stmt_delete_totp inst)))
       (\<lambda>rowsAffected.
          if rowsAffected = 0
          then fail_op (Errorf (''TOTP secret for instance '' @ inst @ '' not found''))
          else return_op ())"

subsection \<open>Operations of the transaction\<close>

definition sqlite_GetOrCreateActor :: "string \<Rightarrow> (sqlite_db, actor) op" where
  "sqlite_GetOrCreateActor actorID =
     bind_op (wrapping (''failed to find actor '' @ actorID) (sqlite_tx_exec (query (find_actor actorID))))
       (\<lambda>found. case found of
          Some a \<Rightarrow> return_op a
        | None \<Rightarrow> wrapping (''failed to create actor '' @ actorID)
                    (sqlite_tx_exec (stmt_insert_actor actorID)))"

definition sqlite_TxFindActorByActorID :: "string \<Rightarrow> (sqlite_db, actor option) op" where
  "sqlite_TxFindActorByActorID actorID =
     wrapping (''failed to find actor by actor_id '' @ actorID)
       (sqlite_tx_exec (query (find_actor actorID)))"

definition sqlite_ActorExists :: "string \<Rightarrow> (sqlite_db, bool) op" where
  "sqlite_ActorExists actorID =
     wrapping ''failed to check for existing actor ID''
       (sqlite_tx_exec (query (\<lambda>t. find_actor actorID t \<noteq> None)))"

definition sqlite_UpdateActorID :: "string \<Rightarrow> string \<Rightarrow> (sqlite_db, nat) op" where
  "sqlite_UpdateActorID oldActorID newActorID =
     wrapping (''failed to update actor ID from '' @ oldActorID @ '' to '' @ newActorID)
       (sqlite_tx_exec (stmt_update_actor_id oldActorID newActorID))"

definition sqlite_InsertPublicKey :: "public_key \<Rightarrow> (sqlite_db, public_key) op" where
  "sqlite_InsertPublicKey key =
     bind_op (wrapping ''failed to insert new public key'' (sqlite_tx_exec (stmt_insert_public_key key)))
       (\<lambda>(i, createdAt). return_op (key\<lparr> pk_id := i, pk_created_at := createdAt \<rparr>))"

definition sqlite_FindKeyToRevoke :: "string \<Rightarrow> string \<Rightarrow> (sqlite_db, public_key option) op" where
  "sqlite_FindKeyToRevoke actorID publicKey =
     wrapping ''failed to find key to revoke'' (sqlite_tx_exec (query (key_to_revoke actorID publicKey)))"

definition sqlite_RevokeKey :: "nat \<Rightarrow> string \<Rightarrow> (sqlite_db, unit) op" where
  "sqlite_RevokeKey keyID revokeRoot =
     wrapping ''failed to execute revoke key query'' (sqlite_tx_exec (stmt_revoke_key keyID revokeRoot))"

definition sqlite_GetMessageHashesForActor :: "nat \<Rightarrow> (sqlite_db, string list) op" where
  "sqlite_GetMessageHashesForActor actorID =
     wrapping (''failed to gather message hashes for actor '' @ decimal actorID)
       (sqlite_tx_exec (query (key_roots actorID)))"

definition sqlite_RevokeAllKeysForActor :: "nat \<Rightarrow> string \<Rightarrow> (sqlite_db, unit) op" where
  "sqlite_RevokeAllKeysForActor actorID merkleRoot =
     wrapping (''failed to revoke keys for actor '' @ decimal actorID)
       (sqlite_tx_exec (stmt_revoke_all_keys actorID merkleRoot))"

definition sqlite_InsertAuxData :: "auxiliary_data \<Rightarrow> (sqlite_db, auxiliary_data) op" where
  "sqlite_InsertAuxData aux =
     bind_op (wrapping ''failed to insert new auxiliary data'' (sqlite_tx_exec (stmt_insert_aux_data aux)))
       (\<lambda>(i, createdAt). return_op (aux\<lparr> ad_id := i, ad_created_at := createdAt \<rparr>))"

definition sqlite_RevokeAuxData :: "string \<Rightarrow> string \<Rightarrow> string \<Rightarrow> (sqlite_db, nat) op" where
  "sqlite_RevokeAuxData actorID auxID revokeRoot =
     wrapping ''failed to execute revoke auxiliary data query''
       (sqlite_tx_exec (stmt_revoke_aux_in actorID auxID revokeRoot))"

text \<open>Preparing the statement and closing it are round trips that can fail as well.\<close>

definition sqlite_StoreSymmetricKeys :: "string \<Rightarrow> (string \<times> bytes) list \<Rightarrow> (sqlite_db, unit) op" where
  "sqlite_StoreSymmetricKeys messageHash keys =
     bind_op (wrapping ''failed to prepare symmetric key statement'' (sqlite_tx_exec (query (\<lambda>_. ()))))
       (\<lambda>_. closing ''failed to close symmetric key statement'' (sqlite_tx_exec (query (\<lambda>_. ())))
          (each_op (\<lambda>(attribute, key).
              wrapping (''failed to insert symmetric key for attribute '' @ attribute)
                (sqlite_tx_exec (stmt_insert_symmetric_key messageHash attribute key))) keys))"

definition sqlite_DeleteSymmetricKeysByHashes :: "string list \<Rightarrow> (sqlite_db, unit) op" where
  "sqlite_DeleteSymmetricKeysByHashes hashes =
     (if hashes = [] then return_op ()
      else wrapping ''failed to delete symmetric keys'' (sqlite_tx_exec (stmt_delete_symmetric_keys hashes)))"

subsection \<open>The back end meets the contract\<close>

definition sqlite_repo :: "sqlite_db repo" where
  "sqlite_repo =
     \<lparr> BeginTx = sqlite_BeginTx, Commit = sqlite_Commit, Rollback = sqlite_Rollback,
       GetOrCreateActor = sqlite_GetOrCreateActor, TxFindActorByActorID = sqlite_TxFindActorByActorID,
       ActorExists = sqlite_ActorExists, UpdateActorID = sqlite_UpdateActorID,
       InsertPublicKey = sqlite_InsertPublicKey, FindKeyToRevoke = sqlite_FindKeyToRevoke,
       RevokeKey = sqlite_RevokeKey, GetMessageHashesForActor = sqlite_GetMessageHashesForActor,
       RevokeAllKeysForActor = sqlite_RevokeAllKeysForActor, InsertAuxData = sqlite_InsertAuxData,
       RevokeAuxData = sqlite_RevokeAuxData, StoreSymmetricKeys = sqlite_StoreSymmetricKeys,
       DeleteSymmetricKeysByHashes = sqlite_DeleteSymmetricKeysByHashes,
       FindActorByActorID = sqlite_FindActorByActorID, IsFireproof = sqlite_IsFireproof,
       SetFireproof = sqlite_SetFireproof, ListKeysForActor = sqlite_ListKeysForActor,
       FindKeyByKeyID = sqlite_FindKeyByKeyID, ListAuxDataForActor = sqlite_ListAuxDataForActor,
       FindAuxDataByAuxID = sqlite_FindAuxDataByAuxID,
       FindSymmetricKeysByMessageHash = sqlite_FindSymmetricKeysByMessageHash,
       StoreMessage = sqlite_StoreMessage, GetLatestMerkleRoot = sqlite_GetLatestMerkleRoot,
       StoreTOTPSecret = sqlite_StoreTOTPSecret, GetTOTPSecret = sqlite_GetTOTPSecret,
       DeleteTOTPSecret = sqlite_DeleteTOTPSecret \<rparr>"

lemmas sqlite_state_defs = sqlite_good_def sqlite_committed_def sqlite_pending_def

lemma sqlite_good_wf: "sqlite_good s \<Longrightarrow> wf_tables (sqlite_committed s)"
  by (simp add: sqlite_state_defs)

lemma sqlite_tick_frame:
  assumes "sqlite_tick s = (f, s')"
  shows "sqlite_tables s' = sqlite_tables s" "sqlite_seq s' = sqlite_seq s" "sqlite_tx s' = sqlite_tx s"
  using assms by (auto simp: sqlite_tick_def split: list.splits prod.splits)

lemma sqlite_exec_ok:
  assumes "stmt_ok P st"
  shows "conn_ok sqlite_good sqlite_committed sqlite_pending P (sqlite_exec st)"
proof (rule conn_okI)
  fix s r s'
  assume a: "sqlite_good s" "sqlite_pending s = None" "sqlite_exec st s = (r, s')"
  obtain f s1 where t: "sqlite_tick s = (f, s1)" by (cases "sqlite_tick s")
  obtain x t1 q1 where e: "st (sqlite_clock s1) (sqlite_tables s) (sqlite_seq s) = (x, t1, q1)"
    by (cases "st (sqlite_clock s1) (sqlite_tables s) (sqlite_seq s)")
  from a(1) have w: "wf_tables (sqlite_tables s)" "numbered (sqlite_tables s) (sqlite_seq s)"
    by (simp_all add: sqlite_good_def)
  note ok = stmt_okD [OF assms w e]
  from a t e ok(1,2,5) sqlite_tick_frame [OF t] show "sqlite_good s' \<and> sqlite_pending s' = None \<and>
      (case r of Inl _ \<Rightarrow> sqlite_committed s' = sqlite_committed s
       | Inr x \<Rightarrow> P (sqlite_committed s) x (sqlite_committed s'))"
    by (auto simp: sqlite_exec_def sqlite_state_defs split: if_splits sum.splits)
qed

lemma sqlite_tx_exec_ok:
  assumes "stmt_ok P st"
  shows "tx_ok sqlite_good sqlite_committed sqlite_pending P (sqlite_tx_exec st)"
proof (rule tx_okI)
  fix s t r s'
  assume a: "sqlite_good s" "sqlite_pending s = Some t" "sqlite_tx_exec st s = (r, s')"
  obtain q where q: "sqlite_tx s = Some (t, q)" using a(2) by (auto simp: sqlite_pending_def)
  obtain f s1 where k: "sqlite_tick s = (f, s1)" by (cases "sqlite_tick s")
  obtain x t1 q1 where e: "st (sqlite_clock s1) t q = (x, t1, q1)"
    by (cases "st (sqlite_clock s1) t q")
  from a(1) q have w: "wf_tables t" "numbered t q" by (simp_all add: sqlite_good_def)
  note ok = stmt_okD [OF assms w e]
  from a q k e ok(1,2,5) sqlite_tick_frame [OF k]
  show "sqlite_good s' \<and> sqlite_committed s' = sqlite_committed s \<and>
      (case r of Inl _ \<Rightarrow> sqlite_pending s' \<noteq> None
       | Inr x \<Rightarrow> \<exists>t'. sqlite_pending s' = Some t' \<and> P t x t')"
    by (auto simp: sqlite_tx_exec_def sqlite_state_defs split: if_splits sum.splits)
qed

lemma sqlite_begin:
  assumes "sqlite_good s" "sqlite_pending s = None" "sqlite_BeginTx s = (r, s')"
  shows "sqlite_good s' \<and> sqlite_committed s' = sqlite_committed s \<and>
    (case r of Inl _ \<Rightarrow> sqlite_pending s' = None | Inr _ \<Rightarrow> sqlite_pending s' = Some (sqlite_committed s))"
proof -
  obtain f s1 where k: "sqlite_tick s = (f, s1)" by (cases "sqlite_tick s")
  from assms k sqlite_tick_frame [OF k] show ?thesis
    by (auto simp: sqlite_BeginTx_def wrapping_def sqlite_state_defs split: if_splits)
qed

lemma sqlite_commit:
  assumes "sqlite_good s" "sqlite_pending s = Some t" "sqlite_Commit s = (r, s')"
  shows "sqlite_good s' \<and> sqlite_pending s' = None \<and>
    (case r of Inl _ \<Rightarrow> sqlite_committed s' = sqlite_committed s | Inr _ \<Rightarrow> sqlite_committed s' = t)"
proof -
  obtain f s1 where k: "sqlite_tick s = (f, s1)" by (cases "sqlite_tick s")
  from assms k sqlite_tick_frame [OF k] show ?thesis
    by (auto simp: sqlite_Commit_def sqlite_state_defs split: if_splits)
qed

lemma sqlite_rollback:
  assumes "sqlite_good s" "sqlite_Rollback s = (r, s')"
  shows "sqlite_good s' \<and> sqlite_pending s' = None \<and> sqlite_committed s' = sqlite_committed s"
  using assms by (auto simp: sqlite_Rollback_def sqlite_state_defs split: option.splits)

lemma sqlite_roots:
  "tx_ok sqlite_good sqlite_committed sqlite_pending (\<lambda>t hs t'. t' = t \<and> set hs = set (key_roots i t))
     (wrapping msg (sqlite_tx_exec (query (key_roots i))))"
  by (rule tx_ok_weaken [OF tx_ok_wrapping [OF sqlite_tx_exec_ok [OF query_ok]]]) (simp add: query_spec_def)

lemmas sqlite_tx = tx_ok_wrapping [OF sqlite_tx_exec_ok]
lemmas sqlite_conn = conn_ok_wrapping [OF sqlite_exec_ok]

lemmas sqlite_ops_defs =
  sqlite_GetOrCreateActor_def sqlite_TxFindActorByActorID_def sqlite_ActorExists_def sqlite_UpdateActorID_def
  sqlite_InsertPublicKey_def sqlite_FindKeyToRevoke_def sqlite_RevokeKey_def sqlite_GetMessageHashesForActor_def
  sqlite_RevokeAllKeysForActor_def sqlite_InsertAuxData_def sqlite_RevokeAuxData_def
  sqlite_StoreSymmetricKeys_def sqlite_DeleteSymmetricKeysByHashes_def sqlite_FindActorByActorID_def
  sqlite_IsFireproof_def sqlite_SetFireproof_def sqlite_ListKeysForActor_def sqlite_FindKeyByKeyID_def
  sqlite_ListAuxDataForActor_def sqlite_FindAuxDataByAuxID_def sqlite_FindSymmetricKeysByMessageHash_def
  sqlite_StoreMessage_def sqlite_GetLatestMerkleRoot_def sqlite_StoreTOTPSecret_def sqlite_GetTOTPSecret_def
  sqlite_DeleteTOTPSecret_def

lemma sqlite_get_or_create:
  "tx_ok sqlite_good sqlite_committed sqlite_pending (get_or_create_spec actorID) (sqlite_GetOrCreateActor actorID)"
  unfolding sqlite_ops_defs
proof (rule tx_ok_weaken [OF tx_ok_bind [OF sqlite_tx [OF query_ok]]])
  show "tx_ok sqlite_good sqlite_committed sqlite_pending
      (case x of Some b \<Rightarrow> \<lambda>t a t'. a = b \<and> t' = t | None \<Rightarrow> insert_actor_spec actorID)
      (case x of None \<Rightarrow> wrapping (''failed to create actor '' @ actorID)
          (sqlite_tx_exec (stmt_insert_actor actorID)) | Some a \<Rightarrow> return_op a)" for x
    by (cases x) (simp_all add: tx_ok_return sqlite_tx [OF insert_actor_ok])
qed (auto simp: get_or_create_spec_def query_spec_def split: option.splits)

lemma sqlite_inserted_key:
  "tx_ok sqlite_good sqlite_committed sqlite_pending (inserted_key_spec k) (sqlite_InsertPublicKey k)"
  unfolding sqlite_ops_defs
proof (rule tx_ok_weaken [OF tx_ok_bind [OF sqlite_tx [OF insert_public_key_ok]]])
  show "tx_ok sqlite_good sqlite_committed sqlite_pending
      (\<lambda>t y t'. y = k\<lparr>pk_id := fst x, pk_created_at := snd x\<rparr> \<and> t' = t)
      (case x of (i, createdAt) \<Rightarrow> return_op (k\<lparr>pk_id := i, pk_created_at := createdAt\<rparr>))" for x
    by (cases x) (simp add: tx_ok_return)
qed (force simp: inserted_key_spec_def)

lemma sqlite_inserted_aux:
  "tx_ok sqlite_good sqlite_committed sqlite_pending (inserted_aux_spec d) (sqlite_InsertAuxData d)"
  unfolding sqlite_ops_defs
proof (rule tx_ok_weaken [OF tx_ok_bind [OF sqlite_tx [OF insert_aux_data_ok]]])
  show "tx_ok sqlite_good sqlite_committed sqlite_pending
      (\<lambda>t y t'. y = d\<lparr>ad_id := fst x, ad_created_at := snd x\<rparr> \<and> t' = t)
      (case x of (i, createdAt) \<Rightarrow> return_op (d\<lparr>ad_id := i, ad_created_at := createdAt\<rparr>))" for x
    by (cases x) (simp add: tx_ok_return)
qed (force simp: inserted_aux_spec_def)

lemma sqlite_find_to_revoke:
  "tx_ok sqlite_good sqlite_committed sqlite_pending (key_to_revoke_spec actorID publicKey)
     (sqlite_FindKeyToRevoke actorID publicKey)"
  unfolding sqlite_ops_defs
  by (rule tx_ok_weaken [OF sqlite_tx [OF query_ok]]) (erule key_to_revoke_found)

lemma sqlite_store_keys:
  "tx_ok sqlite_good sqlite_committed sqlite_pending (store_symmetric_keys_spec hash keys)
     (sqlite_StoreSymmetricKeys hash keys)"
  unfolding sqlite_ops_defs
  by (rule tx_ok_weaken,
      rule tx_ok_bind [OF sqlite_tx [OF query_ok] tx_ok_closing [OF store_each_ok sqlite_tx_exec_ok [OF query_ok]]])
    (auto simp: query_spec_def sqlite_tx [OF insert_symmetric_key_ok])

lemma sqlite_delete_keys:
  "tx_ok sqlite_good sqlite_committed sqlite_pending (delete_symmetric_keys_spec hashes)
     (sqlite_DeleteSymmetricKeysByHashes hashes)"
proof (cases "hashes = []")
  case True
  then show ?thesis
    unfolding sqlite_ops_defs
    by simp (rule tx_ok_weaken, rule tx_ok_return,
        simp add: delete_symmetric_keys_spec_def forget_symmetric_keys_def)
qed (simp add: sqlite_ops_defs sqlite_tx [OF delete_symmetric_keys_ok])

lemma sqlite_fireproof:
  "conn_ok sqlite_good sqlite_committed sqlite_pending (set_fireproof_op_spec actorID b) (sqlite_SetFireproof actorID b)"
  unfolding sqlite_ops_defs
  by (rule conn_ok_weaken [OF conn_ok_require [OF sqlite_conn [OF set_fireproof_ok]]])
    (auto dest: set_fireproof_rows)

lemma sqlite_totp_delete:
  "conn_ok sqlite_good sqlite_committed sqlite_pending (totp_deleted i) (sqlite_DeleteTOTPSecret i)"
  unfolding sqlite_ops_defs
  by (rule conn_ok_weaken [OF conn_ok_require [OF sqlite_conn [OF delete_totp_ok]]])
    (auto simp: totp_deleted_def dest: delete_totp_rows)

lemma sqlite_store_message:
  "conn_ok sqlite_good sqlite_committed sqlite_pending (message_stored hash raw msg) (sqlite_StoreMessage hash raw msg)"
proof (cases "marshal_protocol msg")
  case (Inl e)
  then show ?thesis
    by (intro conn_okI) (auto simp: sqlite_ops_defs op_defs wrap_error_def)
next
  case (Inr j)
  then have "sqlite_StoreMessage hash raw msg =
      wrapping ''failed to insert message log'' (sqlite_exec (stmt_insert_message_log hash raw j))"
    by (simp add: sqlite_ops_defs op_defs fun_eq_iff)
  moreover have "conn_ok sqlite_good sqlite_committed sqlite_pending (message_stored hash raw msg)
      (wrapping ''failed to insert message log'' (sqlite_exec (stmt_insert_message_log hash raw j)))"
    by (rule conn_ok_weaken [OF sqlite_conn [OF insert_message_log_ok]])
      (simp add: message_stored_def Inr)
  ultimately show ?thesis by simp
qed

interpretation sqlite: repository sqlite_repo sqlite_good sqlite_committed sqlite_pending
proof
  fix s r s' t
  show "sqlite_good s \<Longrightarrow> wf_tables (sqlite_committed s)"
    by (rule sqlite_good_wf)
  show "sqlite_good s \<Longrightarrow> sqlite_pending s = None \<Longrightarrow> BeginTx sqlite_repo s = (r, s') \<Longrightarrow>
      sqlite_good s' \<and> sqlite_committed s' = sqlite_committed s \<and>
      (case r of Inl _ \<Rightarrow> sqlite_pending s' = None | Inr _ \<Rightarrow> sqlite_pending s' = Some (sqlite_committed s))"
    using sqlite_begin [of s r s'] by (simp add: sqlite_repo_def)
  show "sqlite_good s \<Longrightarrow> sqlite_pending s = Some t \<Longrightarrow> Commit sqlite_repo s = (r, s') \<Longrightarrow>
      sqlite_good s' \<and> sqlite_pending s' = None \<and>
      (case r of Inl _ \<Rightarrow> sqlite_committed s' = sqlite_committed s | Inr _ \<Rightarrow> sqlite_committed s' = t)"
    using sqlite_commit [of s t r s'] by (simp add: sqlite_repo_def)
  show "sqlite_good s \<Longrightarrow> Rollback sqlite_repo s = (r, s') \<Longrightarrow>
      sqlite_good s' \<and> sqlite_pending s' = None \<and> sqlite_committed s' = sqlite_committed s"
    using sqlite_rollback [of s r s'] by (simp add: sqlite_repo_def)
qed (simp_all add: sqlite_repo_def sqlite_get_or_create sqlite_inserted_key sqlite_inserted_aux sqlite_find_to_revoke
      sqlite_store_keys sqlite_delete_keys sqlite_fireproof sqlite_totp_delete sqlite_store_message,
    simp_all add: sqlite_ops_defs sqlite_tx [OF query_ok] sqlite_tx [OF update_actor_id_ok]
      sqlite_tx [OF revoke_key_ok] sqlite_tx [OF revoke_all_keys_ok] sqlite_tx [OF revoke_aux_in_ok]
      sqlite_conn [OF query_ok] sqlite_conn [OF upsert_totp_ok] sqlite_roots)

end
