(* ===== verification/Postgres.thy ===== *)
theory Postgres
  imports Repo
begin

section \<open>The PostgreSQL back end\<close>

text \<open>
  \<^verbatim>\<open>internal/db/postgres.go\<close>. It differs from SQLite in four ways that the
  handle shows: sequences are not part of a transaction, so a number given out is never given
  out again; \<^verbatim>\<open>NOW()\<close> is the time the transaction began; a statement that fails inside a
  transaction aborts it, so that every later statement fails and \<^verbatim>\<open>Commit\<close> rolls back and
  reports an error; and auxiliary data is revoked by \<^verbatim>\<open>UPDATE ... FROM\<close>. The row lock of
  \<^verbatim>\<open>SELECT ... FOR UPDATE\<close> has no effect on a single handle.

  \<open>pg_faults\<close> tells which calls to come the driver refuses and the seconds between them.
\<close>

record pg_work =
  pw_tables :: tables
  pw_start :: nat
  pw_aborted :: bool

record pg_db =
  pg_tables :: tables
  pg_seq :: sequences
  pg_tx :: "pg_work option"
  pg_clock :: nat
  pg_faults :: "(bool \<times> nat) list"

definition pg_open :: pg_db where
  "pg_open =
     \<lparr> pg_tables = empty_tables, pg_seq = zero_sequences, pg_tx = None, pg_clock = 0, pg_faults = [] \<rparr>"

definition pg_committed :: "pg_db \<Rightarrow> tables" where
  "pg_committed s = pg_tables s"

definition pg_pending :: "pg_db \<Rightarrow> tables option" where
  "pg_pending s = map_option pw_tables (pg_tx s)"

definition pg_good :: "pg_db \<Rightarrow> bool" where
  "pg_good s \<longleftrightarrow>
     wf_tables (pg_tables s) \<and> numbered (pg_tables s) (pg_seq s) \<and>
     (case pg_tx s of None \<Rightarrow> True | Some w \<Rightarrow> wf_tables (pw_tables w) \<and> numbered (pw_tables w) (pg_seq s))"

lemma pg_good_open [simp]: "pg_good pg_open"
  by (simp add: pg_good_def pg_open_def)

definition pg_tick :: "pg_db \<Rightarrow> bool \<times> pg_db" where
  "pg_tick s =
     (case pg_faults s of
        [] \<Rightarrow> (False, s)
      | (fails, elapsed) # fs \<Rightarrow> (fails, s\<lparr> pg_clock := pg_clock s + elapsed, pg_faults := fs \<rparr>))"

definition pg_exec :: "'a stmt \<Rightarrow> (pg_db, 'a) op" where
  "pg_exec st s =
     (case pg_tick s of (fails, s1) \<Rightarrow>
        if fails then (Inl driver_error, s1)
        else case st (pg_clock s1) (pg_tables s1) (pg_seq s1) of
               (Inl e, _, q) \<Rightarrow> (Inl e, s1\<lparr> pg_seq := q \<rparr>)
             | (Inr x, t, q) \<Rightarrow> (Inr x, s1\<lparr> pg_tables := t, pg_seq := q \<rparr>))"

definition pg_abort :: "pg_work \<Rightarrow> pg_work" where
  "pg_abort w = w\<lparr> pw_aborted := True \<rparr>"

definition pg_tx_exec :: "'a stmt \<Rightarrow> (pg_db, 'a) op" where
  "pg_tx_exec st s =
     (case pg_tx s of
        None \<Rightarrow> (Inl ErrTxDone, s)
      | Some w \<Rightarrow>
          (case pg_tick s of (fails, s1) \<Rightarrow>
             if fails \<or> pw_aborted w then (Inl driver_error, s1\<lparr> pg_tx := Some (pg_abort w) \<rparr>)
             else case st (pw_start w) (pw_tables w) (pg_seq s1) of
                    (Inl e, _, q) \<Rightarrow> (Inl e, s1\<lparr> pg_tx := Some (pg_abort w), pg_seq := q \<rparr>)
                  | (Inr x, t, q) \<Rightarrow> (Inr x, s1\<lparr> pg_tx := Some (w\<lparr> pw_tables := t \<rparr>), pg_seq := q \<rparr>)))"

subsection \<open>Transactions\<close>

definition pg_BeginTx :: "(pg_db, unit) op" where
  "pg_BeginTx =
     wrapping ''failed to begin transaction''
       (\<lambda>s. case pg_tick s of (fails, s1) \<Rightarrow>
          if fails then (Inl driver_error, s1)
          else (Inr (), s1\<lparr> pg_tx :=
                  Some \<lparr> pw_tables = pg_tables s1, pw_start = pg_clock s1, pw_aborted = False \<rparr> \<rparr>))"

definition pg_Commit :: "(pg_db, unit) op" where
  "pg_Commit s =
     (case pg_tx s of
        None \<Rightarrow> (Inl ErrTxDone, s)
      | Some w \<Rightarrow>
          (case pg_tick s of (fails, s1) \<Rightarrow>
             if fails \<or> pw_aborted w then (Inl driver_error, s1\<lparr> pg_tx := None \<rparr>)
             else (Inr (), s1\<lparr> pg_tables := pw_tables w, pg_tx := None \<rparr>)))"

definition pg_Rollback :: "(pg_db, unit) op" where
  "pg_Rollback s =
     (case pg_tx s of
        None \<Rightarrow> (Inl ErrTxDone, s)
      | Some _ \<Rightarrow> (Inr (), s\<lparr> pg_tx := None \<rparr>))"

subsection \<open>Operations outside a transaction\<close>

definition pg_FindActorByActorID :: "string \<Rightarrow> (pg_db, actor option) op" where
  "pg_FindActorByActorID actorID =
     wrapping (''failed to find actor by actor_id '' @ actorID) (pg_exec (query (find_actor actorID)))"

definition pg_IsFireproof :: "string \<Rightarrow> (pg_db, bool) op" where
  "pg_IsFireproof actorID =
     wrapping (''failed to check fireproof status for actor '' @ actorID)
       (pg_exec (query (actor_fireproof actorID)))"

definition pg_SetFireproof :: "string \<Rightarrow> bool \<Rightarrow> (pg_db, unit) op" where
  "pg_SetFireproof actorID isFireproof =
     bind_op (wrapping (''failed to set fireproof status for actor '' @ actorID)
                (pg_exec (stmt_set_fireproof actorID isFireproof)))
       (\<lambda>rowsAffected.
          if rowsAffected = 0 then fail_op (Errorf (''actor not found: '' @ actorID)) else return_op ())"

definition pg_GetLatestMerkleRoot :: "(pg_db, string) op" where
  "pg_GetLatestMerkleRoot = wrapping ''failed to get latest merkle root'' (pg_exec (query latest_root))"

definition pg_ListKeysForActor :: "string \<Rightarrow> (pg_db, public_key list) op" where
  "pg_ListKeysForActor actorID =
     wrapping (''failed to list keys for actor '' @ actorID) (pg_exec (query (active_keys actorID)))"

definition pg_FindKeyByKeyID :: "string \<Rightarrow> (pg_db, public_key option) op" where
  "pg_FindKeyByKeyID keyID =
     wrapping (''failed to find key by key_id '' @ keyID) (pg_exec (query (key_by_id keyID)))"

definition pg_ListAuxDataForActor :: "string \<Rightarrow> (pg_db, auxiliary_data list) op" where
  "pg_ListAuxDataForActor actorID =
     wrapping (''failed to list auxiliary data for actor '' @ actorID)
       (pg_exec (query (active_aux actorID)))"

definition pg_FindAuxDataByAuxID :: "string \<Rightarrow> (pg_db, auxiliary_data option) op" where
  "pg_FindAuxDataByAuxID auxID =
     wrapping (''failed to find auxiliary data by aux_id '' @ auxID) (pg_exec (query (aux_by_id auxID)))"

definition pg_FindSymmetricKeysByMessageHash :: "string \<Rightarrow> (pg_db, symmetric_key list) op" where
  "pg_FindSymmetricKeysByMessageHash messageHash =
     wrapping (''failed to find symmetric keys by message hash '' @ messageHash)
       (pg_exec (query (symmetric_keys_of messageHash)))"

definition pg_StoreMessage :: "string \<Rightarrow> string \<Rightarrow> protocol_message \<Rightarrow> (pg_db, unit) op" where
  "pg_StoreMessage hash rawMessage decryptedMessage =
     bind_op (wrapping ''failed to marshal decrypted message to JSON''
                (lift_op (marshal_protocol decryptedMessage)))
       (\<lambda>decryptedJSON. wrapping ''failed to insert message log''
          (pg_exec (stmt_insert_message_log hash rawMessage decryptedJSON)))"

definition pg_StoreTOTPSecret :: "string \<Rightarrow> bytes \<Rightarrow> (pg_db, unit) op" where
  "pg_StoreTOTPSecret inst encryptedSecret =
     wrapping (''failed to store TOTP secret for instance '' @ inst)
       (pg_exec (stmt_upsert_totp inst encryptedSecret))"

definition pg_GetTOTPSecret :: "string \<Rightarrow> (pg_db, bytes option) op" where
  "pg_GetTOTPSecret inst =
     wrapping (''failed to get TOTP secret for instance '' @ inst) (pg_exec (query (totp_of inst)))"

definition pg_DeleteTOTPSecret :: "string \<Rightarrow> (pg_db, unit) op" where
  "pg_DeleteTOTPSecret inst =
     bind_op (wrapping (''failed to delete TOTP secret for instance '' @ inst)
                (pg_exec (stmt_delete_totp inst)))
       (\<lambda>rowsAffected.
          if rowsAffected = 0
          then fail_op (Errorf (''TOTP secret for instance '' @ inst @ '' not found''))
          else return_op ())"

subsection \<open>Operations of the transaction\<close>

definition pg_GetOrCreateActor :: "string \<Rightarrow> (pg_db, actor) op" where
  "pg_GetOrCreateActor actorID =
     bind_op (wrapping (''failed to find actor '' @ actorID) (pg_tx_exec (query (find_actor actorID))))
       (\<lambda>found. case found of
          Some a \<Rightarrow> return_op a
        | None \<Rightarrow> wrapping (''failed to create actor '' @ actorID)
                    (pg_tx_exec (stmt_insert_actor actorID)))"

definition pg_TxFindActorByActorID :: "string \<Rightarrow> (pg_db, actor option) op" where
  "pg_TxFindActorByActorID actorID =
     wrapping (''failed to find actor by actor_id '' @ actorID)
       (pg_tx_exec (query (find_actor actorID)))"

definition pg_ActorExists :: "string \<Rightarrow> (pg_db, bool) op" where
  "pg_ActorExists actorID =
     wrapping ''failed to check for existing actor ID''
       (pg_tx_exec (query (\<lambda>t. find_actor actorID t \<noteq> None)))"

definition pg_UpdateActorID :: "string \<Rightarrow> string \<Rightarrow> (pg_db, nat) op" where
  "pg_UpdateActorID oldActorID newActorID =
     wrapping (''failed to update actor ID from '' @ oldActorID @ '' to '' @ newActorID)
       (pg_tx_exec (stmt_update_actor_id oldActorID newActorID))"

definition pg_InsertPublicKey :: "public_key \<Rightarrow> (pg_db, public_key) op" where
  "pg_InsertPublicKey key =
     bind_op (wrapping ''failed to insert new public key'' (pg_tx_exec (stmt_insert_public_key key)))
       (\<lambda>(i, createdAt). return_op (key\<lparr> pk_id := i, pk_created_at := createdAt \<rparr>))"

definition pg_FindKeyToRevoke :: "string \<Rightarrow> string \<Rightarrow> (pg_db, public_key option) op" where
  "pg_FindKeyToRevoke actorID publicKey =
     wrapping ''failed to find key to revoke'' (pg_tx_exec (query (key_to_revoke actorID publicKey)))"

definition pg_RevokeKey :: "nat \<Rightarrow> string \<Rightarrow> (pg_db, unit) op" where
  "pg_RevokeKey keyID revokeRoot =
     wrapping ''failed to execute revoke key query'' (pg_tx_exec (stmt_revoke_key keyID revokeRoot))"

definition pg_GetMessageHashesForActor :: "nat \<Rightarrow> (pg_db, string list) op" where
  "pg_GetMessageHashesForActor actorID =
     wrapping (''failed to gather message hashes for actor '' @ decimal actorID)
       (pg_tx_exec (query (key_roots actorID)))"

definition pg_RevokeAllKeysForActor :: "nat \<Rightarrow> string \<Rightarrow> (pg_db, unit) op" where
  "pg_RevokeAllKeysForActor actorID merkleRoot =
     wrapping (''failed to revoke keys for actor '' @ decimal actorID)
       (pg_tx_exec (stmt_revoke_all_keys actorID merkleRoot))"

definition pg_InsertAuxData :: "auxiliary_data \<Rightarrow> (pg_db, auxiliary_data) op" where
  "pg_InsertAuxData aux =
     bind_op (wrapping ''failed to insert new auxiliary data'' (pg_tx_exec (stmt_insert_aux_data aux)))
       (\<lambda>(i, createdAt). return_op (aux\<lparr> ad_id := i, ad_created_at := createdAt \<rparr>))"

definition pg_RevokeAuxData :: "string \<Rightarrow> string \<Rightarrow> string \<Rightarrow> (pg_db, nat) op" where
  "pg_RevokeAuxData actorID auxID revokeRoot =
     wrapping ''failed to execute revoke auxiliary data query''
       (pg_tx_exec (stmt_revoke_aux_from actorID auxID revokeRoot))"

text \<open>Preparing the statement and closing it are round trips that can fail as well.\<close>

definition pg_StoreSymmetricKeys :: "string \<Rightarrow> (string \<times> bytes) list \<Rightarrow> (pg_db, unit) op" where
  "pg_StoreSymmetricKeys messageHash keys =
     bind_op (wrapping ''failed to prepare symmetric key statement'' (pg_tx_exec (query (\<lambda>_. ()))))
       (\<lambda>_. closing ''failed to close symmetric key statement'' (pg_tx_exec (query (\<lambda>_. ())))
          (each_op (\<lambda>(attribute, key).
              wrapping (''failed to insert symmetric key for attribute '' @ attribute)
                (pg_tx_exec (stmt_insert_symmetric_key messageHash attribute key))) keys))"

definition pg_DeleteSymmetricKeysByHashes :: "string list \<Rightarrow> (pg_db, unit) op" where
  "pg_DeleteSymmetricKeysByHashes hashes =
     (if hashes = [] then return_op ()
      else wrapping ''failed to delete symmetric keys'' (pg_tx_exec (stmt_delete_symmetric_keys hashes)))"

subsection \<open>The back end meets the contract\<close>

definition pg_repo :: "pg_db repo" where
  "pg_repo =
     \<lparr> BeginTx = pg_BeginTx, Commit = pg_Commit, Rollback = pg_Rollback,
       GetOrCreateActor = pg_GetOrCreateActor, TxFindActorByActorID = pg_TxFindActorByActorID,
       ActorExists = pg_ActorExists, UpdateActorID = pg_UpdateActorID,
       InsertPublicKey = pg_InsertPublicKey, FindKeyToRevoke = pg_FindKeyToRevoke,
       RevokeKey = pg_RevokeKey, GetMessageHashesForActor = pg_GetMessageHashesForActor,
       RevokeAllKeysForActor = pg_RevokeAllKeysForActor, InsertAuxData = pg_InsertAuxData,
       RevokeAuxData = pg_RevokeAuxData, StoreSymmetricKeys = pg_StoreSymmetricKeys,
       DeleteSymmetricKeysByHashes = pg_DeleteSymmetricKeysByHashes,
       FindActorByActorID = pg_FindActorByActorID, IsFireproof = pg_IsFireproof,
       SetFireproof = pg_SetFireproof, ListKeysForActor = pg_ListKeysForActor,
       FindKeyByKeyID = pg_FindKeyByKeyID, ListAuxDataForActor = pg_ListAuxDataForActor,
       FindAuxDataByAuxID = pg_FindAuxDataByAuxID,
       FindSymmetricKeysByMessageHash = pg_FindSymmetricKeysByMessageHash,
       StoreMessage = pg_StoreMessage, GetLatestMerkleRoot = pg_GetLatestMerkleRoot,
       StoreTOTPSecret = pg_StoreTOTPSecret, GetTOTPSecret = pg_GetTOTPSecret,
       DeleteTOTPSecret = pg_DeleteTOTPSecret \<rparr>"

lemmas pg_state_defs = pg_good_def pg_committed_def pg_pending_def

lemma pg_good_wf: "pg_good s \<Longrightarrow> wf_tables (pg_committed s)"
  by (simp add: pg_state_defs)

lemma pg_tick_frame:
  assumes "pg_tick s = (f, s')"
  shows "pg_tables s' = pg_tables s" "pg_seq s' = pg_seq s" "pg_tx s' = pg_tx s"
  using assms by (auto simp: pg_tick_def split: list.splits prod.splits)

lemma pg_exec_ok:
  assumes "stmt_ok P st"
  shows "conn_ok pg_good pg_committed pg_pending P (pg_exec st)"
proof (rule conn_okI)
  fix s r s'
  assume a: "pg_good s" "pg_pending s = None" "pg_exec st s = (r, s')"
  obtain f s1 where t: "pg_tick s = (f, s1)" by (cases "pg_tick s")
  obtain x t1 q1 where e: "st (pg_clock s1) (pg_tables s) (pg_seq s) = (x, t1, q1)"
    by (cases "st (pg_clock s1) (pg_tables s) (pg_seq s)")
  from a(1) have w: "wf_tables (pg_tables s)" "numbered (pg_tables s) (pg_seq s)"
    by (simp_all add: pg_good_def)
  note ok = stmt_okD [OF assms w e]
  from a t e ok(1,2,5) numbered_mono [OF w(2) ok(3)] pg_tick_frame [OF t]
  show "pg_good s' \<and> pg_pending s' = None \<and>
      (case r of Inl _ \<Rightarrow> pg_committed s' = pg_committed s
       | Inr x \<Rightarrow> P (pg_committed s) x (pg_committed s'))"
    by (auto simp: pg_exec_def pg_state_defs split: if_splits sum.splits)
qed

lemma pg_tx_exec_ok:
  assumes "stmt_ok P st"
  shows "tx_ok pg_good pg_committed pg_pending P (pg_tx_exec st)"
proof (rule tx_okI)
  fix s t r s'
  assume a: "pg_good s" "pg_pending s = Some t" "pg_tx_exec st s = (r, s')"
  obtain w where w: "pg_tx s = Some w" "pw_tables w = t" using a(2) by (auto simp: pg_pending_def)
  obtain f s1 where k: "pg_tick s = (f, s1)" by (cases "pg_tick s")
  obtain x t1 q1 where e: "st (pw_start w) t (pg_seq s) = (x, t1, q1)"
    by (cases "st (pw_start w) t (pg_seq s)")
  from a(1) w have v: "wf_tables t" "numbered t (pg_seq s)" by (simp_all add: pg_good_def)
  note ok = stmt_okD [OF assms v e]
  have n: "numbered (pg_tables s) q1"
    using a(1) numbered_mono [OF _ ok(3)] by (simp add: pg_good_def)
  from a w k e ok(1,2,5) n numbered_mono [OF v(2) ok(3)] pg_tick_frame [OF k]
  show "pg_good s' \<and> pg_committed s' = pg_committed s \<and>
      (case r of Inl _ \<Rightarrow> pg_pending s' \<noteq> None | Inr x \<Rightarrow> \<exists>t'. pg_pending s' = Some t' \<and> P t x t')"
    by (auto simp: pg_tx_exec_def pg_state_defs pg_abort_def split: if_splits sum.splits)
qed

lemma pg_begin:
  assumes "pg_good s" "pg_pending s = None" "pg_BeginTx s = (r, s')"
  shows "pg_good s' \<and> pg_committed s' = pg_committed s \<and>
    (case r of Inl _ \<Rightarrow> pg_pending s' = None | Inr _ \<Rightarrow> pg_pending s' = Some (pg_committed s))"
proof -
  obtain f s1 where k: "pg_tick s = (f, s1)" by (cases "pg_tick s")
  from assms k pg_tick_frame [OF k] show ?thesis
    by (auto simp: pg_BeginTx_def wrapping_def pg_state_defs split: if_splits)
qed

lemma pg_commit:
  assumes "pg_good s" "pg_pending s = Some t" "pg_Commit s = (r, s')"
  shows "pg_good s' \<and> pg_pending s' = None \<and>
    (case r of Inl _ \<Rightarrow> pg_committed s' = pg_committed s | Inr _ \<Rightarrow> pg_committed s' = t)"
proof -
  obtain f s1 where k: "pg_tick s = (f, s1)" by (cases "pg_tick s")
  from assms k pg_tick_frame [OF k] show ?thesis
    by (auto simp: pg_Commit_def pg_state_defs split: if_splits)
qed

lemma pg_rollback:
  assumes "pg_good s" "pg_Rollback s = (r, s')"
  shows "pg_good s' \<and> pg_pending s' = None \<and> pg_committed s' = pg_committed s"
  using assms by (auto simp: pg_Rollback_def pg_state_defs split: option.splits)

lemma pg_roots:
  "tx_ok pg_good pg_committed pg_pending (\<lambda>t hs t'. t' = t \<and> set hs = set (key_roots i t))
     (wrapping msg (pg_tx_exec (query (key_roots i))))"
  by (rule tx_ok_weaken [OF tx_ok_wrapping [OF pg_tx_exec_ok [OF query_ok]]]) (simp add: query_spec_def)

lemmas pg_tx = tx_ok_wrapping [OF pg_tx_exec_ok]
lemmas pg_conn = conn_ok_wrapping [OF pg_exec_ok]

lemmas pg_ops_defs =
  pg_GetOrCreateActor_def pg_TxFindActorByActorID_def pg_ActorExists_def pg_UpdateActorID_def
  pg_InsertPublicKey_def pg_FindKeyToRevoke_def pg_RevokeKey_def pg_GetMessageHashesForActor_def
  pg_RevokeAllKeysForActor_def pg_InsertAuxData_def pg_RevokeAuxData_def
  pg_StoreSymmetricKeys_def pg_DeleteSymmetricKeysByHashes_def pg_FindActorByActorID_def
  pg_IsFireproof_def pg_SetFireproof_def pg_ListKeysForActor_def pg_FindKeyByKeyID_def
  pg_ListAuxDataForActor_def pg_FindAuxDataByAuxID_def pg_FindSymmetricKeysByMessageHash_def
  pg_StoreMessage_def pg_GetLatestMerkleRoot_def pg_StoreTOTPSecret_def pg_GetTOTPSecret_def
  pg_DeleteTOTPSecret_def

lemma pg_get_or_create:
  "tx_ok pg_good pg_committed pg_pending (get_or_create_spec actorID) (pg_GetOrCreateActor actorID)"
  unfolding pg_ops_defs
proof (rule tx_ok_weaken [OF tx_ok_bind [OF pg_tx [OF query_ok]]])
  show "tx_ok pg_good pg_committed pg_pending
      (case x of Some b \<Rightarrow> \<lambda>t a t'. a = b \<and> t' = t | None \<Rightarrow> insert_actor_spec actorID)
      (case x of None \<Rightarrow> wrapping (''failed to create actor '' @ actorID)
          (pg_tx_exec (stmt_insert_actor actorID)) | Some a \<Rightarrow> return_op a)" for x
    by (cases x) (simp_all add: tx_ok_return pg_tx [OF insert_actor_ok])
qed (auto simp: get_or_create_spec_def query_spec_def split: option.splits)

lemma pg_inserted_key:
  "tx_ok pg_good pg_committed pg_pending (inserted_key_spec k) (pg_InsertPublicKey k)"
  unfolding pg_ops_defs
proof (rule tx_ok_weaken [OF tx_ok_bind [OF pg_tx [OF insert_public_key_ok]]])
  show "tx_ok pg_good pg_committed pg_pending
      (\<lambda>t y t'. y = k\<lparr>pk_id := fst x, pk_created_at := snd x\<rparr> \<and> t' = t)
      (case x of (i, createdAt) \<Rightarrow> return_op (k\<lparr>pk_id := i, pk_created_at := createdAt\<rparr>))" for x
    by (cases x) (simp add: tx_ok_return)
qed (force simp: inserted_key_spec_def)

lemma pg_inserted_aux:
  "tx_ok pg_good pg_committed pg_pending (inserted_aux_spec d) (pg_InsertAuxData d)"
  unfolding pg_ops_defs
proof (rule tx_ok_weaken [OF tx_ok_bind [OF pg_tx [OF insert_aux_data_ok]]])
  show "tx_ok pg_good pg_committed pg_pending
      (\<lambda>t y t'. y = d\<lparr>ad_id := fst x, ad_created_at := snd x\<rparr> \<and> t' = t)
      (case x of (i, createdAt) \<Rightarrow> return_op (d\<lparr>ad_id := i, ad_created_at := createdAt\<rparr>))" for x
    by (cases x) (simp add: tx_ok_return)
qed (force simp: inserted_aux_spec_def)

lemma pg_find_to_revoke:
  "tx_ok pg_good pg_committed pg_pending (key_to_revoke_spec actorID publicKey)
     (pg_FindKeyToRevoke actorID publicKey)"
  unfolding pg_ops_defs
  by (rule tx_ok_weaken [OF pg_tx [OF query_ok]]) (erule key_to_revoke_found)

lemma pg_store_keys:
  "tx_ok pg_good pg_committed pg_pending (store_symmetric_keys_spec hash keys)
     (pg_StoreSymmetricKeys hash keys)"
  unfolding pg_ops_defs
  by (rule tx_ok_weaken,
      rule tx_ok_bind [OF pg_tx [OF query_ok] tx_ok_closing [OF store_each_ok pg_tx_exec_ok [OF query_ok]]])
    (auto simp: query_spec_def pg_tx [OF insert_symmetric_key_ok])

lemma pg_delete_keys:
  "tx_ok pg_good pg_committed pg_pending (delete_symmetric_keys_spec hashes)
     (pg_DeleteSymmetricKeysByHashes hashes)"
proof (cases "hashes = []")
  case True
  then show ?thesis
    unfolding pg_ops_defs
    by simp (rule tx_ok_weaken, rule tx_ok_return,
        simp add: delete_symmetric_keys_spec_def forget_symmetric_keys_def)
qed (simp add: pg_ops_defs pg_tx [OF delete_symmetric_keys_ok])

lemma pg_fireproof:
  "conn_ok pg_good pg_committed pg_pending (set_fireproof_op_spec actorID b) (pg_SetFireproof actorID b)"
  unfolding pg_ops_defs
  by (rule conn_ok_weaken [OF conn_ok_require [OF pg_conn [OF set_fireproof_ok]]])
    (auto dest: set_fireproof_rows)

lemma pg_totp_delete:
  "conn_ok pg_good pg_committed pg_pending (totp_deleted i) (pg_DeleteTOTPSecret i)"
  unfolding pg_ops_defs
  by (rule conn_ok_weaken [OF conn_ok_require [OF pg_conn [OF delete_totp_ok]]])
    (auto simp: totp_deleted_def dest: delete_totp_rows)

lemma pg_store_message:
  "conn_ok pg_good pg_committed pg_pending (message_stored hash raw msg) (pg_StoreMessage hash raw msg)"
proof (cases "marshal_protocol msg")
  case (Inl e)
  then show ?thesis
    by (intro conn_okI) (auto simp: pg_ops_defs op_defs wrap_error_def)
next
  case (Inr j)
  then have "pg_StoreMessage hash raw msg =
      wrapping ''failed to insert message log'' (pg_exec (stmt_insert_message_log hash raw j))"
    by (simp add: pg_ops_defs op_defs fun_eq_iff)
  moreover have "conn_ok pg_good pg_committed pg_pending (message_stored hash raw msg)
      (wrapping ''failed to insert message log'' (pg_exec (stmt_insert_message_log hash raw j)))"
    by (rule conn_ok_weaken [OF pg_conn [OF insert_message_log_ok]])
      (simp add: message_stored_def Inr)
  ultimately show ?thesis by simp
qed

interpretation pg: repository pg_repo pg_good pg_committed pg_pending
proof
  fix s r s' t
  show "pg_good s \<Longrightarrow> wf_tables (pg_committed s)"
    by (rule pg_good_wf)
  show "pg_good s \<Longrightarrow> pg_pending s = None \<Longrightarrow> BeginTx pg_repo s = (r, s') \<Longrightarrow>
      pg_good s' \<and> pg_committed s' = pg_committed s \<and>
      (case r of Inl _ \<Rightarrow> pg_pending s' = None | Inr _ \<Rightarrow> pg_pending s' = Some (pg_committed s))"
    using pg_begin [of s r s'] by (simp add: pg_repo_def)
  show "pg_good s \<Longrightarrow> pg_pending s = Some t \<Longrightarrow> Commit pg_repo s = (r, s') \<Longrightarrow>
      pg_good s' \<and> pg_pending s' = None \<and>
      (case r of Inl _ \<Rightarrow> pg_committed s' = pg_committed s | Inr _ \<Rightarrow> pg_committed s' = t)"
    using pg_commit [of s t r s'] by (simp add: pg_repo_def)
  show "pg_good s \<Longrightarrow> Rollback pg_repo s = (r, s') \<Longrightarrow>
      pg_good s' \<and> pg_pending s' = None \<and> pg_committed s' = pg_committed s"
    using pg_rollback [of s r s'] by (simp add: pg_repo_def)
qed (simp_all add: pg_repo_def pg_get_or_create pg_inserted_key pg_inserted_aux pg_find_to_revoke
      pg_store_keys pg_delete_keys pg_fireproof pg_totp_delete pg_store_message,
    simp_all add: pg_ops_defs pg_tx [OF query_ok] pg_tx [OF update_actor_id_ok]
      pg_tx [OF revoke_key_ok] pg_tx [OF revoke_all_keys_ok] pg_tx [OF revoke_aux_from_ok]
      pg_conn [OF query_ok] pg_conn [OF upsert_totp_ok] pg_roots)

end
