(* ===== verification/Database.thy ===== *)
theory Database
  imports SQLite Postgres
begin

section \<open>The database behind the interface\<close>

text \<open>
  The program talks to its database through the Go interface \<^verbatim>\<open>db.Repository\<close>; which
  back end answers is decided once, by the configured driver (\<open>Startup\<close> for \<^verbatim>\<open>server/main.go\<close>, \<open>Cli\<close> for
  \<^verbatim>\<open>cmd/actor.go\<close>, \<^verbatim>\<open>cmd/token.go\<close>). A \<open>database\<close> is a handle of one of the two, and
  \<open>db_repo\<close> dispatches each call to it. Everything above this theory is stated over \<open>db_repo\<close> and so
  covers both.
\<close>

datatype database = SQLiteDB sqlite_db | PostgresDB pg_db

fun db_good :: "database \<Rightarrow> bool" where
  "db_good (SQLiteDB s) = sqlite_good s"
| "db_good (PostgresDB p) = pg_good p"

fun db_committed :: "database \<Rightarrow> tables" where
  "db_committed (SQLiteDB s) = sqlite_committed s"
| "db_committed (PostgresDB p) = pg_committed p"

fun db_pending :: "database \<Rightarrow> tables option" where
  "db_pending (SQLiteDB s) = sqlite_pending s"
| "db_pending (PostgresDB p) = pg_pending p"

definition on_db :: "(sqlite_db, 'a) op \<Rightarrow> (pg_db, 'a) op \<Rightarrow> (database, 'a) op" where
  "on_db f g d =
     (case d of
        SQLiteDB s \<Rightarrow> (case f s of (r, s') \<Rightarrow> (r, SQLiteDB s'))
      | PostgresDB p \<Rightarrow> (case g p of (r, p') \<Rightarrow> (r, PostgresDB p')))"

definition db_repo :: "database repo" where
  "db_repo =
     \<lparr> BeginTx = on_db sqlite_BeginTx pg_BeginTx,
       Commit = on_db sqlite_Commit pg_Commit,
       Rollback = on_db sqlite_Rollback pg_Rollback,
       GetOrCreateActor = (\<lambda>a. on_db (sqlite_GetOrCreateActor a) (pg_GetOrCreateActor a)),
       TxFindActorByActorID = (\<lambda>a. on_db (sqlite_TxFindActorByActorID a) (pg_TxFindActorByActorID a)),
       ActorExists = (\<lambda>a. on_db (sqlite_ActorExists a) (pg_ActorExists a)),
       UpdateActorID = (\<lambda>a b. on_db (sqlite_UpdateActorID a b) (pg_UpdateActorID a b)),
       InsertPublicKey = (\<lambda>a. on_db (sqlite_InsertPublicKey a) (pg_InsertPublicKey a)),
       FindKeyToRevoke = (\<lambda>a b. on_db (sqlite_FindKeyToRevoke a b) (pg_FindKeyToRevoke a b)),
       RevokeKey = (\<lambda>a b. on_db (sqlite_RevokeKey a b) (pg_RevokeKey a b)),
       GetMessageHashesForActor = (\<lambda>a. on_db (sqlite_GetMessageHashesForActor a) (pg_GetMessageHashesForActor a)),
       RevokeAllKeysForActor = (\<lambda>a b. on_db (sqlite_RevokeAllKeysForActor a b) (pg_RevokeAllKeysForActor a b)),
       InsertAuxData = (\<lambda>a. on_db (sqlite_InsertAuxData a) (pg_InsertAuxData a)),
       RevokeAuxData = (\<lambda>a b c. on_db (sqlite_RevokeAuxData a b c) (pg_RevokeAuxData a b c)),
       StoreSymmetricKeys = (\<lambda>a b. on_db (sqlite_StoreSymmetricKeys a b) (pg_StoreSymmetricKeys a b)),
       DeleteSymmetricKeysByHashes = (\<lambda>a. on_db (sqlite_DeleteSymmetricKeysByHashes a) (pg_DeleteSymmetricKeysByHashes a)),
       FindActorByActorID = (\<lambda>a. on_db (sqlite_FindActorByActorID a) (pg_FindActorByActorID a)),
       IsFireproof = (\<lambda>a. on_db (sqlite_IsFireproof a) (pg_IsFireproof a)),
       SetFireproof = (\<lambda>a b. on_db (sqlite_SetFireproof a b) (pg_SetFireproof a b)),
       ListKeysForActor = (\<lambda>a. on_db (sqlite_ListKeysForActor a) (pg_ListKeysForActor a)),
       FindKeyByKeyID = (\<lambda>a. on_db (sqlite_FindKeyByKeyID a) (pg_FindKeyByKeyID a)),
       ListAuxDataForActor = (\<lambda>a. on_db (sqlite_ListAuxDataForActor a) (pg_ListAuxDataForActor a)),
       FindAuxDataByAuxID = (\<lambda>a. on_db (sqlite_FindAuxDataByAuxID a) (pg_FindAuxDataByAuxID a)),
       FindSymmetricKeysByMessageHash = (\<lambda>a. on_db (sqlite_FindSymmetricKeysByMessageHash a) (pg_FindSymmetricKeysByMessageHash a)),
       StoreMessage = (\<lambda>a b c. on_db (sqlite_StoreMessage a b c) (pg_StoreMessage a b c)),
       GetLatestMerkleRoot = on_db sqlite_GetLatestMerkleRoot pg_GetLatestMerkleRoot,
       StoreTOTPSecret = (\<lambda>a b. on_db (sqlite_StoreTOTPSecret a b) (pg_StoreTOTPSecret a b)),
       GetTOTPSecret = (\<lambda>a. on_db (sqlite_GetTOTPSecret a) (pg_GetTOTPSecret a)),
       DeleteTOTPSecret = (\<lambda>a. on_db (sqlite_DeleteTOTPSecret a) (pg_DeleteTOTPSecret a)) \<rparr>"

lemma on_db_tx:
  assumes "tx_ok sqlite_good sqlite_committed sqlite_pending P f" "tx_ok pg_good pg_committed pg_pending P g"
  shows "tx_ok db_good db_committed db_pending P (on_db f g)"
proof (rule tx_okI)
  fix d t r d'
  assume a: "db_good d" "db_pending d = Some t" "on_db f g d = (r, d')"
  show "db_good d' \<and> db_committed d' = db_committed d \<and>
      (case r of Inl _ \<Rightarrow> db_pending d' \<noteq> None | Inr x \<Rightarrow> \<exists>t'. db_pending d' = Some t' \<and> P t x t')"
  proof (cases d)
    case (SQLiteDB s)
    obtain r1 s1 where f: "f s = (r1, s1)" by (cases "f s")
    from tx_okD [OF assms(1) _ _ f] a f SQLiteDB show ?thesis by (auto simp: on_db_def split: sum.splits)
  next
    case (PostgresDB p)
    obtain r1 p1 where g: "g p = (r1, p1)" by (cases "g p")
    from tx_okD [OF assms(2) _ _ g] a g PostgresDB show ?thesis by (auto simp: on_db_def split: sum.splits)
  qed
qed

lemma on_db_conn:
  assumes "conn_ok sqlite_good sqlite_committed sqlite_pending P f"
    and "conn_ok pg_good pg_committed pg_pending P g"
  shows "conn_ok db_good db_committed db_pending P (on_db f g)"
proof (rule conn_okI)
  fix d r d'
  assume a: "db_good d" "db_pending d = None" "on_db f g d = (r, d')"
  show "db_good d' \<and> db_pending d' = None \<and>
      (case r of Inl _ \<Rightarrow> db_committed d' = db_committed d
       | Inr x \<Rightarrow> P (db_committed d) x (db_committed d'))"
  proof (cases d)
    case (SQLiteDB s)
    obtain r1 s1 where f: "f s = (r1, s1)" by (cases "f s")
    from conn_okD [OF assms(1) _ _ f] a f SQLiteDB show ?thesis by (auto simp: on_db_def split: sum.splits)
  next
    case (PostgresDB p)
    obtain r1 p1 where g: "g p = (r1, p1)" by (cases "g p")
    from conn_okD [OF assms(2) _ _ g] a g PostgresDB show ?thesis by (auto simp: on_db_def split: sum.splits)
  qed
qed

lemma db_begin:
  assumes "db_good d" "db_pending d = None" "on_db sqlite_BeginTx pg_BeginTx d = (r, d')"
  shows "db_good d' \<and> db_committed d' = db_committed d \<and>
    (case r of Inl _ \<Rightarrow> db_pending d' = None | Inr _ \<Rightarrow> db_pending d' = Some (db_committed d))"
proof (cases d)
  case (SQLiteDB s)
  obtain r1 s1 where f: "sqlite_BeginTx s = (r1, s1)" by (cases "sqlite_BeginTx s")
  from sqlite_begin [OF _ _ f] assms f SQLiteDB show ?thesis by (auto simp: on_db_def split: sum.splits)
next
  case (PostgresDB p)
  obtain r1 p1 where g: "pg_BeginTx p = (r1, p1)" by (cases "pg_BeginTx p")
  from pg_begin [OF _ _ g] assms g PostgresDB show ?thesis by (auto simp: on_db_def split: sum.splits)
qed

lemma db_commit:
  assumes "db_good d" "db_pending d = Some t" "on_db sqlite_Commit pg_Commit d = (r, d')"
  shows "db_good d' \<and> db_pending d' = None \<and>
    (case r of Inl _ \<Rightarrow> db_committed d' = db_committed d | Inr _ \<Rightarrow> db_committed d' = t)"
proof (cases d)
  case (SQLiteDB s)
  obtain r1 s1 where f: "sqlite_Commit s = (r1, s1)" by (cases "sqlite_Commit s")
  from sqlite_commit [OF _ _ f] assms f SQLiteDB show ?thesis by (auto simp: on_db_def split: sum.splits)
next
  case (PostgresDB p)
  obtain r1 p1 where g: "pg_Commit p = (r1, p1)" by (cases "pg_Commit p")
  from pg_commit [OF _ _ g] assms g PostgresDB show ?thesis by (auto simp: on_db_def split: sum.splits)
qed

lemma db_rollback:
  assumes "db_good d" "on_db sqlite_Rollback pg_Rollback d = (r, d')"
  shows "db_good d' \<and> db_pending d' = None \<and> db_committed d' = db_committed d"
proof (cases d)
  case (SQLiteDB s)
  obtain r1 s1 where f: "sqlite_Rollback s = (r1, s1)" by (cases "sqlite_Rollback s")
  from sqlite_rollback [OF _ f] assms f SQLiteDB show ?thesis by (auto simp: on_db_def split: sum.splits)
next
  case (PostgresDB p)
  obtain r1 p1 where g: "pg_Rollback p = (r1, p1)" by (cases "pg_Rollback p")
  from pg_rollback [OF _ g] assms g PostgresDB show ?thesis by (auto simp: on_db_def split: sum.splits)
qed

lemma db_good_wf: "db_good d \<Longrightarrow> wf_tables (db_committed d)"
  by (cases d) (simp_all add: sqlite_good_wf pg_good_wf)

lemmas repo_tx_laws =
  sqlite.get_or_create pg.get_or_create sqlite.tx_find_actor pg.tx_find_actor
  sqlite.actor_exists pg.actor_exists sqlite.update_actor_id pg.update_actor_id
  sqlite.insert_public_key pg.insert_public_key sqlite.find_key_to_revoke
  pg.find_key_to_revoke sqlite.revoke_key pg.revoke_key sqlite.get_message_hashes
  pg.get_message_hashes sqlite.revoke_all_keys pg.revoke_all_keys sqlite.insert_aux_data
  pg.insert_aux_data sqlite.revoke_aux_data pg.revoke_aux_data sqlite.store_symmetric_keys
  pg.store_symmetric_keys sqlite.delete_symmetric_keys pg.delete_symmetric_keys

lemmas repo_conn_laws =
  sqlite.find_actor_by_actor_id pg.find_actor_by_actor_id sqlite.is_fireproof
  pg.is_fireproof sqlite.set_fireproof_op pg.set_fireproof_op sqlite.list_keys pg.list_keys
  sqlite.find_key_by_key_id pg.find_key_by_key_id sqlite.list_aux pg.list_aux
  sqlite.find_aux_by_aux_id pg.find_aux_by_aux_id sqlite.find_symmetric_keys
  pg.find_symmetric_keys sqlite.store_message pg.store_message sqlite.get_latest_root
  pg.get_latest_root sqlite.store_totp pg.store_totp sqlite.get_totp pg.get_totp
  sqlite.delete_totp pg.delete_totp

interpretation db: repository db_repo db_good db_committed db_pending
proof
  fix s r s' t
  show "db_good s \<Longrightarrow> wf_tables (db_committed s)"
    by (rule db_good_wf)
  show "db_good s \<Longrightarrow> db_pending s = None \<Longrightarrow> BeginTx db_repo s = (r, s') \<Longrightarrow>
      db_good s' \<and> db_committed s' = db_committed s \<and>
      (case r of Inl _ \<Rightarrow> db_pending s' = None | Inr _ \<Rightarrow> db_pending s' = Some (db_committed s))"
    using db_begin [of s r s'] by (simp add: db_repo_def)
  show "db_good s \<Longrightarrow> db_pending s = Some t \<Longrightarrow> Commit db_repo s = (r, s') \<Longrightarrow>
      db_good s' \<and> db_pending s' = None \<and>
      (case r of Inl _ \<Rightarrow> db_committed s' = db_committed s | Inr _ \<Rightarrow> db_committed s' = t)"
    using db_commit [of s t r s'] by (simp add: db_repo_def)
  show "db_good s \<Longrightarrow> Rollback db_repo s = (r, s') \<Longrightarrow>
      db_good s' \<and> db_pending s' = None \<and> db_committed s' = db_committed s"
    using db_rollback [of s r s'] by (simp add: db_repo_def)
qed (insert repo_tx_laws repo_conn_laws,
    simp_all add: db_repo_def sqlite_repo_def pg_repo_def on_db_tx on_db_conn)

end
