(* ===== verification/Directory.thy ===== *)
theory Directory
  imports Repo "HOL-Library.Multiset"
begin

section \<open>The directory: what the tables mean to a client\<close>

text \<open>
  The abstract state of the server: for each actor, the multiset of public keys that are
  active. It is a multiset because the program lets the same key be added twice. The operations
  below are the specification of the protocol's actions; the lemmas say what each write of the
  tables does to the active rows.
\<close>

type_synonym key_directory = "string \<Rightarrow> string multiset"

definition directory :: "tables \<Rightarrow> key_directory" where
  "directory t = (\<lambda>a. image_mset pk_public_key (mset (active_keys a t)))"

definition dir_add :: "string \<Rightarrow> string \<Rightarrow> key_directory \<Rightarrow> key_directory" where
  "dir_add a k d = d(a := d a + {#k#})"

definition dir_revoke :: "string \<Rightarrow> string \<Rightarrow> key_directory \<Rightarrow> key_directory" where
  "dir_revoke a k d = d(a := d a - {#k#})"

definition dir_move :: "string \<Rightarrow> string \<Rightarrow> key_directory \<Rightarrow> key_directory" where
  "dir_move old new d = d(old := {#}, new := d old)"

definition dir_burn :: "string \<Rightarrow> key_directory \<Rightarrow> key_directory" where
  "dir_burn a d = d(a := {#})"

subsection \<open>Owners\<close>

lemma wf_tablesD:
  assumes "wf_tables t"
  shows "distinct (map a_id (actors t))" "distinct (map a_actor_id (actors t))"
    "distinct (map pk_id (public_keys t))" "distinct (map pk_key_id (public_keys t))"
    "k \<in> set (public_keys t) \<Longrightarrow> pk_actor_id k \<in> a_id ` set (actors t)"
    "d \<in> set (auxiliary_data_rows t) \<Longrightarrow> ad_actor_id d \<in> a_id ` set (actors t)"
    "distinct (map ad_aux_id (auxiliary_data_rows t))"
  using assms by (auto simp: wf_tables_def wf_actors_def wf_keys_def wf_aux_def)

lemma owned_by_iff:
  "owned_by b t i \<longleftrightarrow> (\<exists>a \<in> set (actors t). a_id a = i \<and> a_actor_id a = b)"
  by (auto simp: owned_by_def list_ex_iff)

lemma owned_by_find:
  assumes "wf_tables t" "find_actor b t = Some a"
  shows "owned_by b t i \<longleftrightarrow> i = a_id a"
  using assms(2) find_actor_Some [OF assms(2)] distinct_map_eqD [OF wf_tablesD(2) [OF assms(1)]]
  by (auto simp: owned_by_iff)

lemma owned_by_absent: "find_actor b t = None \<Longrightarrow> \<not> owned_by b t i"
  by (auto simp: owned_by_iff find_actor_None)

lemma find_actor_eq:
  assumes "wf_tables t" "a \<in> set (actors t)"
  shows "find_actor (a_actor_id a) t = Some a"
  using distinct_map_find [OF wf_tablesD(2) [OF assms(1)] assms(2)] by (simp add: find_actor_def)

lemma active_keys_absent: "find_actor b t = None \<Longrightarrow> active_keys b t = []"
  by (simp add: active_keys_def owned_by_absent)

lemma active_keys_of:
  "wf_tables t \<Longrightarrow> find_actor b t = Some a \<Longrightarrow>
   active_keys b t = filter (\<lambda>k. pk_actor_id k = a_id a \<and> pk_revoked_at k = None) (public_keys t)"
  by (simp add: active_keys_def owned_by_find)

lemma set_active_keys:
  "k \<in> set (active_keys b t) \<longleftrightarrow>
     k \<in> set (public_keys t) \<and> owned_by b t (pk_actor_id k) \<and> pk_revoked_at k = None"
  by (auto simp: active_keys_def)

lemma active_keys_one_owner:
  assumes "wf_tables t" "k \<in> set (active_keys a t)" "k \<in> set (active_keys b t)"
  shows "a = b"
proof -
  obtain x y where "x \<in> set (actors t)" "y \<in> set (actors t)" "a_id x = a_id y"
    "a_actor_id x = a" "a_actor_id y = b"
    using assms(2,3) by (auto simp: set_active_keys owned_by_iff)
  then show ?thesis
    using distinct_map_eqD [OF wf_tablesD(1) [OF assms(1)]] by metis
qed

subsection \<open>Reads that depend on actors and keys only\<close>

lemma list_ex_update_where:
  "list_ex q (update_where p f xs) = list_ex (\<lambda>x. if p x then q (f x) else q x) xs"
  by (induction xs) auto

lemma active_keys_cong:
  assumes "actors t' = actors t" "public_keys t' = public_keys t"
  shows "active_keys b t' = active_keys b t"
  unfolding active_keys_def owned_by_def assms ..

lemma directory_cong:
  "actors t' = actors t \<Longrightarrow> public_keys t' = public_keys t \<Longrightarrow> directory t' = directory t"
  unfolding directory_def by (simp add: active_keys_cong [of t' t])

lemma owned_by_cong: "actors t' = actors t \<Longrightarrow> owned_by b t' i = owned_by b t i"
  by (simp add: owned_by_def)

subsection \<open>The active rows after each write\<close>

lemma active_keys_add_actor:
  assumes "wf_tables t" "a_id a \<notin> a_id ` set (actors t)"
  shows "active_keys b (t\<lparr> actors := actors t @ [a] \<rparr>) = active_keys b t"
proof -
  have "owned_by b (t\<lparr> actors := actors t @ [a] \<rparr>) (pk_actor_id k) = owned_by b t (pk_actor_id k)"
    if "k \<in> set (public_keys t)" for k
    using wf_tablesD(5) [OF assms(1) that] assms(2) by (auto simp: owned_by_iff)
  then show ?thesis
    by (auto simp: active_keys_def intro!: filter_cong)
qed

lemma active_keys_add_key:
  "active_keys b (t\<lparr> public_keys := public_keys t @ [key_row i now k] \<rparr>) =
     active_keys b t @ (if owned_by b t (pk_actor_id k) then [key_row i now k] else [])"
  by (simp add: active_keys_def owned_by_def key_row_def)

lemma filter_update_revoked:
  "(\<And>x. q (revoked now root x) = q x) \<Longrightarrow>
   filter (\<lambda>x. q x \<and> pk_revoked_at x = None) (update_where p (revoked now root) ks) =
   filter (\<lambda>x. \<not> p x) (filter (\<lambda>x. q x \<and> pk_revoked_at x = None) ks)"
  by (induction ks) (auto simp: revoked_def)

lemma active_keys_revoke:
  "active_keys b (revoke_keys_where p now root t) = filter (\<lambda>k. \<not> p k) (active_keys b t)"
  by (simp add: active_keys_def revoke_keys_where_def owned_by_def filter_update_revoked revoked_def
      del: filter_filter)

lemma owned_by_rename:
  assumes "wf_tables t" "find_actor new t = None" "old \<noteq> new"
  shows "owned_by b (rename_actor now old new t) i =
    (if b = new then owned_by old t i else if b = old then False else owned_by b t i)"
proof -
  have n: "a_actor_id a \<noteq> new" if "a \<in> set (actors t)" for a
    using assms(2) that by (auto simp: find_actor_None)
  have e: "owned_by b (rename_actor now old new t) i \<longleftrightarrow>
      (\<exists>a \<in> set (actors t). a_id a = i \<and> (if a_actor_id a = old then new = b else a_actor_id a = b))"
    by (simp add: owned_by_def rename_actor_def list_ex_update_where) (auto simp: list_ex_iff)
  show ?thesis
    unfolding e using n assms(3) by (auto simp: owned_by_iff)
qed

lemma active_keys_rename:
  assumes "wf_tables t" "find_actor new t = None" "old \<noteq> new"
  shows "active_keys b (rename_actor now old new t) =
    (if b = new then active_keys old t else if b = old then [] else active_keys b t)"
  using owned_by_rename [OF assms] by (simp add: active_keys_def rename_actor_def)

lemma active_keys_set_fireproof: "active_keys b (set_fireproof now a v t) = active_keys b t"
proof -
  have "owned_by b (set_fireproof now a v t) i = owned_by b t i" for i
    by (simp add: owned_by_def set_fireproof_def list_ex_update_where) (auto simp: list_ex_iff)
  then show ?thesis by (simp add: active_keys_def) (simp add: set_fireproof_def)
qed

lemma forget_frame [simp]:
  "actors (forget_symmetric_keys hs t) = actors t"
  "public_keys (forget_symmetric_keys hs t) = public_keys t"
  by (simp_all add: forget_symmetric_keys_def)

lemma forget_cong: "set hs = set hs' \<Longrightarrow> forget_symmetric_keys hs t = forget_symmetric_keys hs' t"
  by (simp add: forget_symmetric_keys_def)

end
