(* ===== verification/Base64.thy ===== *)
theory Base64
  imports Prelude
begin

section \<open>Base64 as the code uses it\<close>

text \<open>
  Go's \<^verbatim>\<open>encoding/base64\<close> in the two variants the program uses:
  \<^verbatim>\<open>RawURLEncoding\<close> (URL alphabet, no padding), which writes and reads every key,
  signature, symmetric key and key identifier, and \<^verbatim>\<open>StdEncoding\<close> (standard alphabet,
  padded), which the checkpoint scheduler and the HTTP signature check read with.

  The decoder is Go's default, non-strict one: line feeds and carriage returns are skipped
  wherever they stand, and the unused low bits of a last, partial quantum are ignored. So
  several texts decode to the same bytes; the encoder's text is one of them. A decoding
  error carries the offset of the bad character in Go; the model keeps only that there is
  an error.
\<close>

definition std_alphabet :: string where
  "std_alphabet = ''ABCDEFGHIJKLMNOPQRSTUVWXYZabcdefghijklmnopqrstuvwxyz0123456789+/''"

definition url_alphabet :: string where
  "url_alphabet = ''ABCDEFGHIJKLMNOPQRSTUVWXYZabcdefghijklmnopqrstuvwxyz0123456789-_''"

subsection \<open>Sextets\<close>

text \<open>Eight-bit groups regrouped in sixes, most significant bits first.\<close>

fun sextets :: "nat list \<Rightarrow> nat list" where
  "sextets [] = []"
| "sextets [a] = [a div 4, (a mod 4) * 16]"
| "sextets [a, b] = [a div 4, (a mod 4) * 16 + b div 16, (b mod 16) * 4]"
| "sextets (a # b # c # r) =
     [a div 4, (a mod 4) * 16 + b div 16, (b mod 16) * 4 + c div 64, c mod 64] @ sextets r"

fun unsextets :: "nat list \<Rightarrow> nat list option" where
  "unsextets [] = Some []"
| "unsextets [p] = None"
| "unsextets [p, q] = Some [p * 4 + q div 16]"
| "unsextets [p, q, r] = Some [p * 4 + q div 16, (q mod 16) * 16 + r div 4]"
| "unsextets (p # q # r # s # t) =
     map_option (\<lambda>bs. [p * 4 + q div 16, (q mod 16) * 16 + r div 4, (r mod 4) * 64 + s] @ bs)
       (unsextets t)"

lemma sextets_less_64: "\<forall>b \<in> set bs. b < 256 \<Longrightarrow> \<forall>s \<in> set (sextets bs). s < 64"
  by (induction bs rule: sextets.induct) auto

lemma unsextets_sextets: "\<forall>b \<in> set bs. b < 256 \<Longrightarrow> unsextets (sextets bs) = Some bs"
proof (induction bs rule: sextets.induct)
  case (2 a)
  then show ?case by simp
next
  case (3 a b)
  then have "b div 16 < 16" by (simp add: less_mult_imp_div_less)
  then show ?case by simp
next
  case (4 a b c r)
  have "a div 4 * 4 + (a mod 4 * 16 + b div 16) div 16 = a"
    and "(a mod 4 * 16 + b div 16) mod 16 * 16 + (b mod 16 * 4 + c div 64) div 4 = b"
    and "(b mod 16 * 4 + c div 64) mod 4 * 64 + c mod 64 = c"
    using "4.prems" by auto
  with 4 show ?case by simp
qed simp

lemma unsextets_bytes:
  "unsextets ss = Some bs \<Longrightarrow> \<forall>s \<in> set ss. s < 64 \<Longrightarrow> \<forall>b \<in> set bs. b < 256"
proof (induction ss arbitrary: bs rule: unsextets.induct)
  case (5 p q r s t)
  then show ?case by (auto simp: less_Suc_eq_le)
qed auto

lemma length_sextets:
  "length (sextets bs) = 4 * (length bs div 3) + (case length bs mod 3 of 0 \<Rightarrow> 0 | Suc k \<Rightarrow> k + 2)"
proof (induction bs rule: sextets.induct)
  case (4 a b c r)
  have "(3 + length r) div 3 = Suc (length r div 3)" and "(3 + length r) mod 3 = length r mod 3"
    by presburger+
  with 4 show ?case by simp
qed auto

lemma length_unsextets:
  "unsextets ss = Some bs \<Longrightarrow> length bs = length ss * 3 div 4"
proof (induction ss arbitrary: bs rule: unsextets.induct)
  case (5 p q r s t)
  then show ?case by (auto simp: algebra_simps)
qed auto

lemma unsextets_length_mod: "unsextets ss = Some bs \<Longrightarrow> length ss mod 4 \<noteq> 1"
proof (induction ss arbitrary: bs rule: unsextets.induct)
  case (5 p q r s t)
  then have "length t mod 4 \<noteq> 1" by auto
  then show ?case by simp
qed auto

subsection \<open>The alphabets\<close>

text \<open>\<open>decode_char\<close> is the decoder's table: the position of a character in the alphabet.\<close>

fun index_of :: "char \<Rightarrow> string \<Rightarrow> nat option" where
  "index_of c [] = None"
| "index_of c (x # xs) = (if c = x then Some 0 else map_option Suc (index_of c xs))"

lemma index_of_nth: "distinct xs \<Longrightarrow> i < length xs \<Longrightarrow> index_of (xs ! i) xs = Some i"
proof (induction xs arbitrary: i)
  case (Cons x xs)
  then show ?case by (cases i) (auto simp: nth_mem)
qed simp

lemma index_of_Some: "index_of c xs = Some i \<Longrightarrow> i < length xs \<and> xs ! i = c"
  by (induction xs arbitrary: i) (auto split: if_splits)

lemma index_of_None: "index_of c xs = None \<longleftrightarrow> c \<notin> set xs"
  by (induction xs) auto

lemma alphabet_facts [simp]:
  "length std_alphabet = 64" "distinct std_alphabet"
  "length url_alphabet = 64" "distinct url_alphabet"
  by (simp_all add: std_alphabet_def url_alphabet_def)

definition encode_with :: "string \<Rightarrow> bytes \<Rightarrow> string" where
  "encode_with alph b = map (\<lambda>i. alph ! i) (sextets (map unat b))"

definition is_newline :: "char \<Rightarrow> bool" where
  "is_newline c \<longleftrightarrow> of_char c = (10 :: nat) \<or> of_char c = (13 :: nat)"

definition decode_quanta :: "string \<Rightarrow> string \<Rightarrow> bytes option" where
  "decode_quanta alph s =
     (case those (map (\<lambda>c. index_of c alph) s) of
        None \<Rightarrow> None
      | Some ss \<Rightarrow> map_option (map of_nat) (unsextets ss))"

subsection \<open>The two encodings\<close>

definition raw_url_encode :: "bytes \<Rightarrow> string" where
  "raw_url_encode b = encode_with url_alphabet b"

definition raw_url_decode :: "string \<Rightarrow> bytes option" where
  "raw_url_decode s = decode_quanta url_alphabet (filter (\<lambda>c. \<not> is_newline c) s)"

definition pad :: char where
  "pad = CHR ''=''"

definition std_encode :: "bytes \<Rightarrow> string" where
  "std_encode b =
     (let s = encode_with std_alphabet b
      in s @ replicate ((4 - length s mod 4) mod 4) pad)"

text \<open>
  With padding, a partial quantum is only accepted when the padding completes it, at the
  end of the input.
\<close>

definition strip_padding :: "string \<Rightarrow> string" where
  "strip_padding s =
     (if length s mod 4 \<noteq> 0 \<or> s = [] then s
      else if drop (length s - 2) s = [pad, pad] then take (length s - 2) s
      else if last s = pad then butlast s
      else s)"

definition std_decode :: "string \<Rightarrow> bytes option" where
  "std_decode s =
     (let t = filter (\<lambda>c. \<not> is_newline c) s
      in if length t mod 4 \<noteq> 0 then None else decode_quanta std_alphabet (strip_padding t))"

subsection \<open>Writing and reading back\<close>

text \<open>
  The contract of an encoder and its decoder: what is written for a value of the carrier is read
  back as this value. Every reader of such a text can then take it for the value.
\<close>

locale codec =
  fixes enc :: "'a \<Rightarrow> string"
    and dec :: "string \<Rightarrow> 'a option"
    and carrier :: "'a set"
  assumes dec_enc: "a \<in> carrier \<Longrightarrow> dec (enc a) = Some a"
begin

lemma enc_eq_iff: "a \<in> carrier \<Longrightarrow> b \<in> carrier \<Longrightarrow> enc a = enc b \<longleftrightarrow> a = b"
  by (metis dec_enc option.inject)

lemma enc_injective: "inj_on enc carrier"
  by (rule inj_onI) (simp add: enc_eq_iff)

lemma enc_distinct: "set xs \<subseteq> carrier \<Longrightarrow> distinct (map enc xs) \<longleftrightarrow> distinct xs"
  using inj_on_subset [OF enc_injective] by (simp add: distinct_map)

lemma dec_enc_list: "set xs \<subseteq> carrier \<Longrightarrow> those (map dec (map enc xs)) = Some xs"
  by (induction xs) (auto simp: dec_enc)

end

subsection \<open>Encoding and decoding are inverse\<close>

lemma those_map_index:
  "distinct alph \<Longrightarrow> \<forall>i \<in> set ss. i < length alph \<Longrightarrow>
   those (map (\<lambda>c. index_of c alph) (map (\<lambda>i. alph ! i) ss)) = Some ss"
  by (induction ss) (auto simp: index_of_nth)

lemma those_SomeD: "those xs = Some ys \<Longrightarrow> xs = map Some ys"
  by (induction xs arbitrary: ys) (auto split: option.splits)

lemma those_None: "those xs = None \<longleftrightarrow> None \<in> set xs"
  by (induction xs) (auto split: option.splits)

lemma unat_bytes_less [simp]: "\<forall>b \<in> set (map unat (bs :: bytes)). b < 256"
proof -
  have "unat b < 256" for b :: byte
    using unsigned_less [of b] by simp
  then show ?thesis by simp
qed

lemma decode_quanta_encode:
  assumes "distinct alph" and "length alph = 64"
  shows "decode_quanta alph (encode_with alph b) = Some b"
proof -
  have s: "\<forall>i \<in> set (sextets (map unat b)). i < length alph"
    using sextets_less_64 [OF unat_bytes_less [of b]] assms(2) by simp
  show ?thesis
    using unsextets_sextets [OF unat_bytes_less [of b]]
    by (simp only: decode_quanta_def encode_with_def those_map_index [OF assms(1) s] option.case)
       (simp add: comp_def)
qed

lemma encode_with_set:
  assumes "length alph = 64"
  shows "set (encode_with alph b) \<subseteq> set alph"
proof -
  have "\<forall>i \<in> set (sextets (map unat b)). i < length alph"
    using sextets_less_64 [OF unat_bytes_less [of b]] assms by simp
  then show ?thesis by (auto simp: encode_with_def)
qed

lemma no_newline_in_alphabets [simp]:
  "c \<in> set url_alphabet \<Longrightarrow> \<not> is_newline c" "c \<in> set std_alphabet \<Longrightarrow> \<not> is_newline c"
  by (auto simp: url_alphabet_def std_alphabet_def is_newline_def)

lemma raw_url_encode_chars: "set (raw_url_encode b) \<subseteq> set url_alphabet"
  by (simp add: raw_url_encode_def encode_with_set)

lemma raw_url_decode_encode [simp, codec_simps]: "raw_url_decode (raw_url_encode b) = Some b"
proof -
  have "filter (\<lambda>c. \<not> is_newline c) (raw_url_encode b) = raw_url_encode b"
    using raw_url_encode_chars [of b] by (auto simp: filter_id_conv)
  then show ?thesis
    by (simp add: raw_url_decode_def raw_url_encode_def decode_quanta_encode)
qed

lemma length_raw_url_encode:
  "length (raw_url_encode b) =
     4 * (length b div 3) + (case length b mod 3 of 0 \<Rightarrow> 0 | Suc k \<Rightarrow> k + 2)"
  by (simp add: raw_url_encode_def encode_with_def length_sextets)

interpretation raw_url: codec raw_url_encode raw_url_decode UNIV
  by unfold_locales (rule raw_url_decode_encode)

lemma decode_quanta_SomeD:
  assumes "decode_quanta alph s = Some b"
  shows "set s \<subseteq> set alph" "length b = length s * 3 div 4" "length s mod 4 \<noteq> 1"
proof -
  from assms obtain ss where
    ss: "those (map (\<lambda>c. index_of c alph) s) = Some ss" and us: "\<exists>bs. unsextets ss = Some bs \<and> b = map of_nat bs"
    by (auto simp: decode_quanta_def split: option.splits)
  from ss have m: "map (\<lambda>c. index_of c alph) s = map Some ss"
    by (rule those_SomeD)
  have "index_of c alph \<noteq> None" if "c \<in> set s" for c
  proof -
    have "index_of c alph \<in> set (map Some ss)"
      using that m by (metis image_eqI list.set_map)
    then show ?thesis by auto
  qed
  then show "set s \<subseteq> set alph"
    by (auto simp: index_of_None)
  from m have "length s = length ss"
    by (metis length_map)
  with us show "length b = length s * 3 div 4" "length s mod 4 \<noteq> 1"
    by (metis length_map length_unsextets, metis unsextets_length_mod)
qed

lemma raw_url_decode_SomeD:
  assumes "raw_url_decode s = Some b"
  shows "\<forall>c \<in> set s. c \<in> set url_alphabet \<or> is_newline c"
    and "length b = length (filter (\<lambda>c. \<not> is_newline c) s) * 3 div 4"
  using decode_quanta_SomeD [OF assms [unfolded raw_url_decode_def]] by auto

lemma pad_facts [simp]: "pad \<notin> set std_alphabet" "pad \<notin> set url_alphabet" "\<not> is_newline pad"
  by (simp_all add: pad_def std_alphabet_def url_alphabet_def is_newline_def)

lemma length_encode_with_mod: "length (encode_with alph b) mod 4 \<noteq> 1"
proof -
  have "k + 2 < 4" if "length b mod 3 = Suc k" for k
    using that by presburger
  then show ?thesis
    by (auto simp: encode_with_def length_sextets mod_mult_self4 split: nat.split)
qed

lemma strip_padding_encode:
  assumes "set s \<subseteq> set std_alphabet" and "length s mod 4 \<noteq> 1"
  shows "strip_padding (s @ replicate ((4 - length s mod 4) mod 4) pad) = s"
proof -
  consider "length s mod 4 = 0" | "length s mod 4 = 2" | "length s mod 4 = 3"
    using assms(2) by linarith
  then show ?thesis
  proof cases
    case 1
    have "drop (length s - 2) s \<noteq> [pad, pad]"
      using assms(1) by (metis in_set_dropD list.set_intros(1) pad_facts(1) subsetD)
    moreover have "s \<noteq> [] \<Longrightarrow> last s \<noteq> pad"
      using assms(1) last_in_set by force
    ultimately show ?thesis using 1 by (simp add: strip_padding_def)
  next
    case 2
    then have "(length s + 2) mod 4 = 0" by presburger
    with 2 show ?thesis by (simp add: strip_padding_def numeral_2_eq_2)
  next
    case 3
    then have l: "(length s + 1) mod 4 = 0" by presburger
    from 3 have "s \<noteq> []" by auto
    then obtain t x where s: "s = t @ [x]" by (metis append_butlast_last_id)
    with assms(1) have "x \<noteq> pad" by auto
    with 3 l s show ?thesis by (simp add: strip_padding_def butlast_append)
  qed
qed

lemma std_decode_encode [simp, codec_simps]: "std_decode (std_encode b) = Some b"
proof -
  let ?s = "encode_with std_alphabet b"
  let ?p = "replicate ((4 - length ?s mod 4) mod 4) pad"
  have chars: "set ?s \<subseteq> set std_alphabet"
    by (rule encode_with_set) simp
  then have "filter (\<lambda>c. \<not> is_newline c) (?s @ ?p) = ?s @ ?p"
    by (auto simp: filter_id_conv)
  moreover have "(n + (4 - n mod 4) mod 4) mod 4 = 0" for n :: nat
  proof -
    consider "n mod 4 = 0" | "n mod 4 = 1" | "n mod 4 = 2" | "n mod 4 = 3" by linarith
    then show ?thesis by cases (simp_all, presburger+)
  qed
  ultimately show ?thesis
    using strip_padding_encode [OF chars length_encode_with_mod]
    by (simp add: std_decode_def std_encode_def Let_def decode_quanta_encode)
qed

interpretation std: codec std_encode std_decode UNIV
  by unfold_locales (rule std_decode_encode)

text \<open>
  The two encodings reject each other's texts: without its padding, a text whose last
  quantum is partial is not \<^verbatim>\<open>StdEncoding\<close>.
\<close>

lemma std_decode_rejects_unpadded:
  assumes "raw_url_decode s = Some b" and "length b mod 3 \<noteq> 0"
  shows "std_decode s = None"
proof -
  let ?t = "filter (\<lambda>c. \<not> is_newline c) s"
  have len: "length b = length ?t * 3 div 4"
    using assms(1) by (rule raw_url_decode_SomeD)
  have "length ?t mod 4 \<noteq> 0"
  proof
    assume "length ?t mod 4 = 0"
    then obtain k where "length ?t = 4 * k" by (metis mod_0_imp_dvd dvd_def)
    with len have "length b = 3 * k" by simp
    with assms(2) show False by simp
  qed
  then show ?thesis by (simp add: std_decode_def)
qed

end
