(* ===== verification/Signing.thy ===== *)
theory Signing
  imports Base64 Messages
begin

section \<open>Keys and signatures\<close>

text \<open>
  \<^verbatim>\<open>internal/crypto/signing.go\<close> and \<^verbatim>\<open>utils.go\<close>. The cryptographic primitives
  and the JCS canonicalisation are outside the repository: they are the fields of \<open>prims\<close>, an
  argument of every definition that uses them. Random bytes come from \<^verbatim>\<open>rand.Reader\<close>,
  modelled by the bytes it still has to give; \<^verbatim>\<open>io.ReadFull\<close> fails when they run out.
\<close>

record prims =
  ed25519_sign :: "bytes \<Rightarrow> bytes \<Rightarrow> bytes"
  ed25519_verify :: "bytes \<Rightarrow> bytes \<Rightarrow> bytes \<Rightarrow> bool"
  jcs_transform :: "string \<Rightarrow> string result"
  sha256_sum :: "bytes \<Rightarrow> bytes"

text \<open>
  What a user of Ed25519 relies on: \<open>pub\<close> is the public half of the secret key, public keys
  have 32 bytes, and a signature made with the secret key verifies under its public half.
\<close>

definition ed25519_correct :: "prims \<Rightarrow> (bytes \<Rightarrow> bytes) \<Rightarrow> bool" where
  "ed25519_correct P pub \<longleftrightarrow>
     (\<forall>sk m. length sk = 64 \<longrightarrow>
        length (pub sk) = 32 \<and> ed25519_verify P (pub sk) m (ed25519_sign P sk m))"

subsection \<open>Random identifiers and hashes\<close>

definition read_full :: "nat \<Rightarrow> bytes \<Rightarrow> bytes option" where
  "read_full n source = (if length source < n then None else Some (take n source))"

definition entropy_error :: go_error where
  "entropy_error = Sentinel ''unexpected EOF''"

definition GenerateKeyID :: "bytes \<Rightarrow> string result" where
  "GenerateKeyID rand =
     (case read_full 32 rand of
        None \<Rightarrow> Inl (Wrap ''failed to generate random bytes for key-id: '' entropy_error [])
      | Some b \<Rightarrow> Inr (raw_url_encode b))"

definition hex_char :: "nat \<Rightarrow> char" where
  "hex_char n = ''0123456789abcdef'' ! n"

definition hex_encode :: "bytes \<Rightarrow> string" where
  "hex_encode b = concat (map (\<lambda>x. [hex_char (unat x div 16), hex_char (unat x mod 16)]) b)"

definition HashBytes :: "prims \<Rightarrow> bytes \<Rightarrow> string" where
  "HashBytes P d = hex_encode (sha256_sum P d)"

lemma GenerateKeyID_Inr:
  "GenerateKeyID rand = Inr k \<longleftrightarrow> 32 \<le> length rand \<and> k = raw_url_encode (take 32 rand)"
  by (auto simp: GenerateKeyID_def read_full_def)

subsection \<open>Signatures over messages\<close>

definition ErrInvalidSignature :: go_error where
  "ErrInvalidSignature = Sentinel ''invalid signature''"

definition ErrInvalidPublicKey :: go_error where
  "ErrInvalidPublicKey = Sentinel ''invalid public key''"

definition ErrInvalidSecretKey :: go_error where
  "ErrInvalidSecretKey = Sentinel ''invalid secret key''"

text \<open>\<^verbatim>\<open>base64.CorruptInputError\<close>, without the offset it reports.\<close>

definition base64_error :: go_error where
  "base64_error = Errorf ''illegal base64 data''"

text \<open>\<open>None\<close>: \<^verbatim>\<open>ed25519.Sign\<close> panics on a private key that has not 64 bytes.\<close>

definition SignMessage :: "prims \<Rightarrow> bytes \<Rightarrow> bytes \<Rightarrow> string option" where
  "SignMessage P privateKey msgToSign =
     (if length privateKey = 64
      then Some (raw_url_encode (ed25519_sign P privateKey msgToSign)) else None)"

text \<open>The bytes a signature is over: the signed part, canonicalised.\<close>

definition canonical_bytes :: "prims \<Rightarrow> signed_message \<Rightarrow> bytes result" where
  "canonical_bytes P sm =
     (case wrap_error ''failed to marshal signed message for verification'' (marshal_signed sm) of
        Inl e \<Rightarrow> Inl e
      | Inr temp \<Rightarrow>
          (case wrap_error ''failed to canonicalize signed message for verification''
                  (jcs_transform P temp) of
             Inl e \<Rightarrow> Inl e
           | Inr c \<Rightarrow> Inr (bytes_of_string c)))"

text \<open>
  \<^verbatim>\<open>ed25519.Verify\<close> panics on a public key that has not 32 bytes; every key that reaches
  it comes from a decoder that checks the length (\<open>DecodePublicKey_Inr\<close>).
\<close>

definition VerifyMessageSignature :: "prims \<Rightarrow> protocol_message \<Rightarrow> bytes \<Rightarrow> unit result" where
  "VerifyMessageSignature P msg publicKey =
     (case canonical_bytes P (signed_part msg) of
        Inl e \<Rightarrow> Inl e
      | Inr signedMsgBytes \<Rightarrow>
          (case raw_url_decode (pm_signature msg) of
             None \<Rightarrow> Inl (Wrap ''failed to decode signature: '' base64_error [])
           | Some sig \<Rightarrow>
               if ed25519_verify P publicKey signedMsgBytes sig then Inr () else Inl ErrInvalidSignature))"

subsection \<open>Encoded keys\<close>

definition ed25519Prefix :: string where
  "ed25519Prefix = ''ed25519:''"

definition EncodePublicKey :: "bytes \<Rightarrow> string" where
  "EncodePublicKey pk = ed25519Prefix @ raw_url_encode pk"

definition EncodePrivateKey :: "bytes \<Rightarrow> string" where
  "EncodePrivateKey sk = raw_url_encode sk"

definition has_prefix :: "string \<Rightarrow> string \<Rightarrow> bool" where
  "has_prefix s p \<longleftrightarrow> take (length p) s = p"

definition trim_prefix :: "string \<Rightarrow> string \<Rightarrow> string" where
  "trim_prefix s p = (if has_prefix s p then drop (length p) s else s)"

definition DecodePublicKey :: "string \<Rightarrow> bytes result" where
  "DecodePublicKey pkStr =
     (if \<not> has_prefix pkStr ed25519Prefix then Inl (Wrap [] ErrInvalidPublicKey '': missing prefix'')
      else
        (case raw_url_decode (trim_prefix pkStr ed25519Prefix) of
           None \<Rightarrow> Inl (Wrap [] ErrInvalidPublicKey ('': base64 decode failed: '' @ error_text base64_error))
         | Some pkBytes \<Rightarrow>
             if length pkBytes \<noteq> 32 then Inl (Wrap [] ErrInvalidPublicKey '': invalid length'')
             else Inr pkBytes))"

definition DecodeSecretKey :: "string \<Rightarrow> bytes result" where
  "DecodeSecretKey skStr =
     (case raw_url_decode skStr of
        None \<Rightarrow> Inl (Wrap [] ErrInvalidSecretKey ('': base64 decode failed: '' @ error_text base64_error))
      | Some skBytes \<Rightarrow>
          if length skBytes \<noteq> 64 then Inl (Wrap [] ErrInvalidSecretKey '': invalid length'')
          else Inr skBytes)"

subsection \<open>Facts about keys\<close>

lemma has_prefix_append [simp]: "has_prefix (p @ s) p" "trim_prefix (p @ s) p = s"
  by (simp_all add: has_prefix_def trim_prefix_def)

lemma has_prefix_iff: "has_prefix s p \<longleftrightarrow> (\<exists>r. s = p @ r)"
  by (metis append_take_drop_id append_eq_conv_conj has_prefix_def)

lemma DecodePublicKey_Inr:
  "DecodePublicKey s = Inr b \<longleftrightarrow>
     (\<exists>r. s = ed25519Prefix @ r \<and> raw_url_decode r = Some b \<and> length b = 32)"
proof (cases "has_prefix s ed25519Prefix")
  case True
  then obtain r where "s = ed25519Prefix @ r" by (auto simp: has_prefix_iff)
  then show ?thesis
    by (auto simp: DecodePublicKey_def split: option.splits if_splits)
qed (auto simp: DecodePublicKey_def has_prefix_iff)

lemma DecodeSecretKey_Inr: "DecodeSecretKey s = Inr b \<longleftrightarrow> raw_url_decode s = Some b \<and> length b = 64"
  by (auto simp: DecodeSecretKey_def split: option.splits)

lemma verify_Inr:
  "VerifyMessageSignature P msg pk = Inr u \<longleftrightarrow>
     (\<exists>m sig. canonical_bytes P (signed_part msg) = Inr m \<and> raw_url_decode (pm_signature msg) = Some sig \<and>
        ed25519_verify P pk m sig)"
  by (auto simp: VerifyMessageSignature_def split: sum.splits option.splits if_splits)

text \<open>Decoding an encoded public key gives the key back exactly when it has the 32 bytes of an
  Ed25519 key, and the length error otherwise.\<close>

theorem public_key_roundtrip:
  "DecodePublicKey (EncodePublicKey pk) = (if length pk = 32 then Inr pk
     else Inl (Wrap [] ErrInvalidPublicKey '': invalid length''))"
  by (simp add: DecodePublicKey_def EncodePublicKey_def)

text \<open>Likewise for the 64 bytes of a private key.\<close>

theorem secret_key_roundtrip:
  "DecodeSecretKey (EncodePrivateKey sk) = (if length sk = 64 then Inr sk
     else Inl (Wrap [] ErrInvalidSecretKey '': invalid length''))"
  by (simp add: DecodeSecretKey_def EncodePrivateKey_def)

text \<open>So both are codecs, and distinct keys have distinct texts.\<close>

definition read_public_key :: "string \<Rightarrow> bytes option" where
  "read_public_key s = (case DecodePublicKey s of Inl _ \<Rightarrow> None | Inr pk \<Rightarrow> Some pk)"

definition read_secret_key :: "string \<Rightarrow> bytes option" where
  "read_secret_key s = (case DecodeSecretKey s of Inl _ \<Rightarrow> None | Inr sk \<Rightarrow> Some sk)"

interpretation public_keys: codec EncodePublicKey read_public_key "{pk. length pk = 32}"
  by unfold_locales (simp add: read_public_key_def public_key_roundtrip)

interpretation secret_keys: codec EncodePrivateKey read_secret_key "{sk. length sk = 64}"
  by unfold_locales (simp add: read_secret_key_def secret_key_roundtrip)

text \<open>C23. A message signed over its canonical bytes verifies under the signer's public key.\<close>

theorem sign_then_verify:
  assumes "ed25519_correct P pub" "length sk = 64"
    and "canonical_bytes P (signed_part msg) = Inr m" "SignMessage P sk m = Some sig"
  shows "VerifyMessageSignature P (msg\<lparr> pm_signature := sig \<rparr>) (pub sk) = Inr ()"
proof -
  have s: "signed_part (msg\<lparr> pm_signature := sig \<rparr>) = signed_part msg"
    by (simp add: signed_part_def)
  from assms show ?thesis
    by (auto simp: verify_Inr s SignMessage_def ed25519_correct_def split: if_splits)
qed


end
