(* ===== verification/Service.thy ===== *)
theory Service
  imports Database Directory Signing
begin

section \<open>The domain service\<close>

text \<open>
  \<^verbatim>\<open>internal/domain/service.go\<close>: one transaction per protocol action, over any back
  end. Each function is written once over a \<open>repo\<close> record; its refinement lemma is proved in
  the context of the contract \<open>repository\<close>, and so holds for both back ends. The lemma says that
  the call changes the committed tables as the action's table relation says or, when it returns
  an error, not at all.

  The entropy a call may use is an argument; the registry of auxiliary-data validators is a map
  from a type's name to its validator.
\<close>

subsection \<open>Transactions\<close>

text \<open>
  \<^verbatim>\<open>BeginTx\<close>, the body, and the deferred \<^verbatim>\<open>Rollback\<close>, whose error is only logged:
  after a commit it does nothing.
\<close>

definition with_tx :: "'s repo \<Rightarrow> ('s, 'a) op \<Rightarrow> ('s, 'a) op" where
  "with_tx R body =
     bind_op (wrapping ''failed to begin transaction'' (BeginTx R))
       (\<lambda>_ s. case body s of (r, s1) \<Rightarrow> (r, snd (Rollback R s1)))"

text \<open>\<^verbatim>\<open>if len(symKeys) > 0 { tx.StoreSymmetricKeys(...) }\<close>.\<close>

definition store_if_any :: "'s repo \<Rightarrow> string \<Rightarrow> string \<Rightarrow> (string \<times> bytes) list \<Rightarrow> ('s, unit) op" where
  "store_if_any R msg merkleRoot symKeys =
     (if symKeys \<noteq> [] then wrapping msg (StoreSymmetricKeys R merkleRoot symKeys) else return_op ())"

definition reject :: "bool \<Rightarrow> go_error \<Rightarrow> ('s, unit) op" where
  "reject bad e = (if bad then fail_op e else return_op ())"

subsection \<open>Validators of auxiliary data\<close>

type_synonym aux_registry = "string \<Rightarrow> (string \<Rightarrow> unit result) option"

text \<open>\<^verbatim>\<open>NewPKDService\<close>: a later validator replaces an earlier one of the same type.\<close>

fun NewPKDService :: "(string \<times> (string \<Rightarrow> unit result)) list \<Rightarrow> aux_registry" where
  "NewPKDService [] = (\<lambda>_. None)"
| "NewPKDService ((ty, validate) # vs) =
     (\<lambda>t. case NewPKDService vs t of None \<Rightarrow> if t = ty then Some validate else None | Some v \<Rightarrow> Some v)"

text \<open>The parsers of the two key formats come from third-party packages.\<close>

definition AgeValidator :: "(string \<Rightarrow> unit result) \<Rightarrow> string \<times> (string \<Rightarrow> unit result)" where
  "AgeValidator parse = (''age-v1'', \<lambda>s. case parse s of
      Inl e \<Rightarrow> Inl (Wrap ''invalid age public key: '' e []) | Inr _ \<Rightarrow> Inr ())"

text \<open>
  \<^verbatim>\<open>strings.TrimSpace\<close> on ASCII white space; the two white-space characters above ASCII
  that UTF-8 text could carry (\<^verbatim>\<open>U+0085\<close>, \<^verbatim>\<open>U+00A0\<close> and wider ones) are left in place.
\<close>

definition ascii_space :: "char \<Rightarrow> bool" where
  "ascii_space c \<longleftrightarrow> (of_char c :: nat) \<in> {9, 10, 11, 12, 13, 32}"

definition trim_space :: "string \<Rightarrow> string" where
  "trim_space s = rev (dropWhile ascii_space (rev (dropWhile ascii_space s)))"

definition SSHValidator :: "(string \<Rightarrow> unit result) \<Rightarrow> string \<times> (string \<Rightarrow> unit result)" where
  "SSHValidator parse = (''ssh-v2'', \<lambda>s. case parse (trim_space s) of
      Inl e \<Rightarrow> Inl (Wrap ''invalid ssh public key: '' e []) | Inr _ \<Rightarrow> Inr ())"

subsection \<open>The actions\<close>

definition new_public_key :: "nat \<Rightarrow> string \<Rightarrow> string \<Rightarrow> string \<Rightarrow> public_key" where
  "new_public_key actor keyID publicKey merkleRoot =
     \<lparr> pk_id = 0, pk_actor_id = actor, pk_key_id = keyID, pk_public_key = publicKey, pk_created_at = 0,
       pk_merkle_root = merkleRoot, pk_revoked_at = None, pk_revoke_root = None, pk_inclusion_proof = [] \<rparr>"

definition ProcessAddKey ::
  "'s repo \<Rightarrow> bytes \<Rightarrow> add_key_message \<Rightarrow> string \<Rightarrow> (string \<times> bytes) list \<Rightarrow> ('s, public_key) op" where
  "ProcessAddKey R rand msg merkleRoot symKeys =
     with_tx R
       (bind_op (wrapping ''failed to get or create actor'' (GetOrCreateActor R (ak_actor msg))) (\<lambda>actor.
        bind_op (wrapping ''failed to generate key ID'' (lift_op (GenerateKeyID rand))) (\<lambda>keyID.
        bind_op (wrapping ''failed to insert public key''
                   (InsertPublicKey R (new_public_key (a_id actor) keyID (ak_public_key msg) merkleRoot))) (\<lambda>insertedKey.
        bind_op (store_if_any R ''failed to store symmetric keys'' merkleRoot symKeys) (\<lambda>_.
        bind_op (wrapping ''failed to commit transaction'' (Commit R)) (\<lambda>_.
        return_op insertedKey))))))"

definition ProcessRevokeKey ::
  "'s repo \<Rightarrow> revoke_key_message \<Rightarrow> string \<Rightarrow> (string \<times> bytes) list \<Rightarrow> ('s, unit) op" where
  "ProcessRevokeKey R msg merkleRoot symKeys =
     with_tx R
       (bind_op (wrapping ''failed to find key to revoke''
                   (FindKeyToRevoke R (rk_actor msg) (rk_public_key msg))) (\<lambda>keyToRevoke.
        case keyToRevoke of
          None \<Rightarrow> fail_op (Errorf (''key to revoke not found or already revoked: '' @ rk_public_key msg))
        | Some k \<Rightarrow>
            bind_op (wrapping ''failed to revoke key'' (RevokeKey R (pk_id k) merkleRoot)) (\<lambda>_.
            bind_op (store_if_any R ''failed to store symmetric keys for revocation'' merkleRoot symKeys) (\<lambda>_.
            Commit R))))"

text \<open>The payload's time is not used, and neither is the root: a renamed actor carries none.\<close>

definition ProcessMoveIdentity :: "'s repo \<Rightarrow> move_identity_message \<Rightarrow> string \<Rightarrow> ('s, unit) op" where
  "ProcessMoveIdentity R msg merkleRoot =
     with_tx R
       (bind_op (wrapping ''failed to check for existing new actor ID'' (ActorExists R (mi_new_actor msg))) (\<lambda>exists.
        bind_op (reject exists
                   (Errorf (''cannot move identity, new actor ID already exists: '' @ mi_new_actor msg))) (\<lambda>_.
        bind_op (wrapping ''failed to update actor ID''
                   (UpdateActorID R (mi_old_actor msg) (mi_new_actor msg))) (\<lambda>rowsAffected.
        bind_op (reject (rowsAffected = 0) (Errorf (''actor to move not found: '' @ mi_old_actor msg))) (\<lambda>_.
        Commit R)))))"

definition ErrActorNotFound :: go_error where
  "ErrActorNotFound = Sentinel ''actor not found''"

definition ProcessBurnDown :: "'s repo \<Rightarrow> string \<Rightarrow> string \<Rightarrow> ('s, unit) op" where
  "ProcessBurnDown R actorID merkleRoot =
     with_tx R
       (bind_op (wrapping ''failed to find actor for burn down'' (TxFindActorByActorID R actorID)) (\<lambda>found.
        case found of
          None \<Rightarrow> fail_op ErrActorNotFound
        | Some actor \<Rightarrow>
            bind_op (wrapping ''failed to gather message hashes'' (GetMessageHashesForActor R (a_id actor)))
              (\<lambda>messageHashes.
            bind_op (if messageHashes \<noteq> []
                     then wrapping ''failed to delete symmetric keys'' (DeleteSymmetricKeysByHashes R messageHashes)
                     else return_op ()) (\<lambda>_.
            bind_op (wrapping ''failed to revoke all keys for actor''
                       (RevokeAllKeysForActor R (a_id actor) merkleRoot)) (\<lambda>_.
            Commit R)))))"

text \<open>\<open>unixNano\<close> is \<^verbatim>\<open>time.Now().UnixNano()\<close>.\<close>

definition CryptoShred :: "'s repo \<Rightarrow> nat \<Rightarrow> string \<Rightarrow> ('s, unit) op" where
  "CryptoShred R unixNano actorID =
     ProcessBurnDown R actorID (''admin-shred-'' @ actorID @ ''-'' @ decimal unixNano)"

definition new_auxiliary_data :: "nat \<Rightarrow> string \<Rightarrow> add_aux_data_message \<Rightarrow> string \<Rightarrow> nat \<Rightarrow> auxiliary_data" where
  "new_auxiliary_data actor auxID msg merkleRoot now =
     \<lparr> ad_id = 0, ad_actor_id = actor, ad_aux_id = auxID, ad_aux_type = aa_aux_type msg,
       ad_aux_data = aa_aux_data msg, ad_created_at = now, ad_merkle_root = merkleRoot,
       ad_revoked_at = None, ad_revoke_root = None \<rparr>"

definition ProcessAddAuxData ::
  "'s repo \<Rightarrow> aux_registry \<Rightarrow> bytes \<Rightarrow> nat \<Rightarrow> add_aux_data_message \<Rightarrow> string \<Rightarrow> ('s, auxiliary_data) op" where
  "ProcessAddAuxData R reg rand now msg merkleRoot =
     bind_op
       (case reg (aa_aux_type msg) of
          None \<Rightarrow> return_op ()
        | Some validate \<Rightarrow>
            wrapping ''auxiliary data validation failed'' (lift_op (validate (aa_aux_data msg))))
       (\<lambda>_. with_tx R
          (bind_op (GetOrCreateActor R (aa_actor msg)) (\<lambda>actor.
           bind_op (wrapping ''failed to generate aux ID'' (lift_op (GenerateKeyID rand))) (\<lambda>auxID.
           bind_op (wrapping ''failed to insert auxiliary data''
                      (InsertAuxData R (new_auxiliary_data (a_id actor) auxID msg merkleRoot now))) (\<lambda>insertedAux.
           bind_op (Commit R) (\<lambda>_. return_op insertedAux))))))"

definition ProcessRevokeAuxData :: "'s repo \<Rightarrow> revoke_aux_data_message \<Rightarrow> string \<Rightarrow> ('s, unit) op" where
  "ProcessRevokeAuxData R msg merkleRoot =
     with_tx R
       (bind_op (wrapping ''failed to revoke auxiliary data''
                   (RevokeAuxData R (ra_actor msg) (ra_aux_id msg) merkleRoot)) (\<lambda>rowsAffected.
        bind_op (reject (rowsAffected = 0)
                   (Errorf (''auxiliary data not found or already revoked: '' @ ra_aux_id msg))) (\<lambda>_.
        Commit R)))"

subsection \<open>What each action does to the tables\<close>

definition add_key_spec ::
  "bytes \<Rightarrow> add_key_message \<Rightarrow> string \<Rightarrow> (string \<times> bytes) list \<Rightarrow> public_key table_spec" where
  "add_key_spec rand msg root symKeys t k t' \<longleftrightarrow>
     (\<exists>a t1 keyID t2. get_or_create_spec (ak_actor msg) t a t1 \<and> GenerateKeyID rand = Inr keyID \<and>
        inserted_key_spec (new_public_key (a_id a) keyID (ak_public_key msg) root) t1 k t2 \<and>
        store_symmetric_keys_spec root symKeys t2 () t')"

definition revoke_spec ::
  "revoke_key_message \<Rightarrow> string \<Rightarrow> (string \<times> bytes) list \<Rightarrow> unit table_spec" where
  "revoke_spec msg root symKeys t u t' \<longleftrightarrow>
     (\<exists>k \<in> set (public_keys t). key_matches (rk_actor msg) (rk_public_key msg) t k \<and>
        (\<exists>t1. revoke_key_spec (pk_id k) root t () t1 \<and> store_symmetric_keys_spec root symKeys t1 () t'))"

definition move_spec :: "move_identity_message \<Rightarrow> unit table_spec" where
  "move_spec msg t u t' \<longleftrightarrow>
     find_actor (mi_new_actor msg) t = None \<and> find_actor (mi_old_actor msg) t \<noteq> None \<and>
     (\<exists>now. t' = rename_actor now (mi_old_actor msg) (mi_new_actor msg) t)"

definition burn_spec :: "string \<Rightarrow> string \<Rightarrow> unit table_spec" where
  "burn_spec actorID root t u t' \<longleftrightarrow>
     (\<exists>a now. find_actor actorID t = Some a \<and>
        t' = revoke_keys_where (\<lambda>k. pk_actor_id k = a_id a \<and> pk_revoked_at k = None) now root
               (forget_symmetric_keys (key_roots (a_id a) t) t))"

definition add_aux_spec ::
  "aux_registry \<Rightarrow> bytes \<Rightarrow> nat \<Rightarrow> add_aux_data_message \<Rightarrow> string \<Rightarrow> auxiliary_data table_spec" where
  "add_aux_spec reg rand now msg root t d t' \<longleftrightarrow>
     (case reg (aa_aux_type msg) of None \<Rightarrow> True | Some v \<Rightarrow> v (aa_aux_data msg) = Inr ()) \<and>
     (\<exists>a t1 auxID. get_or_create_spec (aa_actor msg) t a t1 \<and> GenerateKeyID rand = Inr auxID \<and>
        inserted_aux_spec (new_auxiliary_data (a_id a) auxID msg root now) t1 d t')"

definition revoke_aux_action_spec :: "revoke_aux_data_message \<Rightarrow> string \<Rightarrow> unit table_spec" where
  "revoke_aux_action_spec msg root t u t' \<longleftrightarrow>
     filter (aux_to_revoke (ra_actor msg) (ra_aux_id msg) t) (auxiliary_data_rows t) \<noteq> [] \<and>
     (\<exists>now. t' = revoke_aux_where (aux_to_revoke (ra_actor msg) (ra_aux_id msg) t) now root t)"

subsection \<open>Bodies of transactions\<close>

text \<open>
  A body starts inside a transaction and may end it: if it succeeds it has committed, if it
  fails it has not.
\<close>

definition body_ok ::
  "('s \<Rightarrow> bool) \<Rightarrow> ('s \<Rightarrow> tables) \<Rightarrow> ('s \<Rightarrow> tables option) \<Rightarrow> 'a table_spec \<Rightarrow> ('s, 'a) op \<Rightarrow> bool" where
  "body_ok good committed pending P f \<longleftrightarrow>
     (\<forall>s t. good s \<longrightarrow> pending s = Some t \<longrightarrow>
        (case f s of (r, s') \<Rightarrow>
           good s' \<and>
           (case r of Inl _ \<Rightarrow> committed s' = committed s | Inr x \<Rightarrow> P t x (committed s'))))"

lemma body_okI:
  assumes "\<And>s t r s'. good s \<Longrightarrow> pending s = Some t \<Longrightarrow> f s = (r, s') \<Longrightarrow>
    good s' \<and> (case r of Inl _ \<Rightarrow> committed s' = committed s | Inr x \<Rightarrow> P t x (committed s'))"
  shows "body_ok good committed pending P f"
  unfolding body_ok_def
proof (intro allI impI)
  fix s t
  assume a: "good s" "pending s = Some t"
  obtain r s' where e: "f s = (r, s')" by (cases "f s")
  from assms [OF a e] e
  show "case f s of (r, s') \<Rightarrow> good s' \<and>
      (case r of Inl _ \<Rightarrow> committed s' = committed s | Inr x \<Rightarrow> P t x (committed s'))"
    by simp
qed

lemma body_okD:
  assumes "body_ok good committed pending P f" "good s" "pending s = Some t" "f s = (r, s')"
  shows "good s' \<and> (case r of Inl _ \<Rightarrow> committed s' = committed s | Inr x \<Rightarrow> P t x (committed s'))"
  using assms(1) [unfolded body_ok_def, rule_format, OF assms(2,3)] assms(4) by simp

lemma body_ok_weaken:
  "body_ok good committed pending P f \<Longrightarrow> (\<And>t x t'. P t x t' \<Longrightarrow> Q t x t') \<Longrightarrow>
   body_ok good committed pending Q f"
  by (rule body_okI, drule (3) body_okD) (auto split: sum.splits)

lemma body_ok_fail: "body_ok good committed pending P (fail_op e)"
  by (rule body_okI) (auto simp: fail_op_def)

lemma body_ok_bind:
  assumes f: "tx_ok good committed pending P f" and g: "\<And>x. body_ok good committed pending (Q x) (g x)"
  shows "body_ok good committed pending (\<lambda>t y t''. \<exists>x t'. P t x t' \<and> Q x t' y t'') (bind_op f g)"
proof (rule body_okI)
  fix s t r s''
  assume a: "good s" "pending s = Some t" and e: "bind_op f g s = (r, s'')"
  obtain r1 s1 where f1: "f s = (r1, s1)" by (cases "f s")
  note l1 = tx_okD [OF f a f1]
  show "good s'' \<and> (case r of Inl _ \<Rightarrow> committed s'' = committed s
      | Inr y \<Rightarrow> \<exists>x t'. P t x t' \<and> Q x t' y (committed s''))"
  proof (cases r1)
    case (Inl err)
    with e f1 l1 show ?thesis by (auto simp: bind_op_def)
  next
    case (Inr x)
    with l1 obtain t' where t': "good s1" "committed s1 = committed s" "pending s1 = Some t'" "P t x t'"
      by auto
    from e f1 Inr have g1: "g x s1 = (r, s'')" by (simp add: bind_op_def)
    from body_okD [OF g t'(1,3) g1] t'(2,4) show ?thesis by (auto split: sum.splits)
  qed
qed

lemma tx_ok_reject: "tx_ok good committed pending (\<lambda>t u t'. \<not> bad \<and> t' = t) (reject bad e)"
  by (rule tx_okI) (auto simp: reject_def op_defs split: if_splits)

lemma conn_ok_guard:
  assumes "conn_ok good committed pending P f"
  shows "conn_ok good committed pending (\<lambda>t x t'. r = Inr () \<and> P t x t') (bind_op (lift_op r) (\<lambda>_. f))"
proof (rule conn_okI)
  fix s r' s'
  assume a: "good s" "pending s = None" and e: "bind_op (lift_op r) (\<lambda>_. f) s = (r', s')"
  show "good s' \<and> pending s' = None \<and>
    (case r' of Inl _ \<Rightarrow> committed s' = committed s
     | Inr x \<Rightarrow> r = Inr () \<and> P (committed s) x (committed s'))"
  proof (cases r)
    case (Inr u)
    with e have "f s = (r', s')" by (simp add: op_defs)
    from conn_okD [OF assms a this] Inr show ?thesis by (auto split: sum.splits)
  qed (use a e in \<open>auto simp: op_defs\<close>)
qed

subsection \<open>The actions meet their specification, over any back end\<close>

context repository
begin

lemma body_commit: "body_ok good committed pending (\<lambda>t u t'. t' = t) (Commit R)"
  by (rule body_okI, drule (2) commit) (auto split: sum.splits)

lemma body_commit_return:
  "body_ok good committed pending (\<lambda>t y t'. y = x \<and> t' = t) (bind_op (Commit R) (\<lambda>_. return_op x))"
proof (rule body_okI)
  fix s t r s'
  assume a: "good s" "pending s = Some t" "bind_op (Commit R) (\<lambda>_. return_op x) s = (r, s')"
  obtain r1 s1 where c: "Commit R s = (r1, s1)" by (cases "Commit R s")
  from commit [OF a(1,2) c] a(3) c
  show "good s' \<and> (case r of Inl _ \<Rightarrow> committed s' = committed s | Inr y \<Rightarrow> y = x \<and> committed s' = t)"
    by (auto simp: op_defs split: sum.splits)
qed

lemma body_wrapped_commit:
  "body_ok good committed pending (\<lambda>t y t'. y = x \<and> t' = t)
     (bind_op (wrapping m (Commit R)) (\<lambda>_. return_op x))"
proof (rule body_okI)
  fix s t r s'
  assume a: "good s" "pending s = Some t" "bind_op (wrapping m (Commit R)) (\<lambda>_. return_op x) s = (r, s')"
  obtain r1 s1 where c: "Commit R s = (r1, s1)" by (cases "Commit R s")
  from commit [OF a(1,2) c] a(3) c
  show "good s' \<and> (case r of Inl _ \<Rightarrow> committed s' = committed s | Inr y \<Rightarrow> y = x \<and> committed s' = t)"
    by (auto simp: op_defs wrap_error_def split: sum.splits)
qed

lemma with_tx_ok:
  assumes "body_ok good committed pending P body"
  shows "conn_ok good committed pending P (with_tx R body)"
proof (rule conn_okI)
  fix s r s'
  assume a: "good s" "pending s = None" and e: "with_tx R body s = (r, s')"
  obtain rb sb where b: "BeginTx R s = (rb, sb)" by (cases "BeginTx R s")
  note bt = begin_tx [OF a b]
  show "good s' \<and> pending s' = None \<and>
    (case r of Inl _ \<Rightarrow> committed s' = committed s | Inr x \<Rightarrow> P (committed s) x (committed s'))"
  proof (cases rb)
    case (Inl err)
    with e b bt show ?thesis by (auto simp: with_tx_def op_defs)
  next
    case (Inr u)
    with bt have sb: "good sb" "committed sb = committed s" "pending sb = Some (committed s)" by auto
    obtain r1 s1 where f: "body sb = (r1, s1)" by (cases "body sb")
    note l = body_okD [OF assms sb(1,3) f]
    obtain r2 s2 where rb2: "Rollback R s1 = (r2, s2)" by (cases "Rollback R s1")
    from rollback [OF _ rb2] l have s2: "good s2 \<and> pending s2 = None \<and> committed s2 = committed s1"
      by simp
    from e b Inr f rb2 have "r = r1" "s' = s2" by (auto simp: with_tx_def op_defs)
    with s2 l sb(2) show ?thesis by (auto split: sum.splits)
  qed
qed

lemma store_if_any_ok:
  "tx_ok good committed pending (store_symmetric_keys_spec root symKeys) (store_if_any R m root symKeys)"
proof (cases "symKeys = []")
  case True
  show ?thesis
    unfolding True store_if_any_def
    by simp (rule tx_ok_weaken, rule tx_ok_return, simp add: store_symmetric_keys_spec_def sym_rows_def)
qed (simp add: store_if_any_def tx_ok_wrapping store_symmetric_keys)

lemma add_key_ok:
  "conn_ok good committed pending (add_key_spec rand msg root symKeys) (ProcessAddKey R rand msg root symKeys)"
  unfolding ProcessAddKey_def
  by (rule with_tx_ok, rule body_ok_weaken,
      rule body_ok_bind [OF tx_ok_wrapping [OF get_or_create]],
      rule body_ok_bind [OF tx_ok_wrapping [OF tx_ok_lift]],
      rule body_ok_bind [OF tx_ok_wrapping [OF insert_public_key]],
      rule body_ok_bind [OF store_if_any_ok],
      rule body_wrapped_commit)
    (auto simp: add_key_spec_def)

lemma process_revoke_ok:
  "conn_ok good committed pending (revoke_spec msg root symKeys) (ProcessRevokeKey R msg root symKeys)"
  unfolding ProcessRevokeKey_def
proof (rule with_tx_ok, rule body_ok_weaken, rule body_ok_bind [OF tx_ok_wrapping [OF find_key_to_revoke]])
  let ?Q = "\<lambda>x t u t'. \<exists>f. x = Some f \<and>
    (\<exists>t1. revoke_key_spec (pk_id f) root t () t1 \<and> store_symmetric_keys_spec root symKeys t1 () t')"
  show "body_ok good committed pending (?Q x)
      (case x of
         None \<Rightarrow> fail_op (Errorf (''key to revoke not found or already revoked: '' @ rk_public_key msg))
       | Some k \<Rightarrow>
           bind_op (wrapping ''failed to revoke key'' (RevokeKey R (pk_id k) root)) (\<lambda>_.
           bind_op (store_if_any R ''failed to store symmetric keys for revocation'' root symKeys) (\<lambda>_.
           Commit R)))" for x
    by (cases x)
      (simp_all add: body_ok_fail,
       rule body_ok_weaken, rule body_ok_bind [OF tx_ok_wrapping [OF revoke_key]],
       rule body_ok_bind [OF store_if_any_ok], rule body_commit, auto)
qed (clarsimp simp: revoke_spec_def key_to_revoke_spec_def, metis)

lemma move_identity_ok:
  "conn_ok good committed pending (move_spec msg) (ProcessMoveIdentity R msg root)"
  unfolding ProcessMoveIdentity_def
  by (rule with_tx_ok, rule body_ok_weaken,
      rule body_ok_bind [OF tx_ok_wrapping [OF actor_exists]],
      rule body_ok_bind [OF tx_ok_reject],
      rule body_ok_bind [OF tx_ok_wrapping [OF update_actor_id]],
      rule body_ok_bind [OF tx_ok_reject],
      rule body_commit)
    (auto simp: move_spec_def query_spec_def update_actor_id_spec_def split: if_splits)

lemma burn_down_ok:
  "conn_ok good committed pending (burn_spec actorID root) (ProcessBurnDown R actorID root)"
  unfolding ProcessBurnDown_def
proof (rule with_tx_ok, rule body_ok_weaken, rule body_ok_bind [OF tx_ok_wrapping [OF tx_find_actor]])
  let ?Q = "\<lambda>x t u t'. \<exists>a hs. x = Some a \<and> set hs = set (key_roots (a_id a) t) \<and>
    revoke_all_keys_spec (a_id a) root (forget_symmetric_keys hs t) () t'"
  have del: "tx_ok good committed pending (delete_symmetric_keys_spec hs)
      (if hs \<noteq> [] then wrapping m (DeleteSymmetricKeysByHashes R hs) else return_op ())" for hs m
  proof (cases "hs = []")
    case True
    show ?thesis
      unfolding True
      by simp (rule tx_ok_weaken, rule tx_ok_return,
          simp add: delete_symmetric_keys_spec_def forget_symmetric_keys_def)
  qed (simp add: tx_ok_wrapping delete_symmetric_keys)
  show "body_ok good committed pending (?Q x)
      (case x of
         None \<Rightarrow> fail_op ErrActorNotFound
       | Some actor \<Rightarrow>
           bind_op (wrapping ''failed to gather message hashes'' (GetMessageHashesForActor R (a_id actor)))
             (\<lambda>messageHashes.
           bind_op (if messageHashes \<noteq> []
                    then wrapping ''failed to delete symmetric keys'' (DeleteSymmetricKeysByHashes R messageHashes)
                    else return_op ()) (\<lambda>_.
           bind_op (wrapping ''failed to revoke all keys for actor''
                      (RevokeAllKeysForActor R (a_id actor) root)) (\<lambda>_.
           Commit R))))" for x
    by (cases x)
      (simp_all only: option.case body_ok_fail,
       rule body_ok_weaken, rule body_ok_bind [OF tx_ok_wrapping [OF get_message_hashes]],
       rule body_ok_bind [OF del], rule body_ok_bind [OF tx_ok_wrapping [OF revoke_all_keys]],
       rule body_commit, auto simp: delete_symmetric_keys_spec_def)
qed (auto simp: burn_spec_def query_spec_def revoke_all_keys_spec_def cong: forget_cong)

lemma add_aux_data_ok:
  "conn_ok good committed pending (add_aux_spec reg rand now msg root)
     (ProcessAddAuxData R reg rand now msg root)"
proof -
  let ?b = "with_tx R
          (bind_op (GetOrCreateActor R (aa_actor msg)) (\<lambda>actor.
           bind_op (wrapping ''failed to generate aux ID'' (lift_op (GenerateKeyID rand))) (\<lambda>auxID.
           bind_op (wrapping ''failed to insert auxiliary data''
                      (InsertAuxData R (new_auxiliary_data (a_id actor) auxID msg root now))) (\<lambda>insertedAux.
           bind_op (Commit R) (\<lambda>_. return_op insertedAux)))))"
  let ?r = "case reg (aa_aux_type msg) of None \<Rightarrow> Inr ()
    | Some v \<Rightarrow> wrap_error ''auxiliary data validation failed'' (v (aa_aux_data msg))"
  have b: "conn_ok good committed pending
      (\<lambda>t d t'. \<exists>a t1 auxID. get_or_create_spec (aa_actor msg) t a t1 \<and> GenerateKeyID rand = Inr auxID \<and>
        inserted_aux_spec (new_auxiliary_data (a_id a) auxID msg root now) t1 d t') ?b"
    by (rule with_tx_ok, rule body_ok_weaken,
        rule body_ok_bind [OF get_or_create],
        rule body_ok_bind [OF tx_ok_wrapping [OF tx_ok_lift]],
        rule body_ok_bind [OF tx_ok_wrapping [OF insert_aux_data]],
        rule body_commit_return)
      auto
  have "ProcessAddAuxData R reg rand now msg root = bind_op (lift_op ?r) (\<lambda>_. ?b)"
    by (auto simp: ProcessAddAuxData_def op_defs fun_eq_iff split: option.split)
  then show ?thesis
    by (simp only:) (rule conn_ok_weaken [OF conn_ok_guard [OF b]],
      auto simp: add_aux_spec_def split: option.splits)
qed

lemma revoke_aux_data_ok:
  "conn_ok good committed pending (revoke_aux_action_spec msg root) (ProcessRevokeAuxData R msg root)"
  unfolding ProcessRevokeAuxData_def
  by (rule with_tx_ok, rule body_ok_weaken,
      rule body_ok_bind [OF tx_ok_wrapping [OF revoke_aux_data]],
      rule body_ok_bind [OF tx_ok_reject],
      rule body_commit)
    (auto simp: revoke_aux_action_spec_def revoke_aux_spec_def)

end

end
