(* ===== verification/Effects.thy ===== *)
theory Effects
  imports Service
begin

section \<open>The actions as operations of the directory\<close>

text \<open>
  The table relations of the domain service, read through the abstraction \<open>directory\<close>: adding,
  revoking, moving and burning keys are the abstract operations of the same name, and each
  leaves the rest of the tables alone. The refinement theorems at the end say so of the service
  functions themselves, over the database.
\<close>

subsection \<open>Getting or creating an actor\<close>

lemma get_or_create_effect:
  assumes wf: "wf_tables t" and g: "get_or_create_spec b t a t1"
  shows "wf_tables t1" "find_actor b t1 = Some a" "public_keys t1 = public_keys t"
    "auxiliary_data_rows t1 = auxiliary_data_rows t" "symmetric_keys t1 = symmetric_keys t"
    "message_logs t1 = message_logs t" "totp_secrets t1 = totp_secrets t"
    "active_keys c t1 = active_keys c t"
proof -
  have "wf_tables t1 \<and> find_actor b t1 = Some a \<and> public_keys t1 = public_keys t \<and>
    auxiliary_data_rows t1 = auxiliary_data_rows t \<and> symmetric_keys t1 = symmetric_keys t \<and>
    message_logs t1 = message_logs t \<and> totp_secrets t1 = totp_secrets t \<and>
    active_keys c t1 = active_keys c t"
  proof (cases "find_actor b t = Some a \<and> t1 = t")
    case True
    with wf show ?thesis by simp
  next
    case False
    with g have n: "find_actor b t = None" "a_id a \<notin> a_id ` set (actors t)" "a_actor_id a = b"
      and t1: "t1 = t\<lparr> actors := actors t @ [a] \<rparr>"
      by (auto simp: get_or_create_spec_def insert_actor_spec_def new_actor_def)
    have "wf_tables t1"
      unfolding t1 using wf n by (intro wf_add_actor) (simp_all add: find_actor_None)
    moreover have "find_actor b t1 = Some a"
      using n by (simp add: t1 find_actor_def find_append)
    ultimately show ?thesis
      using active_keys_add_actor [OF wf n(2)] by (simp add: t1)
  qed
  then show "wf_tables t1" "find_actor b t1 = Some a" "public_keys t1 = public_keys t"
    "auxiliary_data_rows t1 = auxiliary_data_rows t" "symmetric_keys t1 = symmetric_keys t"
    "message_logs t1 = message_logs t" "totp_secrets t1 = totp_secrets t"
    "active_keys c t1 = active_keys c t"
    by simp_all
qed

subsection \<open>Adding a key\<close>

lemma add_key_effect:
  assumes wf: "wf_tables t" and s: "add_key_spec rand msg root symKeys t k t'"
  shows "public_keys t' = public_keys t @ [k]"
    "pk_public_key k = ak_public_key msg \<and> pk_merkle_root k = root \<and> pk_revoked_at k = None \<and>
     GenerateKeyID rand = Inr (pk_key_id k)"
    "active_keys c t' = (if c = ak_actor msg then active_keys c t @ [k] else active_keys c t)"
    "auxiliary_data_rows t' = auxiliary_data_rows t \<and> message_logs t' = message_logs t \<and>
     totp_secrets t' = totp_secrets t"
    "\<exists>rows. sym_rows root symKeys rows \<and> symmetric_keys t' = symmetric_keys t @ rows"
proof -
  obtain a t1 keyID t2 where g: "get_or_create_spec (ak_actor msg) t a t1"
    and id: "GenerateKeyID rand = Inr keyID"
    and ins: "inserted_key_spec (new_public_key (a_id a) keyID (ak_public_key msg) root) t1 k t2"
    and sym: "store_symmetric_keys_spec root symKeys t2 () t'"
    using s by (auto simp: add_key_spec_def)
  note g' = get_or_create_effect [OF wf g]
  let ?new = "new_public_key (a_id a) keyID (ak_public_key msg) root"
  from ins obtain i now where k: "k = key_row i now ?new"
    and t2: "t2 = t1\<lparr> public_keys := public_keys t1 @ [key_row i now ?new] \<rparr>"
    by (auto simp: inserted_key_spec_def insert_public_key_spec_def key_row_def new_public_key_def)
  from sym obtain rows where rows: "sym_rows root symKeys rows"
    and t': "t' = t2\<lparr> symmetric_keys := symmetric_keys t2 @ rows \<rparr>"
    by (auto simp: store_symmetric_keys_spec_def)
  show "public_keys t' = public_keys t @ [k]"
    by (simp add: t' t2 k g'(3))
  show "pk_public_key k = ak_public_key msg \<and> pk_merkle_root k = root \<and> pk_revoked_at k = None \<and>
      GenerateKeyID rand = Inr (pk_key_id k)"
    by (simp add: k key_row_def new_public_key_def id)
  have own: "owned_by c t1 (a_id a) \<longleftrightarrow> c = ak_actor msg"
    using g'(1,2) find_actor_Some [OF g'(2)] distinct_map_eqD [OF wf_tablesD(1) [OF g'(1)]]
    by (auto simp: owned_by_iff)
  have "active_keys c t' = active_keys c t2"
    by (rule active_keys_cong) (simp_all add: t')
  also have "\<dots> = (if c = ak_actor msg then active_keys c t @ [k] else active_keys c t)"
    unfolding t2 active_keys_add_key using own by (simp add: g'(8) k new_public_key_def)
  finally show "active_keys c t' = (if c = ak_actor msg then active_keys c t @ [k] else active_keys c t)" .
  show "auxiliary_data_rows t' = auxiliary_data_rows t \<and> message_logs t' = message_logs t \<and>
      totp_secrets t' = totp_secrets t"
    by (simp add: t' t2 g')
  show "\<exists>rows. sym_rows root symKeys rows \<and> symmetric_keys t' = symmetric_keys t @ rows"
    using rows by (auto simp: t' t2 g')
qed

lemma add_key_directory:
  assumes "wf_tables t" "add_key_spec rand msg root symKeys t k t'"
  shows "directory t' = dir_add (ak_actor msg) (ak_public_key msg) (directory t)"
  using add_key_effect(2,3) [OF assms] by (auto simp: directory_def dir_add_def fun_eq_iff)

subsection \<open>Revoking a key\<close>

lemma mset_filter_key:
  assumes "distinct (map f xs)" "k \<in> set xs"
  shows "mset (filter (\<lambda>x. f x \<noteq> f k) xs) = mset xs - {#k#}"
  using assms
proof (induction xs)
  case (Cons y ys)
  show ?case
  proof (cases "f y = f k")
    case True
    with Cons.prems have y: "y = k" by (auto simp: image_iff)
    then have "filter (\<lambda>x. f x \<noteq> f k) ys = ys"
      using Cons.prems(1) by (intro filter_True) (metis distinct.simps(2) list.simps(9) image_eqI list.set_map)
    with y show ?thesis by simp
  next
    case False
    with Cons show ?thesis by auto
  qed
qed simp

lemma revoke_effect:
  assumes wf: "wf_tables t" and s: "revoke_spec msg root symKeys t u t'"
  obtains k where "k \<in> set (active_keys (rk_actor msg) t)" "pk_public_key k = rk_public_key msg"
    "\<And>c. mset (active_keys c t') = (if c = rk_actor msg then mset (active_keys c t) - {#k#} else mset (active_keys c t))"
    "actors t' = actors t" "auxiliary_data_rows t' = auxiliary_data_rows t"
    "map pk_merkle_root (public_keys t') = map pk_merkle_root (public_keys t)"
proof -
  obtain k t1 where k: "k \<in> set (public_keys t)" "key_matches (rk_actor msg) (rk_public_key msg) t k"
    and r: "revoke_key_spec (pk_id k) root t () t1" and sym: "store_symmetric_keys_spec root symKeys t1 () t'"
    using s by (auto simp: revoke_spec_def)
  from r obtain now where t1: "t1 = revoke_keys_where (\<lambda>x. pk_id x = pk_id k) now root t"
    by (auto simp: revoke_key_spec_def)
  from sym obtain rows where t': "t' = t1\<lparr> symmetric_keys := symmetric_keys t1 @ rows \<rparr>"
    by (auto simp: store_symmetric_keys_spec_def)
  have act: "k \<in> set (active_keys (rk_actor msg) t)" and pk: "pk_public_key k = rk_public_key msg"
    using k by (auto simp: set_active_keys key_matches_def)
  have d: "distinct (map pk_id (active_keys c t))" for c
    using wf_tablesD(3) [OF wf] by (auto simp: active_keys_def distinct_map_filter)
  have "active_keys c t' = filter (\<lambda>x. pk_id x \<noteq> pk_id k) (active_keys c t)" for c
    using active_keys_cong [of t' t1 c] by (simp add: t' t1 active_keys_revoke)
  moreover have "filter (\<lambda>x. pk_id x \<noteq> pk_id k) (active_keys c t) = active_keys c t"
    if "c \<noteq> rk_actor msg" for c
  proof (rule filter_True, rule ballI, rule notI)
    fix x assume x: "x \<in> set (active_keys c t)" "pk_id x = pk_id k"
    then have "x = k"
      using distinct_map_eqD [OF wf_tablesD(3) [OF wf] _ k(1)] by (auto simp: set_active_keys)
    with active_keys_one_owner [OF wf _ act] x(1) that show False by blast
  qed
  ultimately have "mset (active_keys c t') =
      (if c = rk_actor msg then mset (active_keys c t) - {#k#} else mset (active_keys c t))" for c
    using mset_filter_key [OF d act] by (cases "c = rk_actor msg") auto
  moreover have "map pk_merkle_root (public_keys t') = map pk_merkle_root (public_keys t)"
    by (simp add: t' t1 revoke_keys_where_def map_update_where revoked_def)
  ultimately show thesis
    using that [OF act pk] by (simp add: t' t1 revoke_keys_where_def)
qed

lemma revoke_directory:
  assumes "wf_tables t" "revoke_spec msg root symKeys t u t'"
  shows "directory t' = dir_revoke (rk_actor msg) (rk_public_key msg) (directory t)"
proof -
  obtain k where k: "k \<in> set (active_keys (rk_actor msg) t)" "pk_public_key k = rk_public_key msg"
    "\<And>c. mset (active_keys c t') = (if c = rk_actor msg then mset (active_keys c t) - {#k#} else mset (active_keys c t))"
    using revoke_effect [OF assms] by metis
  show ?thesis
  proof
    fix c
    show "directory t' c = dir_revoke (rk_actor msg) (rk_public_key msg) (directory t) c"
      using k by (cases "c = rk_actor msg") (auto simp: directory_def dir_revoke_def image_mset_Diff)
  qed
qed

subsection \<open>Moving and burning\<close>

lemma move_directory:
  assumes "wf_tables t" "move_spec msg t u t'"
  shows "directory t' = dir_move (mi_old_actor msg) (mi_new_actor msg) (directory t)"
proof -
  obtain now where n: "find_actor (mi_new_actor msg) t = None" "mi_old_actor msg \<noteq> mi_new_actor msg"
    and t': "t' = rename_actor now (mi_old_actor msg) (mi_new_actor msg) t"
    using assms(2) unfolding move_spec_def by (metis option.distinct(1))
  show ?thesis
    unfolding t' by (auto simp: directory_def dir_move_def active_keys_rename [OF assms(1) n] fun_eq_iff)
qed

lemma burn_effect:
  assumes wf: "wf_tables t" and s: "burn_spec actorID root t u t'"
  shows "active_keys c t' = (if c = actorID then [] else active_keys c t)"
    "find_actor actorID t = Some a \<Longrightarrow> h \<in> set (key_roots (a_id a) t) \<Longrightarrow> symmetric_keys_of h t' = []"
    "auxiliary_data_rows t' = auxiliary_data_rows t" "actors t' = actors t"
    "map pk_merkle_root (public_keys t') = map pk_merkle_root (public_keys t)"
proof -
  obtain b now where b: "find_actor actorID t = Some b"
    and t': "t' = revoke_keys_where (\<lambda>k. pk_actor_id k = a_id b \<and> pk_revoked_at k = None) now root
               (forget_symmetric_keys (key_roots (a_id b) t) t)"
    using s by (auto simp: burn_spec_def)
  have fg: "active_keys c (forget_symmetric_keys hs t) = active_keys c t" for c hs
    by (rule active_keys_cong) simp_all
  show "active_keys c t' = (if c = actorID then [] else active_keys c t)"
  proof (cases "c = actorID")
    case True
    then show ?thesis
      by (auto simp: t' active_keys_revoke fg active_keys_of [OF wf b] filter_empty_conv)
  next
    case False
    have "pk_actor_id k \<noteq> a_id b" if "k \<in> set (active_keys c t)" for k
    proof
      assume "pk_actor_id k = a_id b"
      with that have "k \<in> set (active_keys actorID t)"
        by (simp add: set_active_keys owned_by_find [OF wf b])
      with active_keys_one_owner [OF wf that] False show False by simp
    qed
    with False show ?thesis
      by (auto simp: t' active_keys_revoke fg intro!: filter_True)
  qed
  show "find_actor actorID t = Some a \<Longrightarrow> h \<in> set (key_roots (a_id a) t) \<Longrightarrow> symmetric_keys_of h t' = []"
    using b by (auto simp: t' symmetric_keys_of_def revoke_keys_where_def forget_symmetric_keys_def filter_empty_conv)
  show "auxiliary_data_rows t' = auxiliary_data_rows t" "actors t' = actors t"
    by (simp_all add: t' revoke_keys_where_def forget_symmetric_keys_def)
  show "map pk_merkle_root (public_keys t') = map pk_merkle_root (public_keys t)"
    by (simp add: t' revoke_keys_where_def map_update_where revoked_def)
qed

lemma burn_directory:
  assumes "wf_tables t" "burn_spec actorID root t u t'"
  shows "directory t' = dir_burn actorID (directory t)"
  using burn_effect(1) [OF assms] by (auto simp: directory_def dir_burn_def fun_eq_iff)

end
