(* ===== verification/AttrEnc.thy ===== *)
theory AttrEnc
  imports Signing
begin

section \<open>Attribute encryption, HPKE and one-time passwords\<close>

text \<open>
  \<^verbatim>\<open>internal/crypto/attribute_encryption.go\<close> and \<^verbatim>\<open>totp.go\<close>. The primitives are the
  fields of \<open>enc_prims\<close>: HKDF-SHA512 read to a given length, SHA-512, HMAC-SHA512, Argon2id,
  one AES block, the three stages of HPKE, and TOTP validation. Counter mode, the length-prefixed
  encodings, the layout of a ciphertext and every check of the decryption are modelled as
  written. A comparison in constant time is equality.
\<close>

record enc_prims =
  hkdf_read :: "bytes \<Rightarrow> bytes \<Rightarrow> nat \<Rightarrow> bytes result"
  sha512_sum :: "bytes \<Rightarrow> bytes"
  hmac_sha512 :: "bytes \<Rightarrow> bytes \<Rightarrow> bytes"
  argon2_idkey :: "bytes \<Rightarrow> bytes \<Rightarrow> nat \<Rightarrow> nat \<Rightarrow> nat \<Rightarrow> nat \<Rightarrow> bytes"
  aes_block :: "bytes \<Rightarrow> bytes \<Rightarrow> bytes"
  hpke_receiver :: "bytes \<Rightarrow> (bytes \<Rightarrow> (bytes \<Rightarrow> bytes result) result) result"
  hpke_sender :: "bytes \<Rightarrow> (bytes \<Rightarrow> (bytes \<times> (bytes \<Rightarrow> bytes result)) result) result"
  totp_validate :: "nat \<Rightarrow> nat \<Rightarrow> nat \<Rightarrow> string \<Rightarrow> string \<Rightarrow> nat \<Rightarrow> bool result"

text \<open>The output lengths the primitives document.\<close>

definition enc_lengths :: "enc_prims \<Rightarrow> bool" where
  "enc_lengths E \<longleftrightarrow>
     (\<forall>ikm info n k. hkdf_read E ikm info n = Inr k \<longrightarrow> length k = n) \<and>
     (\<forall>m. length (sha512_sum E m) = 64) \<and>
     (\<forall>k m. length (hmac_sha512 E k m) = 64) \<and>
     (\<forall>p s t m h n. length (argon2_idkey E p s t m h n) = n) \<and>
     (\<forall>k b. length (aes_block E k b) = 16)"

subsection \<open>Length-prefixed encodings\<close>

fun le_bytes :: "nat \<Rightarrow> nat \<Rightarrow> bytes" where
  "le_bytes 0 n = []"
| "le_bytes (Suc k) n = of_nat (n mod 256) # le_bytes k (n div 256)"

lemma length_le_bytes [simp]: "length (le_bytes k n) = k"
  by (induction k arbitrary: n) auto

lemma of_nat_byte_inj:
  assumes "m < 256" "n < 256"
  shows "(of_nat m :: byte) = of_nat n \<longleftrightarrow> m = n"
proof -
  have "unat (of_nat m :: byte) = m" "unat (of_nat n :: byte) = n"
    using assms by (simp_all add: unat_of_nat)
  then show ?thesis by metis
qed

lemma le_bytes_inj: "m < 256 ^ k \<Longrightarrow> n < 256 ^ k \<Longrightarrow> le_bytes k m = le_bytes k n \<longleftrightarrow> m = n"
proof (induction k arbitrary: m n)
  case (Suc k)
  from Suc.prems have "m div 256 < 256 ^ k" "n div 256 < 256 ^ k"
    by (simp_all add: less_mult_imp_div_less mult.commute)
  with Suc.IH have "le_bytes (Suc k) m = le_bytes (Suc k) n \<longleftrightarrow> m mod 256 = n mod 256 \<and> m div 256 = n div 256"
    by (simp add: of_nat_byte_inj)
  also have "\<dots> \<longleftrightarrow> m = n"
    by (metis mod_div_decomp)
  finally show ?case .
qed simp

definition lenEncode :: "bytes \<Rightarrow> bytes" where
  "lenEncode d = le_bytes 8 (length d) @ d"

lemma lenEncode_append_inj:
  assumes "length a < 2 ^ 64" "length b < 2 ^ 64" "lenEncode a @ x = lenEncode b @ y"
  shows "a = b \<and> x = y"
proof -
  have e: "le_bytes 8 (length a) @ a @ x = le_bytes 8 (length b) @ b @ y"
    using assms(3) by (simp add: lenEncode_def)
  then have "le_bytes 8 (length a) = le_bytes 8 (length b)" "a @ x = b @ y"
    by simp_all
  moreover from this(1) have "length a = length b"
    using assms(1,2) le_bytes_inj [of "length a" 8 "length b"] by simp
  ultimately show ?thesis by simp
qed

definition commit_input :: "bytes \<Rightarrow> bytes \<Rightarrow> bytes \<Rightarrow> bytes" where
  "commit_input attributeName plaintext merkleRoot =
     lenEncode merkleRoot @ lenEncode attributeName @ lenEncode plaintext"

definition commitPlaintext :: "enc_prims \<Rightarrow> bytes \<Rightarrow> bytes \<Rightarrow> bytes \<Rightarrow> bytes \<Rightarrow> bytes" where
  "commitPlaintext E attributeName plaintext merkleRoot salt =
     argon2_idkey E (commit_input attributeName plaintext merkleRoot) salt 3 16384 1 32"

definition buildInfo :: "string \<Rightarrow> bytes \<Rightarrow> bytes \<Rightarrow> bytes \<Rightarrow> bytes" where
  "buildInfo ctxt version random attributeName =
     bytes_of_string ctxt @ version @ random @ lenEncode attributeName"

definition kdfEncryptKeyInfo :: string where
  "kdfEncryptKeyInfo = ''FediE2EE-v1-Compliance-Encryption-Key''"

definition kdfAuthKeyInfo :: string where
  "kdfAuthKeyInfo = ''FediE2EE-v1-Compliance-Message-Auth-Key''"

definition kdfCommitSaltInfo :: string where
  "kdfCommitSaltInfo = ''FediE2EE-v1-Compliance-KDF-Salt''"

subsection \<open>Counter mode\<close>

text \<open>The counter block is a 128-bit big-endian number that wraps around.\<close>

fun be_bytes :: "nat \<Rightarrow> nat \<Rightarrow> bytes" where
  "be_bytes 0 n = []"
| "be_bytes (Suc k) n = be_bytes k (n div 256) @ [of_nat (n mod 256)]"

fun be_value :: "bytes \<Rightarrow> nat" where
  "be_value b = foldl (\<lambda>v x. 256 * v + unat x) 0 b"

definition counter_block :: "128 word \<Rightarrow> bytes" where
  "counter_block c = be_bytes 16 (unat c)"

unbundle bit_operations_syntax

definition xor_bytes :: "bytes \<Rightarrow> bytes \<Rightarrow> bytes" where
  "xor_bytes a b = map2 (XOR) a b"

function ctr_xor :: "(bytes \<Rightarrow> bytes) \<Rightarrow> 128 word \<Rightarrow> bytes \<Rightarrow> bytes" where
  "ctr_xor blk c d =
     (if d = [] then []
      else xor_bytes (take 16 d) (blk (counter_block c)) @ ctr_xor blk (c + 1) (drop 16 d))"
  by auto
termination by (relation "measure (\<lambda>(_, _, d). length d)") auto

declare ctr_xor.simps [simp del]

text \<open>\<^verbatim>\<open>aes.NewCipher\<close>, \<^verbatim>\<open>cipher.NewCTR\<close> and \<^verbatim>\<open>XORKeyStream\<close>, for a 16-byte nonce.\<close>

definition aes_ctr :: "enc_prims \<Rightarrow> bytes \<Rightarrow> bytes \<Rightarrow> bytes \<Rightarrow> bytes result" where
  "aes_ctr E key nonce d =
     (if length key \<in> {16, 24, 32}
      then Inr (ctr_xor (aes_block E key) (of_nat (be_value nonce)) d)
      else Inl (Errorf (''crypto/aes: invalid key size '' @ decimal (length key))))"

lemma xor_bytes_twice: "length a \<le> length b \<Longrightarrow> xor_bytes (xor_bytes a b) b = a"
proof (induction a arbitrary: b)
  case (Cons x a)
  then obtain y c where "b = y # c" by (cases b) auto
  with Cons show ?case by (simp add: xor_bytes_def xor.assoc)
qed (simp add: xor_bytes_def)

lemma length_xor_bytes [simp]: "length (xor_bytes a b) = min (length a) (length b)"
  by (simp add: xor_bytes_def)

lemma ctr_xor_step:
  "d \<noteq> [] \<Longrightarrow> ctr_xor blk c d =
     xor_bytes (take 16 d) (blk (counter_block c)) @ ctr_xor blk (c + 1) (drop 16 d)"
  by (subst ctr_xor.simps) simp

lemma ctr_xor_Nil [simp]: "ctr_xor blk c [] = []"
  by (simp add: ctr_xor.simps)

lemma length_ctr_xor:
  assumes "\<And>b. length (blk b) = 16"
  shows "length (ctr_xor blk c d) = length d"
proof (induction d arbitrary: c rule: length_induct)
  case (1 d)
  show ?case
  proof (cases "d = []")
    case False
    with 1 have "length (ctr_xor blk (c + 1) (drop 16 d)) = length (drop 16 d)" by auto
    with False show ?thesis by (simp add: ctr_xor_step assms)
  qed simp
qed

lemma ctr_xor_twice:
  assumes blk: "\<And>b. length (blk b) = 16"
  shows "ctr_xor blk c (ctr_xor blk c d) = d"
proof (induction d arbitrary: c rule: length_induct)
  case (1 d)
  show ?case
  proof (cases "d = []")
    case False
    let ?a = "xor_bytes (take 16 d) (blk (counter_block c))"
    let ?r = "ctr_xor blk (c + 1) (drop 16 d)"
    have e: "ctr_xor blk c d = ?a @ ?r" using False by (rule ctr_xor_step)
    have la: "length ?a = min 16 (length d)" by (simp add: blk)
    have lr: "length ?r = length d - 16" by (simp add: length_ctr_xor blk)
    have ta: "take 16 (?a @ ?r) = ?a" "drop 16 (?a @ ?r) = ?r"
      using la lr by (cases "16 \<le> length d"; simp)+
    have "0 < length ?a"
      unfolding la using False by simp
    then have "?a @ ?r \<noteq> []"
      by (metis append_is_Nil_conv length_greater_0_conv)
    then have "ctr_xor blk c (?a @ ?r) = xor_bytes ?a (blk (counter_block c)) @ ctr_xor blk (c + 1) ?r"
      using ctr_xor_step [of "?a @ ?r" blk c] unfolding ta by blast
    moreover have "xor_bytes ?a (blk (counter_block c)) = take 16 d"
      by (simp add: xor_bytes_twice blk)
    moreover have "ctr_xor blk (c + 1) ?r = drop 16 d"
      using 1 False by simp
    ultimately show ?thesis by (simp only: e append_take_drop_id)
  qed simp
qed

lemma length_be_bytes [simp]: "length (be_bytes k n) = k"
  by (induction k arbitrary: n) auto

lemma be_bytes_inj: "m < 256 ^ k \<Longrightarrow> n < 256 ^ k \<Longrightarrow> be_bytes k m = be_bytes k n \<longleftrightarrow> m = n"
proof (induction k arbitrary: m n)
  case (Suc k)
  then have lt: "m div 256 < 256 ^ k" "n div 256 < 256 ^ k" by (simp_all add: less_mult_imp_div_less)
  have "be_bytes (Suc k) m = be_bytes (Suc k) n \<longleftrightarrow> m div 256 = n div 256 \<and> m mod 256 = n mod 256"
    using Suc.IH [OF lt] by (simp add: of_nat_byte_inj)
  also have "\<dots> \<longleftrightarrow> m = n" by (metis div_mult_mod_eq)
  finally show ?case .
qed simp

lemma counter_block_inj: "counter_block c = counter_block d \<longleftrightarrow> c = d"
proof -
  have "unat w < 256 ^ 16" for w :: "128 word" using unsigned_less [of w] by simp
  then show ?thesis by (simp only: counter_block_def be_bytes_inj word_unat_eq_iff [symmetric])
qed

lemma ctr_xor_nth:
  assumes blk: "\<And>b. length (blk b) = 16" and "i < length d"
  shows "ctr_xor blk c d ! i = d ! i XOR blk (counter_block (c + of_nat (i div 16))) ! (i mod 16)"
  using assms(2)
proof (induction d arbitrary: c i rule: length_induct)
  case (1 d)
  then have step: "ctr_xor blk c d = xor_bytes (take 16 d) (blk (counter_block c)) @ ctr_xor blk (c + 1) (drop 16 d)"
    by (intro ctr_xor_step) auto
  have len: "length (xor_bytes (take 16 d) (blk (counter_block c))) = min 16 (length d)" by (simp add: blk)
  show ?case
  proof (cases "i < 16")
    case True
    with 1(2) show ?thesis
      by (simp add: step nth_append len) (simp add: xor_bytes_def blk)
  next
    case False
    have "ctr_xor blk c d ! i = ctr_xor blk (c + 1) (drop 16 d) ! (i - 16)"
      using False 1(2) by (simp add: step nth_append blk)
    also have "\<dots> = drop 16 d ! (i - 16) XOR blk (counter_block (c + 1 + of_nat ((i - 16) div 16))) ! ((i - 16) mod 16)"
      using False 1 by (intro 1(1) [rule_format]) auto
    also have "\<dots> = d ! i XOR blk (counter_block (c + of_nat (i div 16))) ! (i mod 16)"
    proof -
      obtain k where k: "i = 16 + k" using False by (metis le_Suc_ex not_less)
      moreover have "(16 + k) div 16 = Suc (k div 16)" by simp
      ultimately show ?thesis using 1(2) by (simp add: add.assoc)
    qed
    finally show ?thesis .
  qed
qed

subsection \<open>Protocol versions\<close>

definition version_header :: bytes where
  "version_header = [1]"

definition hex_lower :: "byte \<Rightarrow> string" where
  "hex_lower b =
     (if unat b < 16 then [hex_char (unat b)] else [hex_char (unat b div 16), hex_char (unat b mod 16)])"

definition GetProtocolVersion :: "byte \<Rightarrow> unit result" where
  "GetProtocolVersion version =
     (if version = 1 then Inr () else Inl (Errorf (''unknown protocol version: '' @ hex_lower version)))"

subsection \<open>Encryption and decryption of an attribute\<close>

definition commit_salt :: "enc_prims \<Rightarrow> bytes \<Rightarrow> bytes \<Rightarrow> bytes \<Rightarrow> bytes \<Rightarrow> bytes" where
  "commit_salt E h r merkleRoot attributeName =
     take 16 (sha512_sum E (bytes_of_string kdfCommitSaltInfo @ h @ r @ lenEncode merkleRoot @ lenEncode attributeName))"

definition mac_tag :: "enc_prims \<Rightarrow> bytes \<Rightarrow> bytes \<Rightarrow> bytes \<Rightarrow> bytes \<Rightarrow> bytes \<Rightarrow> bytes \<Rightarrow> bytes" where
  "mac_tag E ak h r attributeName c q =
     (let fullTag = hmac_sha512 E ak (h @ r @ lenEncode attributeName @ lenEncode c @ lenEncode q)
      in drop (length fullTag - 32) fullTag)"

definition EncryptAttribute :: "enc_prims \<Rightarrow> bytes \<Rightarrow> bytes \<Rightarrow> bytes \<Rightarrow> bytes \<Rightarrow> bytes \<Rightarrow> bytes result" where
  "EncryptAttribute E rand attributeName plaintext ikm merkleRoot =
     (let h = version_header in
      case read_full 32 rand of
        None \<Rightarrow> Inl (Wrap ''failed to generate random data: '' entropy_error [])
      | Some r \<Rightarrow>
          (case hkdf_read E ikm (buildInfo kdfEncryptKeyInfo h r attributeName) 48 of
             Inl e \<Rightarrow> Inl (Wrap ''failed to derive encryption key: '' e [])
           | Inr derivedKey \<Rightarrow>
               (case hkdf_read E ikm (buildInfo kdfAuthKeyInfo h r attributeName) 32 of
                  Inl e \<Rightarrow> Inl (Wrap ''failed to derive authentication key: '' e [])
                | Inr ak \<Rightarrow>
                    (let s = commit_salt E h r merkleRoot attributeName;
                         q = commitPlaintext E attributeName plaintext merkleRoot s in
                     case aes_ctr E (take 32 derivedKey) (drop 32 derivedKey) plaintext of
                       Inl e \<Rightarrow> Inl (Wrap ''failed to create AES cipher: '' e [])
                     | Inr c \<Rightarrow> Inr (h @ r @ q @ mac_tag E ak h r attributeName c q @ c)))))"

definition ErrDecryptionFailed :: go_error where
  "ErrDecryptionFailed = Sentinel ''attribute decryption failed''"

definition DecryptAttribute :: "enc_prims \<Rightarrow> bytes \<Rightarrow> bytes \<Rightarrow> bytes \<Rightarrow> bytes \<Rightarrow> bytes result" where
  "DecryptAttribute E attributeName ciphertext ikm merkleRoot =
     (if length ciphertext < 1 + 32 + 32 + 32 then Inl (Wrap [] ErrDecryptionFailed '': ciphertext too short'')
      else
        (let h = take 1 ciphertext; r = take 32 (drop 1 ciphertext); q = take 32 (drop 33 ciphertext);
             t = take 32 (drop 65 ciphertext); c = drop 97 ciphertext in
         case GetProtocolVersion (hd h) of
           Inl e \<Rightarrow> Inl (Wrap [] ErrDecryptionFailed ('': '' @ error_text e))
         | Inr _ \<Rightarrow>
             (case hkdf_read E ikm (buildInfo kdfAuthKeyInfo h r attributeName) 32 of
                Inl e \<Rightarrow> Inl (Wrap [] ErrDecryptionFailed ('': failed to derive auth key: '' @ error_text e))
              | Inr ak \<Rightarrow>
                  if t \<noteq> mac_tag E ak h r attributeName c q
                  then Inl (Wrap [] ErrDecryptionFailed '': invalid authentication tag'')
                  else
                    (case hkdf_read E ikm (buildInfo kdfEncryptKeyInfo h r attributeName) 48 of
                       Inl e \<Rightarrow> Inl (Wrap [] ErrDecryptionFailed
                                  ('': failed to derive encryption key: '' @ error_text e))
                     | Inr derivedKey \<Rightarrow>
                         (case aes_ctr E (take 32 derivedKey) (drop 32 derivedKey) c of
                            Inl e \<Rightarrow> Inl (Wrap [] ErrDecryptionFailed
                                       ('': failed to create AES cipher: '' @ error_text e))
                          | Inr p \<Rightarrow>
                              (let s = commit_salt E h r merkleRoot attributeName in
                               if q \<noteq> commitPlaintext E attributeName p merkleRoot s
                               then Inl (Wrap [] ErrDecryptionFailed '': plaintext commitment mismatch'')
                               else Inr p))))))"

subsection \<open>HPKE and TOTP\<close>

definition EncryptWithHPKE :: "enc_prims \<Rightarrow> bytes \<Rightarrow> bytes \<Rightarrow> bytes \<Rightarrow> bytes result" where
  "EncryptWithHPKE E rand serverPublicKey plaintext =
     (case hpke_sender E serverPublicKey of
        Inl e \<Rightarrow> Inl (Wrap ''failed to create HPKE sender: '' e [])
      | Inr setup \<Rightarrow>
          (case setup rand of
             Inl e \<Rightarrow> Inl (Wrap ''failed to setup HPKE sender: '' e [])
           | Inr (enc, seal) \<Rightarrow>
               (case seal plaintext of
                  Inl e \<Rightarrow> Inl (Wrap ''failed to seal plaintext with HPKE: '' e [])
                | Inr ciphertext \<Rightarrow> Inr (enc @ ciphertext))))"

text \<open>The encapsulated key of X25519 has 32 bytes.\<close>

definition DecryptWithHPKE :: "enc_prims \<Rightarrow> bytes \<Rightarrow> bytes \<Rightarrow> bytes result" where
  "DecryptWithHPKE E serverPrivateKey encryptedData =
     (if length encryptedData < 32 then Inl (Errorf ''invalid encrypted data length'')
      else
        (case hpke_receiver E serverPrivateKey of
           Inl e \<Rightarrow> Inl (Wrap ''failed to create HPKE receiver: '' e [])
         | Inr setup \<Rightarrow>
             (case setup (take 32 encryptedData) of
                Inl e \<Rightarrow> Inl (Wrap ''failed to setup HPKE receiver: '' e [])
              | Inr open_sealed \<Rightarrow>
                  (case open_sealed (drop 32 encryptedData) of
                     Inl e \<Rightarrow> Inl (Wrap ''failed to open HPKE sealed message: '' e [])
                   | Inr plaintext \<Rightarrow> Inr plaintext))))"

text \<open>Skew of one period, periods of 30 seconds, six digits; an error counts as invalid.\<close>

definition ValidateTOTP :: "enc_prims \<Rightarrow> nat \<Rightarrow> string \<Rightarrow> string \<Rightarrow> bool" where
  "ValidateTOTP E now secret passcode =
     (case totp_validate E 30 1 6 passcode secret now of Inl _ \<Rightarrow> False | Inr valid \<Rightarrow> valid)"

subsection \<open>What encryption promises\<close>

lemma aes_ctr_twice:
  assumes "enc_lengths E" "aes_ctr E k n p = Inr c"
  shows "length c = length p" "aes_ctr E k n c = Inr p"
  using assms by (auto simp: aes_ctr_def enc_lengths_def length_ctr_xor ctr_xor_twice split: if_splits)

text \<open>The five parts of a ciphertext, read back from their fixed positions.\<close>

lemma ciphertext_parts:
  assumes "length r = 32" "length q = 32" "length t = 32"
  shows "take 1 ([x] @ r @ q @ t @ c) = [x]" "take 32 (drop 1 ([x] @ r @ q @ t @ c)) = r"
    "take 32 (drop 33 ([x] @ r @ q @ t @ c)) = q" "take 32 (drop 65 ([x] @ r @ q @ t @ c)) = t"
    "drop 97 ([x] @ r @ q @ t @ c) = c"
proof -
  have "drop 33 ([x] @ r @ q @ t @ c) = drop 32 (r @ q @ t @ c)"
    "drop 65 ([x] @ r @ q @ t @ c) = drop 64 (r @ q @ t @ c)"
    "drop 97 ([x] @ r @ q @ t @ c) = drop 96 (r @ q @ t @ c)"
    by simp_all
  with assms show "take 1 ([x] @ r @ q @ t @ c) = [x]" "take 32 (drop 1 ([x] @ r @ q @ t @ c)) = r"
    "take 32 (drop 33 ([x] @ r @ q @ t @ c)) = q" "take 32 (drop 65 ([x] @ r @ q @ t @ c)) = t"
    "drop 97 ([x] @ r @ q @ t @ c) = c"
    by simp_all
qed

lemma mac_tag_length: "enc_lengths E \<Longrightarrow> length (mac_tag E ak h r a c q) = 32"
  by (simp add: mac_tag_def enc_lengths_def Let_def)

lemma commit_length: "enc_lengths E \<Longrightarrow> length (commitPlaintext E a p m s) = 32"
  by (simp add: commitPlaintext_def enc_lengths_def)

text \<open>
  Every ciphertext the encryption returns, taken apart: the derived keys, and the parts.
\<close>

lemma EncryptAttribute_Inr:
  assumes "EncryptAttribute E rand a p ikm m = Inr ct"
  obtains r k ak c where "read_full 32 rand = Some r"
    "hkdf_read E ikm (buildInfo kdfEncryptKeyInfo [1] r a) 48 = Inr k"
    "hkdf_read E ikm (buildInfo kdfAuthKeyInfo [1] r a) 32 = Inr ak"
    "aes_ctr E (take 32 k) (drop 32 k) p = Inr c"
    "ct = [1] @ r @ commitPlaintext E a p m (commit_salt E [1] r m a) @
       mac_tag E ak [1] r a c (commitPlaintext E a p m (commit_salt E [1] r m a)) @ c"
  using assms
  by (auto simp: EncryptAttribute_def version_header_def Let_def split: option.splits sum.splits)

lemma read_full_length: "read_full n s = Some b \<Longrightarrow> length b = n"
  by (auto simp: read_full_def split: if_splits)

text \<open>C18. Decryption undoes encryption: whatever the attribute's name and value, the key material
  and the Merkle root, the value comes back.\<close>

theorem attribute_roundtrip:
  assumes L: "enc_lengths E" and enc: "EncryptAttribute E rand a p ikm m = Inr ct"
  shows "DecryptAttribute E a ct ikm m = Inr p"
proof -
  obtain r k ak c where r: "read_full 32 rand = Some r"
    and k: "hkdf_read E ikm (buildInfo kdfEncryptKeyInfo [1] r a) 48 = Inr k"
    and ak: "hkdf_read E ikm (buildInfo kdfAuthKeyInfo [1] r a) 32 = Inr ak"
    and c: "aes_ctr E (take 32 k) (drop 32 k) p = Inr c"
    and ct: "ct = [1] @ r @ commitPlaintext E a p m (commit_salt E [1] r m a) @
       mac_tag E ak [1] r a c (commitPlaintext E a p m (commit_salt E [1] r m a)) @ c"
    by (rule EncryptAttribute_Inr [OF enc])
  let ?q = "commitPlaintext E a p m (commit_salt E [1] r m a)"
  let ?t = "mac_tag E ak [1] r a c ?q"
  have len: "length r = 32" "length ?q = 32" "length ?t = 32"
    using read_full_length [OF r] by (simp_all add: commit_length mac_tag_length L)
  note parts = ciphertext_parts [OF len, of 1 c]
  have "\<not> length ct < 1 + 32 + 32 + 32"
    using len by (simp add: ct)
  then show ?thesis
    unfolding DecryptAttribute_def ct Let_def parts
    by (simp add: GetProtocolVersion_def ak k aes_ctr_twice(2) [OF L c])
qed

text \<open>C21. Bounds of counter mode: a ciphertext is as long as the plaintext; its byte \<open>i\<close> is masked with byte
  \<open>i mod 16\<close> of the block for the counter \<open>nonce + i div 16\<close>, modulo \<open>2 ^ 128\<close>; and below \<open>2 ^ 132\<close> bytes no
  two blocks of a message share a counter, wherever the nonce starts and though the counter wraps around.\<close>

theorem keystream_never_repeats:
  assumes "enc_lengths E" "aes_ctr E key nonce d = Inr c"
  shows "length c = length d \<and>
    (\<forall>i < length d. c ! i = d ! i XOR
       aes_block E key (counter_block (of_nat (be_value nonce + i div 16))) ! (i mod 16)) \<and>
    (\<forall>i < length d. \<forall>j < length d. length d \<le> 2 ^ 132 \<longrightarrow> i div 16 \<noteq> j div 16 \<longrightarrow>
       counter_block (of_nat (be_value nonce + i div 16)) \<noteq> counter_block (of_nat (be_value nonce + j div 16)))"
proof (intro conjI allI impI)
  have blk: "\<And>b. length (aes_block E key b) = 16" using assms(1) by (simp add: enc_lengths_def)
  have c: "c = ctr_xor (aes_block E key) (of_nat (be_value nonce)) d"
    using assms(2) by (simp add: aes_ctr_def split: if_splits)
  show "length c = length d" by (simp add: c length_ctr_xor blk)
  show "c ! i = d ! i XOR aes_block E key (counter_block (of_nat (be_value nonce + i div 16))) ! (i mod 16)"
    if "i < length d" for i
    using ctr_xor_nth [OF blk that] by (simp add: c del: be_value.simps)
  fix i j
  assume a: "i < length d" "j < length d" "length d \<le> 2 ^ 132" "i div 16 \<noteq> j div 16"
  then have lt: "i div 16 < 2 ^ 128" "j div 16 < 2 ^ 128" by auto
  have "unat (of_nat (i div 16) :: 128 word) = i div 16" "unat (of_nat (j div 16) :: 128 word) = j div 16"
    using lt by (simp_all add: unat_of_nat)
  with a(4) have "(of_nat (i div 16) :: 128 word) \<noteq> of_nat (j div 16)" by metis
  then show "counter_block (of_nat (be_value nonce + i div 16)) \<noteq> counter_block (of_nat (be_value nonce + j div 16))"
    by (simp add: counter_block_inj del: be_value.simps)
qed

text \<open>C20. The commitment binds the Merkle root, the attribute's name and its value: its input is an
  injective encoding of the three, whatever bytes they hold, up to the 2^64 bytes the length prefix
  can count.\<close>

theorem commitment_binding:
  assumes "commit_input a p m = commit_input a' p' m'"
    and "length a < 2 ^ 64" "length p < 2 ^ 64" "length m < 2 ^ 64"
    and "length a' < 2 ^ 64" "length p' < 2 ^ 64" "length m' < 2 ^ 64"
  shows "a = a' \<and> p = p' \<and> m = m'"
proof -
  have e: "lenEncode m @ (lenEncode a @ (lenEncode p @ [])) = lenEncode m' @ (lenEncode a' @ (lenEncode p' @ []))"
    using assms(1) by (simp add: commit_input_def)
  note m = lenEncode_append_inj [OF assms(4,7) e]
  note a = lenEncode_append_inj [OF assms(2,5) conjunct2 [OF m]]
  note p = lenEncode_append_inj [OF assms(3,6) conjunct2 [OF a]]
  from m a p show ?thesis by blast
qed

text \<open>C19. A value is only ever released by decryption if the ciphertext carries version 1, its tag is
  the HMAC over the version, the nonce, the attribute's name, the encrypted value and the commitment,
  and the commitment opens to that very value under the given Merkle root and attribute name.\<close>

theorem decryption_sound:
  assumes "DecryptAttribute E a ct ikm m = Inr p"
  shows "97 \<le> length ct \<and> hd ct = 1 \<and>
    (\<exists>ak. hkdf_read E ikm (buildInfo kdfAuthKeyInfo [1] (take 32 (drop 1 ct)) a) 32 = Inr ak \<and>
       take 32 (drop 65 ct) = mac_tag E ak [1] (take 32 (drop 1 ct)) a (drop 97 ct) (take 32 (drop 33 ct))) \<and>
    take 32 (drop 33 ct) = commitPlaintext E a p m (commit_salt E [1] (take 32 (drop 1 ct)) m a)"
proof -
  have len: "97 \<le> length ct" using assms by (auto simp: DecryptAttribute_def split: if_splits)
  then obtain x xs where ct: "ct = x # xs" by (cases ct) auto
  have "x = 1"
    using assms len by (auto simp: DecryptAttribute_def GetProtocolVersion_def ct Let_def split: if_splits)
  then show ?thesis
    using assms len
    by (auto simp: DecryptAttribute_def GetProtocolVersion_def ct Let_def split: if_splits sum.splits)
qed

end
