(* ===== verification/UrlValidator.thy ===== *)
theory UrlValidator
  imports Prelude
begin

section \<open>Which URLs the server will fetch\<close>

text \<open>
  \<^verbatim>\<open>internal/util/url_validator.go\<close>: the guard against server-side request forgery. The
  parser of \<^verbatim>\<open>net/url\<close> and the resolver are arguments; of a parsed URL the guard reads the
  scheme and the host name. An \<open>ip\<close> is Go's \<^verbatim>\<open>net.IP\<close>, 4 or 16 bytes, and the three
  predicates on it follow the package \<^verbatim>\<open>net\<close>.
\<close>

record parsed_url =
  pu_scheme :: string
  pu_hostname :: string
  pu_text :: string

type_synonym ip = bytes

definition to4 :: "ip \<Rightarrow> ip option" where
  "to4 a =
     (if length a = 4 then Some a
      else if length a = 16 \<and> take 10 a = replicate 10 0 \<and> a ! 10 = 255 \<and> a ! 11 = 255
      then Some (drop 12 a)
      else None)"

definition IsLoopback :: "ip \<Rightarrow> bool" where
  "IsLoopback a = (case to4 a of Some b \<Rightarrow> hd b = 127 | None \<Rightarrow> a = replicate 15 0 @ [1])"

definition IsPrivate :: "ip \<Rightarrow> bool" where
  "IsPrivate a =
     (case to4 a of
        Some b \<Rightarrow> b ! 0 = 10 \<or> (b ! 0 = 172 \<and> unat (b ! 1) div 16 = 1) \<or> (b ! 0 = 192 \<and> b ! 1 = 168)
      | None \<Rightarrow> length a = 16 \<and> unat (a ! 0) div 2 = 126)"

definition IsUnspecified :: "ip \<Rightarrow> bool" where
  "IsUnspecified a = (case to4 a of Some b \<Rightarrow> b = [0, 0, 0, 0] | None \<Rightarrow> a = replicate 16 0)"

definition forbiddenTlds :: "string list" where
  "forbiddenTlds = [''.example'', ''.internal'', ''.lan'', ''.local'', ''.localhost'', ''.test'']"

definition has_suffix :: "string \<Rightarrow> string \<Rightarrow> bool" where
  "has_suffix s t \<longleftrightarrow> length t \<le> length s \<and> drop (length s - length t) s = t"

definition ValidateURL ::
  "(string \<Rightarrow> parsed_url result) \<Rightarrow> (string \<Rightarrow> ip list result) \<Rightarrow> string \<Rightarrow> bool \<Rightarrow> parsed_url result" where
  "ValidateURL parse lookup u allowPrivateIPs =
     (case parse u of
        Inl e \<Rightarrow> Inl (Wrap ''could not parse URL: '' e [])
      | Inr url \<Rightarrow>
          if pu_scheme url \<noteq> ''http'' \<and> pu_scheme url \<noteq> ''https''
          then Inl (Errorf (''invalid URL scheme: '' @ pu_scheme url))
          else if allowPrivateIPs then Inr url
          else if pu_hostname url \<in> {''localhost'', ''127.0.0.1'', ''::1''}
          then Inl (Errorf ''hostname is a loopback address'')
          else
            (case find (has_suffix (pu_hostname url)) forbiddenTlds of
               Some tld \<Rightarrow> Inl (Errorf (''hostname has a forbidden TLD: '' @ tld))
             | None \<Rightarrow>
                 (case lookup (pu_hostname url) of
                    Inl e \<Rightarrow> Inl (Wrap ''could not resolve hostname: '' e [])
                  | Inr ips \<Rightarrow>
                      if list_ex (\<lambda>a. IsLoopback a \<or> IsPrivate a \<or> IsUnspecified a) ips
                      then Inl (Errorf ''hostname resolves to a private or reserved IP address'')
                      else Inr url)))"


text \<open>The guard lets a host through that resolves to the link-local address 169.254.169.254,
  under which cloud platforms serve their instance metadata, and likewise the link-local, multicast
  and carrier-grade NAT ranges: only three kinds of address are refused.\<close>

theorem ValidateURL_link_local:
  assumes "parse u = Inr url" "pu_scheme url = ''http''"
    and "pu_hostname url \<notin> {''localhost'', ''127.0.0.1'', ''::1''}"
    and "\<not> list_ex (has_suffix (pu_hostname url)) forbiddenTlds"
    and "lookup (pu_hostname url) = Inr [a]" "a \<in> {[169, 254, 169, 254], [100, 64, 0, 1], [224, 0, 0, 1]}"
  shows "ValidateURL parse lookup u False = Inr url"
proof -
  have "\<not> (IsLoopback a \<or> IsPrivate a \<or> IsUnspecified a)"
  proof -
    have "list_all (\<lambda>a. \<not> (IsLoopback a \<or> IsPrivate a \<or> IsUnspecified a))
        [[169, 254, 169, 254], [100, 64, 0, 1], [224, 0, 0, 1]]"
      by code_simp
    with assms(6) show ?thesis by auto
  qed
  with assms(1-5) show ?thesis
    by (auto simp: ValidateURL_def find_None_iff list_ex_iff split: option.splits dest: find_Some_D)
qed

end
