(* ===== verification/Api.thy ===== *)
theory Api
  imports Effects AttrEnc UrlValidator
begin

section \<open>Responses, the log client and the shape of a handler\<close>

text \<open>
  \<^verbatim>\<open>internal/api/helpers.go\<close> and \<^verbatim>\<open>internal/sigsum/http_client.go\<close>, and the state a
  handler runs in: the database, and (a ghost) the messages the SigSum log has acknowledged,
  each with the root it answered. What the outside world contributes to one request, the entropy,
  the time and the log's reply, is the record \<open>request_world\<close>.

  A handler is a sequence of Go statements most of which may answer the request and return.
  \<open>step\<close> is one such statement: \<open>Inl\<close> the response it has sent, or \<open>Inr\<close> a value to go on
  with.
\<close>

subsection \<open>Time stamps\<close>

definition pad2 :: "nat \<Rightarrow> string" where
  "pad2 n = (if n < 10 then ''0'' @ decimal n else decimal n)"

definition pad4 :: "nat \<Rightarrow> string" where
  "pad4 n = replicate (4 - length (decimal n)) (CHR ''0'') @ decimal n"

text \<open>The proleptic Gregorian date of a day counted from 1970-01-01.\<close>

definition civil_from_days :: "nat \<Rightarrow> nat \<times> nat \<times> nat" where
  "civil_from_days days =
     (let z = days + 719468; era = z div 146097; doe = z mod 146097;
          yoe = (doe - doe div 1460 + doe div 36524 - doe div 146096) div 365;
          doy = doe - (365 * yoe + yoe div 4 - yoe div 100);
          mp = (5 * doy + 2) div 153;
          d = doy - (153 * mp + 2) div 5 + 1;
          m = (if mp < 10 then mp + 3 else mp - 9);
          y = yoe + era * 400
      in (if m \<le> 2 then y + 1 else y, m, d))"

definition rfc3339 :: "nat \<Rightarrow> string" where
  "rfc3339 t =
     (case civil_from_days (t div 86400) of (y, m, d) \<Rightarrow>
        pad4 y @ ''-'' @ pad2 m @ ''-'' @ pad2 d @ ''T'' @ pad2 (t mod 86400 div 3600) @ '':'' @
        pad2 (t mod 3600 div 60) @ '':'' @ pad2 (t mod 60) @ ''Z'')"

subsection \<open>Responses\<close>

record response =
  rs_status :: nat
  rs_content_type :: string
  rs_body :: string

text \<open>\<^verbatim>\<open>http.StatusText\<close>, for the codes the server sends.\<close>

definition status_text :: "nat \<Rightarrow> string" where
  "status_text code =
     (if code = 200 then ''OK'' else if code = 400 then ''Bad Request''
      else if code = 401 then ''Unauthorized'' else if code = 403 then ''Forbidden''
      else if code = 404 then ''Not Found'' else if code = 413 then ''Request Entity Too Large''
      else if code = 500 then ''Internal Server Error'' else if code = 502 then ''Bad Gateway''
      else [])"

definition problem_detail :: "nat \<Rightarrow> string \<Rightarrow> string" where
  "problem_detail code message =
     json_object [(''type'', json_string ''about:blank''), (''title'', json_string (status_text code)),
       (''status'', decimal code), (''detail'', json_string message)]"

definition newline :: string where
  "newline = [char_of (10 :: nat)]"

definition respondWithError :: "nat \<Rightarrow> string \<Rightarrow> response" where
  "respondWithError code message =
     \<lparr> rs_status = code, rs_content_type = ''application/problem+json'',
       rs_body = problem_detail code message @ newline \<rparr>"

text \<open>The payload is given marshalled.\<close>

definition respondWithJSON :: "nat \<Rightarrow> string result \<Rightarrow> response" where
  "respondWithJSON code payload =
     (case payload of
        Inl _ \<Rightarrow> respondWithError 500 ''Internal Server Error''
      | Inr body \<Rightarrow> \<lparr> rs_status = code, rs_content_type = ''application/json'', rs_body = body \<rparr>)"

definition fields_payload :: "(string \<times> string) list \<Rightarrow> string result" where
  "fields_payload m = Inr (marshal_string_map m)"

lemma respondWithError_status [simp]: "rs_status (respondWithError code m) = code"
  by (simp add: respondWithError_def)

lemma respondWithJSON_fields [simp]:
  "rs_status (respondWithJSON code (fields_payload m)) = code"
  "rs_body (respondWithJSON code (fields_payload m)) = marshal_string_map m"
  by (simp_all add: respondWithJSON_def fields_payload_def)

definition json_bool :: "bool \<Rightarrow> string" where
  "json_bool b = (if b then ''true'' else ''false'')"

definition json_or_null :: "('a \<Rightarrow> string) \<Rightarrow> 'a option \<Rightarrow> string" where
  "json_or_null f x = (case x of None \<Rightarrow> ''null'' | Some y \<Rightarrow> f y)"

fun comma_separated :: "string list \<Rightarrow> string" where
  "comma_separated [] = []"
| "comma_separated [x] = x"
| "comma_separated (x # y # xs) = x @ '','' @ comma_separated (y # xs)"

text \<open>A slice; the nil slice, which a query without rows leaves, is \<^verbatim>\<open>null\<close>.\<close>

definition json_slice :: "('a \<Rightarrow> string) \<Rightarrow> 'a list \<Rightarrow> string" where
  "json_slice f xs = (if xs = [] then ''null'' else ''['' @ comma_separated (map f xs) @ '']'')"

definition json_time :: "nat \<Rightarrow> string" where
  "json_time t = json_string (rfc3339 t)"

definition marshal_public_key :: "public_key \<Rightarrow> string" where
  "marshal_public_key k =
     json_object
       ([(''id'', decimal (pk_id k)), (''actor_id'', decimal (pk_actor_id k)),
         (''key_id'', json_string (pk_key_id k)), (''public_key'', json_string (pk_public_key k)),
         (''created_at'', json_time (pk_created_at k)), (''merkle_root'', json_string (pk_merkle_root k)),
         (''revoked_at'', json_or_null json_time (pk_revoked_at k)),
         (''revoke_root'', json_or_null json_string (pk_revoke_root k))] @
        (if pk_inclusion_proof k = [] then []
         else [(''inclusion_proof'', json_slice json_string (pk_inclusion_proof k))]))"

definition marshal_actor :: "actor \<Rightarrow> string" where
  "marshal_actor a =
     json_object
       [(''ID'', decimal (a_id a)), (''ActorID'', json_string (a_actor_id a)),
        (''IsFireproof'', json_bool (a_is_fireproof a)), (''CreatedAt'', json_time (a_created_at a)),
        (''UpdatedAt'', json_time (a_updated_at a))]"

definition marshal_auxiliary_data :: "auxiliary_data \<Rightarrow> string" where
  "marshal_auxiliary_data d =
     json_object
       [(''ID'', decimal (ad_id d)), (''ActorID'', decimal (ad_actor_id d)),
        (''AuxID'', json_string (ad_aux_id d)), (''AuxType'', json_string (ad_aux_type d)),
        (''AuxData'', json_string (ad_aux_data d)), (''CreatedAt'', json_time (ad_created_at d)),
        (''MerkleRoot'', json_string (ad_merkle_root d)),
        (''RevokedAt'', json_or_null json_time (ad_revoked_at d)),
        (''RevokeRoot'', json_or_null json_string (ad_revoke_root d))]"

subsection \<open>The configured peers\<close>

definition getDirectoryPublicKey :: "(string \<times> string) list \<Rightarrow> string \<Rightarrow> bytes result" where
  "getDirectoryPublicKey peers directoryURL =
     (case map_of peers directoryURL of
        None \<Rightarrow> Inl (Errorf (''peer not found: '' @ directoryURL))
      | Some encoded \<Rightarrow>
          (case raw_url_decode encoded of
             None \<Rightarrow> Inl (Wrap (''failed to decode public key for '' @ directoryURL @ '': '') base64_error [])
           | Some pubKeyBytes \<Rightarrow>
               if length pubKeyBytes \<noteq> 32
               then Inl (Errorf (''invalid public key size for '' @ directoryURL))
               else Inr pubKeyBytes))"

subsection \<open>The SigSum client\<close>

text \<open>
  What becomes of a \<^verbatim>\<open>POST\<close>: the request cannot be built (a bad URL), cannot be sent, or is
  answered with a status and a body, which may fail to arrive in full.
\<close>

datatype http_outcome = RequestInvalid go_error | SendFailed go_error | Answered nat "string result"

definition SubmitMessage :: "http_outcome \<Rightarrow> string result" where
  "SubmitMessage reply =
     (case reply of
        RequestInvalid e \<Rightarrow> Inl (Wrap ''failed to create request: '' e [])
      | SendFailed e \<Rightarrow> Inl (Wrap ''failed to send request: '' e [])
      | Answered status body \<Rightarrow>
          if status \<noteq> 200
          then Inl (Errorf (''received non-200 status code: '' @ decimal status))
          else wrap_error ''failed to read response body'' body)"

text \<open>What the log has acknowledged: the message of a request answered with 200.\<close>

definition acknowledged :: "http_outcome \<Rightarrow> string \<Rightarrow> (string \<times> string result) list" where
  "acknowledged reply message =
     (case reply of Answered status body \<Rightarrow> if status = 200 then [(message, body)] else [] | _ \<Rightarrow> [])"

lemma SubmitMessage_Inr:
  "SubmitMessage reply = Inr root \<longleftrightarrow> reply = Answered 200 (Inr root)"
  by (auto simp: SubmitMessage_def split: http_outcome.splits if_splits)

subsection \<open>The server\<close>

text \<open>\<open>sv_hpke_private\<close> is \<open>None\<close> if the configured value is not a \<^verbatim>\<open>kem.PrivateKey\<close>.\<close>

record server_env =
  sv_prims :: prims
  sv_enc :: enc_prims
  sv_registry :: aux_registry
  sv_peers :: "(string \<times> string) list"
  sv_hpke_private :: "bytes option"
  sv_allow_private_ips :: bool
  sv_url_parse :: "string \<Rightarrow> parsed_url result"

text \<open>
  \<open>ss_cache\<close> is the process-wide \<^verbatim>\<open>actorKeyCache\<close>. The world also answers the host
  look-ups and the \<^verbatim>\<open>GET\<close> of an actor document.
\<close>

record server_state =
  ss_db :: database
  ss_log :: "(string \<times> string result) list"
  ss_cache :: "(string \<times> bytes) list"

record request_world =
  rw_rand :: bytes
  rw_now :: nat
  rw_sigsum :: http_outcome
  rw_lookup :: "string \<Rightarrow> ip list result"
  rw_get :: "string \<Rightarrow> http_outcome"

definition tables_of :: "server_state \<Rightarrow> tables" where
  "tables_of st = db_committed (ss_db st)"

text \<open>Between requests: the constraints hold and no transaction is open.\<close>

definition ready :: "server_state \<Rightarrow> bool" where
  "ready st \<longleftrightarrow> db_good (ss_db st) \<and> db_pending (ss_db st) = None"

definition db_op :: "(database, 'a) op \<Rightarrow> (server_state, 'a) op" where
  "db_op f st = (case f (ss_db st) of (r, d) \<Rightarrow> (r, st\<lparr> ss_db := d \<rparr>))"

definition submit_op :: "http_outcome \<Rightarrow> string \<Rightarrow> (server_state, string) op" where
  "submit_op reply message st =
     (SubmitMessage reply, st\<lparr> ss_log := ss_log st @ acknowledged reply message \<rparr>)"

subsection \<open>Steps of a handler\<close>

type_synonym 'a step = "server_state \<Rightarrow> (response + 'a) \<times> server_state"

definition then_do :: "'a step \<Rightarrow> ('a \<Rightarrow> 'b step) \<Rightarrow> 'b step" where
  "then_do f g st = (case f st of (Inl r, st') \<Rightarrow> (Inl r, st') | (Inr x, st') \<Rightarrow> g x st')"

text \<open>\<^verbatim>\<open>x, err := f(); if err != nil { s.respondWithError(...); return }\<close>.\<close>

definition call_or :: "(server_state, 'a) op \<Rightarrow> (go_error \<Rightarrow> response) \<Rightarrow> 'a step" where
  "call_or f respond st = (case f st of (Inl e, st') \<Rightarrow> (Inl (respond e), st') | (Inr x, st') \<Rightarrow> (Inr x, st'))"

definition try_or :: "'a result \<Rightarrow> (go_error \<Rightarrow> response) \<Rightarrow> 'a step" where
  "try_or r respond st = (case r of Inl e \<Rightarrow> (Inl (respond e), st) | Inr x \<Rightarrow> (Inr x, st))"

definition ensure :: "bool \<Rightarrow> response \<Rightarrow> unit step" where
  "ensure b r st = (if b then (Inr (), st) else (Inl r, st))"

definition send :: "response \<Rightarrow> 'a step" where
  "send r st = (Inl r, st)"

definition continue :: "'a \<Rightarrow> 'a step" where
  "continue x st = (Inr x, st)"

text \<open>Every path of a handler ends in a response.\<close>

definition answer :: "response step \<Rightarrow> server_state \<Rightarrow> response \<times> server_state" where
  "answer f st = (case f st of (Inl r, st') \<Rightarrow> (r, st') | (Inr r, st') \<Rightarrow> (r, st'))"

subsection \<open>Reasoning about steps\<close>

definition yields ::
  "'a step \<Rightarrow> server_state \<Rightarrow> (response \<Rightarrow> server_state \<Rightarrow> bool) \<Rightarrow> ('a \<Rightarrow> server_state \<Rightarrow> bool) \<Rightarrow> bool" where
  "yields f st E Q \<longleftrightarrow> (case f st of (Inl r, st') \<Rightarrow> E r st' | (Inr x, st') \<Rightarrow> Q x st')"

lemma yields_then:
  "yields f st E (\<lambda>x st'. yields (g x) st' E Q) \<Longrightarrow> yields (then_do f g) st E Q"
  by (auto simp: yields_def then_do_def split: prod.splits sum.splits)

lemma yields_mono: "yields f st E Q \<Longrightarrow> (\<And>x st'. Q x st' \<Longrightarrow> Q' x st') \<Longrightarrow> yields f st E Q'"
  by (auto simp: yields_def split: prod.splits sum.splits)

lemma yields_try:
  "(\<And>e. r = Inl e \<Longrightarrow> E (respond e) st) \<Longrightarrow> (\<And>x. r = Inr x \<Longrightarrow> Q x st) \<Longrightarrow>
   yields (try_or r respond) st E Q"
  by (auto simp: yields_def try_or_def split: sum.splits)

lemma yields_ensure: "(\<not> b \<Longrightarrow> E r st) \<Longrightarrow> (b \<Longrightarrow> Q () st) \<Longrightarrow> yields (ensure b r) st E Q"
  by (auto simp: yields_def ensure_def)

lemma yields_send: "E r st \<Longrightarrow> yields (send r) st E Q"
  by (simp add: yields_def send_def)

lemma yields_continue: "Q x st \<Longrightarrow> yields (continue x) st E Q"
  by (simp add: yields_def continue_def)

text \<open>A database call, given the contract of the operation.\<close>

lemma yields_db:
  assumes f: "conn_ok db_good db_committed db_pending P f" and st: "ready st"
    and E: "\<And>e st'. ready st' \<Longrightarrow> tables_of st' = tables_of st \<Longrightarrow> ss_log st' = ss_log st \<Longrightarrow> E (respond e) st'"
    and Q: "\<And>x st'. ready st' \<Longrightarrow> P (tables_of st) x (tables_of st') \<Longrightarrow> ss_log st' = ss_log st \<Longrightarrow> Q x st'"
  shows "yields (call_or (db_op f) respond) st E Q"
proof -
  obtain r d where e: "f (ss_db st) = (r, d)" by (cases "f (ss_db st)")
  from st have "db_good (ss_db st)" "db_pending (ss_db st) = None" by (simp_all add: ready_def)
  from conn_okD [OF f this e] show ?thesis
    using E [of "st\<lparr> ss_db := d \<rparr>"] Q [of "st\<lparr> ss_db := d \<rparr>"]
    by (auto simp: yields_def call_or_def db_op_def e ready_def tables_of_def split: sum.splits)
qed

text \<open>A read.\<close>

lemma yields_read:
  assumes f: "conn_ok db_good db_committed db_pending (query_spec q) f" and st: "ready st"
    and E: "\<And>e st'. ready st' \<Longrightarrow> tables_of st' = tables_of st \<Longrightarrow> ss_log st' = ss_log st \<Longrightarrow> E (respond e) st'"
    and Q: "\<And>st'. ready st' \<Longrightarrow> tables_of st' = tables_of st \<Longrightarrow> ss_log st' = ss_log st \<Longrightarrow> Q (q (tables_of st)) st'"
  shows "yields (call_or (db_op f) respond) st E Q"
  by (rule yields_db [OF f st]) (auto simp: query_spec_def intro: E Q)

lemma yields_submit:
  assumes st: "ready st"
    and E: "\<And>e st'. ready st' \<Longrightarrow> tables_of st' = tables_of st \<Longrightarrow>
      ss_log st' = ss_log st @ acknowledged reply message \<Longrightarrow> E (respond e) st'"
    and Q: "\<And>root st'. ready st' \<Longrightarrow> tables_of st' = tables_of st \<Longrightarrow>
      ss_log st' = ss_log st @ [(message, Inr root)] \<Longrightarrow> reply = Answered 200 (Inr root) \<Longrightarrow> Q root st'"
  shows "yields (call_or (submit_op reply message) respond) st E Q"
proof (cases "SubmitMessage reply")
  case (Inl e)
  have "E (respond e) (st\<lparr> ss_log := ss_log st @ acknowledged reply message \<rparr>)"
    using st by (intro E) (simp_all add: ready_def tables_of_def)
  with Inl show ?thesis by (simp add: yields_def call_or_def submit_op_def)
next
  case (Inr root)
  then have a: "reply = Answered 200 (Inr root)" by (simp add: SubmitMessage_Inr)
  have "Q root (st\<lparr> ss_log := ss_log st @ [(message, Inr root)] \<rparr>)"
    using st a by (intro Q) (simp_all add: ready_def tables_of_def)
  with Inr a show ?thesis by (simp add: yields_def call_or_def submit_op_def acknowledged_def)
qed

lemma answer_yields:
  assumes "yields f st P P" "answer f st = (r, st')"
  shows "P r st'"
  using assms by (auto simp: yields_def answer_def split: prod.splits sum.splits)

end
