(* ===== verification/Handlers.thy ===== *)
theory Handlers
  imports Api
begin

section \<open>The protocol actions\<close>

text \<open>
  \<^verbatim>\<open>internal/api/protocol_actions.go\<close>: one handler per action, each the sequence of its Go
  statements. All but the last two decode the payload, look up the keys the message must be
  signed with, check the signature, submit the signed part to the log, and only then change the
  database through the domain service.
\<close>

subsection \<open>What the handlers share\<close>

text \<open>
  The loop over the stored keys: skip the ones that do not decode and those \<open>skip\<close> rules out,
  and stop at the first under which the signature verifies.
\<close>

fun valid_signature :: "prims \<Rightarrow> protocol_message \<Rightarrow> (bytes \<Rightarrow> bool) \<Rightarrow> public_key list \<Rightarrow> bool" where
  "valid_signature P msg skip [] = False"
| "valid_signature P msg skip (key # keys) =
     (case DecodePublicKey (pk_public_key key) of
        Inl _ \<Rightarrow> valid_signature P msg skip keys
      | Inr pubKey \<Rightarrow>
          if skip pubKey then valid_signature P msg skip keys
          else (case VerifyMessageSignature P msg pubKey of
                  Inr _ \<Rightarrow> True
                | Inl _ \<Rightarrow> valid_signature P msg skip keys))"

text \<open>
  The signed part is marshalled and submitted. The bytes are those of \<^verbatim>\<open>json.Marshal\<close>,
  not the canonical ones the signature is over.
\<close>

definition submit_to_log :: "request_world \<Rightarrow> protocol_message \<Rightarrow> string step" where
  "submit_to_log w msg =
     then_do (try_or (marshal_signed (signed_part msg))
                (\<lambda>_. respondWithError 500 ''Failed to marshal message for SigSum'')) (\<lambda>signedMsgBytes.
     call_or (submit_op (rw_sigsum w) signedMsgBytes)
       (\<lambda>_. respondWithError 500 ''Failed to submit message to SigSum''))"

fun decode_symmetric_keys :: "(string \<times> string) list \<Rightarrow> (string \<times> bytes) list step" where
  "decode_symmetric_keys [] = continue []"
| "decode_symmetric_keys ((attr, keyStr) # rest) =
     (case raw_url_decode keyStr of
        None \<Rightarrow> send (respondWithError 400 (''Invalid base64 for symmetric key: '' @ attr))
      | Some keyBytes \<Rightarrow>
          then_do (decode_symmetric_keys rest) (\<lambda>ks. continue ((attr, keyBytes) # ks)))"

definition list_keys_or :: "string \<Rightarrow> string \<Rightarrow> public_key list step" where
  "list_keys_or actorID message =
     call_or (db_op (ListKeysForActor db_repo actorID)) (\<lambda>_. respondWithError 500 message)"

text \<open>The check of all actions but the first two: some active key of the actor signed.\<close>

definition signed_by_actor ::
  "server_env \<Rightarrow> protocol_message \<Rightarrow> string \<Rightarrow> string \<Rightarrow> string \<Rightarrow> string \<Rightarrow> unit step" where
  "signed_by_actor env msg actorID fetchFailed noKeys invalid =
     then_do (list_keys_or actorID fetchFailed) (\<lambda>existingKeys.
     then_do (ensure (existingKeys \<noteq> []) (respondWithError 400 noKeys)) (\<lambda>_.
     ensure (valid_signature (sv_prims env) msg (\<lambda>_. False) existingKeys) (respondWithError 401 invalid)))"

subsection \<open>AddKey\<close>

definition add_key_signature :: "server_env \<Rightarrow> protocol_message \<Rightarrow> add_key_message \<Rightarrow> public_key list \<Rightarrow> unit step" where
  "add_key_signature env msg addKeyMsg existingKeys =
     (if existingKeys = [] then
        then_do (try_or (DecodePublicKey (ak_public_key addKeyMsg))
                   (\<lambda>e. respondWithError 400 (''Invalid public key format for self-signing: '' @ error_text e)))
          (\<lambda>pubKey. try_or (VerifyMessageSignature (sv_prims env) msg pubKey)
                      (\<lambda>_. respondWithError 401 ''Invalid self-signature on first AddKey message''))
      else
        ensure (valid_signature (sv_prims env) msg (\<lambda>_. False) existingKeys)
          (respondWithError 401 ''Invalid signature: AddKey must be signed by an existing key''))"

definition processAddKeyAction :: "server_env \<Rightarrow> request_world \<Rightarrow> protocol_message \<Rightarrow> response step" where
  "processAddKeyAction env w msg =
     then_do (try_or (unmarshal_add_key (pm_message msg))
                (\<lambda>_. respondWithError 400 ''Invalid AddKey message format'')) (\<lambda>addKeyMsg.
     then_do (list_keys_or (ak_actor addKeyMsg) ''Failed to check for existing keys'') (\<lambda>existingKeys.
     then_do (add_key_signature env msg addKeyMsg existingKeys) (\<lambda>_.
     then_do (submit_to_log w msg) (\<lambda>merkleRoot.
     then_do (decode_symmetric_keys (pm_symmetric_keys msg)) (\<lambda>decodedSymKeys.
     then_do (call_or (db_op (ProcessAddKey db_repo (rw_rand w) addKeyMsg merkleRoot decodedSymKeys))
                (\<lambda>e. respondWithError 500 (''Failed to process AddKey in database: '' @ error_text e))) (\<lambda>newKey.
     continue (respondWithJSON 200 (fields_payload
       [(''key_id'', pk_key_id newKey), (''merkle_root'', pk_merkle_root newKey)]))))))))"

subsection \<open>RevokeKey\<close>

definition processRevokeKeyAction :: "server_env \<Rightarrow> request_world \<Rightarrow> protocol_message \<Rightarrow> response step" where
  "processRevokeKeyAction env w msg =
     then_do (try_or (unmarshal_revoke_key (pm_message msg))
                (\<lambda>_. respondWithError 400 ''Invalid RevokeKey message format'')) (\<lambda>revokeMsg.
     then_do (list_keys_or (rk_actor revokeMsg) ''Failed to fetch existing keys'') (\<lambda>existingKeys.
     then_do (ensure (\<not> length existingKeys < 2)
                (respondWithError 400 ''Cannot use RevokeKey on the last remaining key'')) (\<lambda>_.
     then_do (try_or (DecodePublicKey (rk_public_key revokeMsg))
                (\<lambda>_. respondWithError 400 ''Invalid public key format in revocation message'')) (\<lambda>keyToRevoke.
     then_do (ensure (valid_signature (sv_prims env) msg (\<lambda>k. k = keyToRevoke) existingKeys)
                (respondWithError 401
                   ''Invalid signature: RevokeKey must be signed by another valid key for the actor'')) (\<lambda>_.
     then_do (submit_to_log w msg) (\<lambda>merkleRoot.
     then_do (decode_symmetric_keys (pm_symmetric_keys msg)) (\<lambda>decodedSymKeys.
     then_do (call_or (db_op (ProcessRevokeKey db_repo revokeMsg merkleRoot decodedSymKeys))
                (\<lambda>e. respondWithError 500 (''Failed to process RevokeKey in database: '' @ error_text e))) (\<lambda>_.
     continue (respondWithJSON 200 (fields_payload [(''status'', ''RevokeKey processed successfully'')]))))))))))"

subsection \<open>MoveIdentity\<close>

definition processMoveIdentityAction :: "server_env \<Rightarrow> request_world \<Rightarrow> protocol_message \<Rightarrow> response step" where
  "processMoveIdentityAction env w msg =
     then_do (try_or (unmarshal_move_identity (pm_message msg))
                (\<lambda>_. respondWithError 400 ''Invalid MoveIdentity message format'')) (\<lambda>moveMsg.
     then_do (signed_by_actor env msg (mi_old_actor moveMsg)
                ''Failed to fetch existing keys for old actor'' ''Old actor has no keys to sign with''
                ''Invalid signature: MoveIdentity must be signed by a key from the old actor'') (\<lambda>_.
     then_do (submit_to_log w msg) (\<lambda>merkleRoot.
     then_do (call_or (db_op (ProcessMoveIdentity db_repo moveMsg merkleRoot))
                (\<lambda>e. respondWithError 500 (''Failed to process MoveIdentity in database: '' @ error_text e))) (\<lambda>_.
     continue (respondWithJSON 200 (fields_payload [(''status'', ''MoveIdentity processed successfully'')]))))))"

subsection \<open>BurnDown\<close>

text \<open>The check of the one-time password, for an operator that has enrolled a secret.\<close>

definition check_otp :: "server_env \<Rightarrow> request_world \<Rightarrow> protocol_message \<Rightarrow> bytes option \<Rightarrow> unit step" where
  "check_otp env w msg encryptedSecret =
     (case encryptedSecret of
        None \<Rightarrow> continue ()
      | Some sealed \<Rightarrow>
          then_do (ensure (pm_otp msg \<noteq> []) (respondWithError 400 ''Missing OTP for BurnDown action'')) (\<lambda>_.
          (case sv_hpke_private env of
             None \<Rightarrow> send (respondWithError 500 ''Internal server error processing key'')
           | Some privateKey \<Rightarrow>
               then_do (try_or (DecryptWithHPKE (sv_enc env) privateKey sealed)
                          (\<lambda>_. respondWithError 500 ''Could not process TOTP secret'')) (\<lambda>secret.
               ensure (ValidateTOTP (sv_enc env) (rw_now w) (string_of_bytes secret) (pm_otp msg))
                 (respondWithError 401 ''Invalid OTP'')))))"

definition processBurnDownAction :: "server_env \<Rightarrow> request_world \<Rightarrow> protocol_message \<Rightarrow> response step" where
  "processBurnDownAction env w msg =
     then_do (try_or (unmarshal_burn_down (pm_message msg))
                (\<lambda>_. respondWithError 400 ''Invalid BurnDown message format'')) (\<lambda>burnMsg.
     then_do (signed_by_actor env msg (bd_operator burnMsg)
                ''Failed to fetch existing keys for operator'' ''Operator has no keys to sign with''
                ''Invalid signature: BurnDown must be signed by a key from the operator'') (\<lambda>_.
     then_do (call_or (db_op (GetTOTPSecret db_repo (bd_operator burnMsg)))
                (\<lambda>_. respondWithError 500 ''Failed to retrieve TOTP secret'')) (\<lambda>encryptedSecret.
     then_do (check_otp env w msg encryptedSecret) (\<lambda>_.
     then_do (submit_to_log w msg) (\<lambda>merkleRoot.
     then_do (call_or (db_op (ProcessBurnDown db_repo (bd_actor burnMsg) merkleRoot))
                (\<lambda>e. respondWithError 500 (''Failed to process BurnDown in database: '' @ error_text e))) (\<lambda>_.
     continue (respondWithJSON 200 (fields_payload [(''status'', ''BurnDown processed successfully'')]))))))))"

subsection \<open>Fireproof and UndoFireproof\<close>

definition processFireproofAction :: "server_env \<Rightarrow> request_world \<Rightarrow> protocol_message \<Rightarrow> response step" where
  "processFireproofAction env w msg =
     then_do (try_or (unmarshal_fireproof (pm_message msg))
                (\<lambda>_. respondWithError 400 ''Invalid Fireproof message format'')) (\<lambda>fireproofMsg.
     then_do (signed_by_actor env msg (fp_actor fireproofMsg)
                ''Failed to fetch existing keys for actor'' ''Actor has no keys to sign with''
                ''Invalid signature: Fireproof must be signed by a key from the actor'') (\<lambda>_.
     then_do (submit_to_log w msg) (\<lambda>_.
     then_do (call_or (db_op (SetFireproof db_repo (fp_actor fireproofMsg) True))
                (\<lambda>e. respondWithError 500 (''Failed to set fireproof status: '' @ error_text e))) (\<lambda>_.
     continue (respondWithJSON 200 (fields_payload [(''status'', ''Fireproof processed successfully'')]))))))"

definition processUndoFireproofAction :: "server_env \<Rightarrow> request_world \<Rightarrow> protocol_message \<Rightarrow> response step" where
  "processUndoFireproofAction env w msg =
     then_do (try_or (unmarshal_undo_fireproof (pm_message msg))
                (\<lambda>_. respondWithError 400 ''Invalid UndoFireproof message format'')) (\<lambda>undoMsg.
     then_do (signed_by_actor env msg (uf_actor undoMsg)
                ''Failed to fetch existing keys for actor'' ''Actor has no keys to sign with''
                ''Invalid signature: UndoFireproof must be signed by a key from the actor'') (\<lambda>_.
     then_do (submit_to_log w msg) (\<lambda>_.
     then_do (call_or (db_op (SetFireproof db_repo (uf_actor undoMsg) False))
                (\<lambda>e. respondWithError 500 (''Failed to set fireproof status: '' @ error_text e))) (\<lambda>_.
     continue (respondWithJSON 200 (fields_payload [(''status'', ''UndoFireproof processed successfully'')]))))))"

subsection \<open>Auxiliary data\<close>

definition processAddAuxDataAction :: "server_env \<Rightarrow> request_world \<Rightarrow> protocol_message \<Rightarrow> response step" where
  "processAddAuxDataAction env w msg =
     then_do (try_or (unmarshal_add_aux_data (pm_message msg))
                (\<lambda>_. respondWithError 400 ''Invalid AddAuxData message format'')) (\<lambda>addAuxMsg.
     then_do (signed_by_actor env msg (aa_actor addAuxMsg)
                ''Failed to fetch existing keys for actor'' ''Actor has no keys to sign with''
                ''Invalid signature: AddAuxData must be signed by a key from the actor'') (\<lambda>_.
     then_do (submit_to_log w msg) (\<lambda>merkleRoot.
     then_do (call_or (db_op (ProcessAddAuxData db_repo (sv_registry env) (rw_rand w) (rw_now w) addAuxMsg merkleRoot))
                (\<lambda>e. respondWithError 500 (''Failed to process AddAuxData in database: '' @ error_text e))) (\<lambda>newAux.
     continue (respondWithJSON 200 (fields_payload [(''aux_id'', ad_aux_id newAux)]))))))"

definition processRevokeAuxDataAction :: "server_env \<Rightarrow> request_world \<Rightarrow> protocol_message \<Rightarrow> response step" where
  "processRevokeAuxDataAction env w msg =
     then_do (try_or (unmarshal_revoke_aux_data (pm_message msg))
                (\<lambda>_. respondWithError 400 ''Invalid RevokeAuxData message format'')) (\<lambda>revokeAuxMsg.
     then_do (signed_by_actor env msg (ra_actor revokeAuxMsg)
                ''Failed to fetch existing keys for actor'' ''Actor has no keys to sign with''
                ''Invalid signature: RevokeAuxData must be signed by a key from the actor'') (\<lambda>_.
     then_do (submit_to_log w msg) (\<lambda>merkleRoot.
     then_do (call_or (db_op (ProcessRevokeAuxData db_repo revokeAuxMsg merkleRoot))
                (\<lambda>e. respondWithError 500 (''Failed to process RevokeAuxData in database: '' @ error_text e))) (\<lambda>_.
     continue (respondWithJSON 200 (fields_payload [(''status'', ''RevokeAuxData processed successfully'')]))))))"

subsection \<open>Query and Checkpoint\<close>

definition processQueryAction :: "server_env \<Rightarrow> request_world \<Rightarrow> protocol_message \<Rightarrow> response step" where
  "processQueryAction env w msg =
     then_do (try_or (unmarshal_query (pm_message msg))
                (\<lambda>_. respondWithError 400 ''Invalid Query message format'')) (\<lambda>queryMsg.
     then_do (list_keys_or (q_actor queryMsg) ''Failed to retrieve actor keys'') (\<lambda>keys.
     continue (respondWithJSON 200 (Inr (json_slice marshal_public_key keys)))))"

definition processCheckpointAction :: "server_env \<Rightarrow> request_world \<Rightarrow> protocol_message \<Rightarrow> response step" where
  "processCheckpointAction env w msg =
     then_do (try_or (unmarshal_checkpoint (pm_message msg))
                (\<lambda>_. respondWithError 400 ''Invalid Checkpoint message format'')) (\<lambda>checkpointMsg.
     then_do (try_or (getDirectoryPublicKey (sv_peers env) (cp_from_directory checkpointMsg))
                (\<lambda>e. respondWithError 400 (''Unknown or invalid from-directory: '' @ error_text e))) (\<lambda>signingKey.
     then_do (try_or (VerifyMessageSignature (sv_prims env) msg signingKey)
                (\<lambda>_. respondWithError 401 ''Invalid signature from directory server'')) (\<lambda>_.
     then_do (try_or (marshal_protocol msg)
                (\<lambda>_. respondWithError 500 ''Failed to re-marshal raw message'')) (\<lambda>rawMsgBytes.
     then_do (call_or (db_op (StoreMessage db_repo (HashBytes (sv_prims env) (bytes_of_string rawMsgBytes)) rawMsgBytes msg))
                (\<lambda>e. respondWithError 500 (''Failed to store checkpoint message: '' @ error_text e))) (\<lambda>_.
     continue (respondWithJSON 200 (fields_payload [(''status'', ''Checkpoint processed successfully'')])))))))"

subsection \<open>The table of actions\<close>

definition actionHandlers ::
  "server_env \<Rightarrow> request_world \<Rightarrow> string \<Rightarrow> (protocol_message \<Rightarrow> response step) option" where
  "actionHandlers env w =
     map_of
       [(''AddKey'', processAddKeyAction env w), (''RevokeKey'', processRevokeKeyAction env w),
        (''MoveIdentity'', processMoveIdentityAction env w), (''BurnDown'', processBurnDownAction env w),
        (''Fireproof'', processFireproofAction env w), (''UndoFireproof'', processUndoFireproofAction env w),
        (''AddAuxData'', processAddAuxDataAction env w), (''RevokeAuxData'', processRevokeAuxDataAction env w),
        (''Checkpoint'', processCheckpointAction env w), (''Query'', processQueryAction env w)]"

end
