(* ===== verification/Outcomes.thy ===== *)
theory Outcomes
  imports Handlers
begin

section \<open>What a handler's answer means\<close>

text \<open>
  For each action: the request is refused, with a status other than 200 and the tables as they
  were, or it is accepted, with the payload decoded, the signature checked, the signed part
  in the log, and the tables changed as the action's relation says. The lemmas follow the steps
  of each handler with the rules of \<open>Api\<close>.
\<close>

definition same :: "server_state \<Rightarrow> server_state \<Rightarrow> bool" where
  "same st st' \<longleftrightarrow> ready st' \<and> tables_of st' = tables_of st \<and> ss_log st' = ss_log st"

definition refused :: "server_state \<Rightarrow> response \<Rightarrow> server_state \<Rightarrow> bool" where
  "refused st r st' \<longleftrightarrow>
     rs_status r \<noteq> 200 \<and> ready st' \<and> tables_of st' = tables_of st \<and> (\<exists>xs. ss_log st' = ss_log st @ xs)"

text \<open>The signed part of the message is in the log, under the given root.\<close>

definition logged ::
  "request_world \<Rightarrow> protocol_message \<Rightarrow> string \<Rightarrow> server_state \<Rightarrow> server_state \<Rightarrow> bool" where
  "logged w msg root st st' \<longleftrightarrow>
     rw_sigsum w = Answered 200 (Inr root) \<and>
     (\<exists>body. marshal_signed (signed_part msg) = Inr body \<and> ss_log st' = ss_log st @ [(body, Inr root)])"

definition signed_by :: "prims \<Rightarrow> protocol_message \<Rightarrow> public_key \<Rightarrow> bool" where
  "signed_by P msg k \<longleftrightarrow>
     (\<exists>pk. DecodePublicKey (pk_public_key k) = Inr pk \<and> VerifyMessageSignature P msg pk = Inr ())"

definition signed_by_active :: "prims \<Rightarrow> protocol_message \<Rightarrow> string \<Rightarrow> tables \<Rightarrow> bool" where
  "signed_by_active P msg actorID t \<longleftrightarrow> (\<exists>k \<in> set (active_keys actorID t). signed_by P msg k)"

lemma valid_signature_iff:
  "valid_signature P msg skip keys \<longleftrightarrow>
     (\<exists>k \<in> set keys. \<exists>pk. DecodePublicKey (pk_public_key k) = Inr pk \<and> \<not> skip pk \<and>
        VerifyMessageSignature P msg pk = Inr ())"
  by (induction keys) (auto split: sum.splits)

subsection \<open>Rules for the shared steps\<close>

lemma same_refl: "ready st \<Longrightarrow> same st st"
  by (simp add: same_def)

lemma refused_same: "same st st' \<Longrightarrow> code \<noteq> 200 \<Longrightarrow> refused st (respondWithError code m) st'"
  by (simp add: refused_def same_def)

lemma refused_logged:
  "ready st' \<Longrightarrow> tables_of st' = tables_of st \<Longrightarrow> ss_log st' = ss_log st @ xs \<Longrightarrow> code \<noteq> 200 \<Longrightarrow>
   refused st (respondWithError code m) st'"
  by (simp add: refused_def)

lemma list_keys_step:
  assumes "same st0 st" "\<And>r st'. refused st0 r st' \<Longrightarrow> E r st'"
    and "\<And>st'. same st0 st' \<Longrightarrow> Q (active_keys a (tables_of st0)) st'"
  shows "yields (list_keys_or a m) st E Q"
  unfolding list_keys_or_def
  by (rule yields_read [OF db.list_keys])
    (use assms in \<open>auto simp: same_def intro!: assms(2) refused_same\<close>)

lemma submit_step:
  assumes "same st0 st" "\<And>r st'. refused st0 r st' \<Longrightarrow> E r st'"
    and "\<And>root st'. ready st' \<Longrightarrow> tables_of st' = tables_of st0 \<Longrightarrow> logged w msg root st0 st' \<Longrightarrow> Q root st'"
  shows "yields (submit_to_log w msg) st E Q"
  unfolding submit_to_log_def
proof (rule yields_then, rule yields_try)
  fix e
  show "E (respondWithError 500 ''Failed to marshal message for SigSum'') st"
    using assms(1) by (intro assms(2) refused_same) simp_all
next
  fix body
  assume body: "marshal_signed (signed_part msg) = Inr body"
  show "yields (call_or (submit_op (rw_sigsum w) body)
      (\<lambda>_. respondWithError 500 ''Failed to submit message to SigSum'')) st E Q"
  proof (rule yields_submit)
    show "ready st" using assms(1) by (simp add: same_def)
  next
    fix e :: go_error and st'
    assume "ready st'" "tables_of st' = tables_of st" "ss_log st' = ss_log st @ acknowledged (rw_sigsum w) body"
    then show "E (respondWithError 500 ''Failed to submit message to SigSum'') st'"
      using assms(1) by (intro assms(2) refused_logged) (auto simp: same_def)
  next
    fix root st'
    assume "ready st'" "tables_of st' = tables_of st" "ss_log st' = ss_log st @ [(body, Inr root)]"
      "rw_sigsum w = Answered 200 (Inr root)"
    then show "Q root st'"
      using assms(1) body by (intro assms(3)) (auto simp: same_def logged_def)
  qed
qed

lemma decode_step:
  assumes "\<And>m. E (respondWithError 400 m) st"
    and "\<And>ks. list_all2 (\<lambda>(a, s) (b, k). a = b \<and> raw_url_decode s = Some k) enc ks \<Longrightarrow> Q ks st"
  shows "yields (decode_symmetric_keys enc) st E Q"
  using assms(2)
proof (induction enc arbitrary: Q)
  case Nil
  then show ?case by (auto intro: yields_continue)
next
  case (Cons p enc)
  obtain a s where p: "p = (a, s)" by (cases p)
  show ?case
  proof (cases "raw_url_decode s")
    case None
    then show ?thesis by (simp add: p yields_send assms(1))
  next
    case (Some k)
    show ?thesis
      unfolding p decode_symmetric_keys.simps Some option.case
      by (rule yields_then, rule Cons.IH, rule yields_continue, rule Cons.prems) (simp add: p Some)
  qed
qed

lemma signed_step:
  assumes "same st0 st" "\<And>r st'. refused st0 r st' \<Longrightarrow> E r st'"
    and "\<And>st'. same st0 st' \<Longrightarrow> signed_by_active (sv_prims env) msg a (tables_of st0) \<Longrightarrow> Q () st'"
  shows "yields (signed_by_actor env msg a m1 m2 m3) st E Q"
  unfolding signed_by_actor_def
proof (rule yields_then, rule list_keys_step [OF assms(1,2)])
  fix st'
  assume s: "same st0 st'"
  show "yields (then_do (ensure (active_keys a (tables_of st0) \<noteq> []) (respondWithError 400 m2)) (\<lambda>_.
      ensure (valid_signature (sv_prims env) msg (\<lambda>_. False) (active_keys a (tables_of st0)))
        (respondWithError 401 m3))) st' E Q"
    by (rule yields_then, rule yields_ensure, (rule assms(2), rule refused_same [OF s], simp)[1],
        rule yields_ensure, (rule assms(2), rule refused_same [OF s], simp)[1],
        rule assms(3) [OF s])
      (auto simp: signed_by_active_def signed_by_def valid_signature_iff)
qed

lemma service_step:
  assumes "conn_ok db_good db_committed db_pending P f"
    and st: "ready st" "tables_of st = tables_of st0" "logged w msg root st0 st"
    and E: "\<And>r st'. refused st0 r st' \<Longrightarrow> E r st'"
    and Q: "\<And>x st'. ready st' \<Longrightarrow> P (tables_of st0) x (tables_of st') \<Longrightarrow> logged w msg root st0 st' \<Longrightarrow> Q x st'"
  shows "yields (call_or (db_op f) (\<lambda>e. respondWithError 500 (pre @ error_text e))) st E Q"
proof (rule yields_db [OF assms(1) st(1)])
  fix e st'
  assume "ready st'" "tables_of st' = tables_of st" "ss_log st' = ss_log st"
  with st show "E (respondWithError 500 (pre @ error_text e)) st'"
    by (intro E) (auto simp: refused_def logged_def)
next
  fix x st'
  assume "ready st'" "P (tables_of st) x (tables_of st')" "ss_log st' = ss_log st"
  with st show "Q x st'" by (intro Q) (auto simp: logged_def)
qed

subsection \<open>Accepted requests\<close>

definition decoded_keys :: "(string \<times> string) list \<Rightarrow> (string \<times> bytes) list \<Rightarrow> bool" where
  "decoded_keys enc ks \<longleftrightarrow> list_all2 (\<lambda>(a, s) (b, k). a = b \<and> raw_url_decode s = Some k) enc ks"

text \<open>The first key signs for itself, every later one is signed for by an active key.\<close>

definition add_key_authorised :: "prims \<Rightarrow> protocol_message \<Rightarrow> add_key_message \<Rightarrow> tables \<Rightarrow> bool" where
  "add_key_authorised P msg m t \<longleftrightarrow>
     (if active_keys (ak_actor m) t = []
      then \<exists>pk. DecodePublicKey (ak_public_key m) = Inr pk \<and> VerifyMessageSignature P msg pk = Inr ()
      else signed_by_active P msg (ak_actor m) t)"

definition accepted_add_key ::
  "server_env \<Rightarrow> request_world \<Rightarrow> protocol_message \<Rightarrow> server_state \<Rightarrow> response \<Rightarrow> server_state \<Rightarrow> bool" where
  "accepted_add_key env w msg st r st' \<longleftrightarrow>
     ready st' \<and> (\<exists>m root ks k. unmarshal_add_key (pm_message msg) = Inr m \<and>
        add_key_authorised (sv_prims env) msg m (tables_of st) \<and> logged w msg root st st' \<and>
        decoded_keys (pm_symmetric_keys msg) ks \<and>
        add_key_spec (rw_rand w) m root ks (tables_of st) k (tables_of st') \<and>
        r = respondWithJSON 200 (fields_payload [(''key_id'', pk_key_id k), (''merkle_root'', root)]))"

lemma add_key_outcome:
  assumes "ready st" "answer (processAddKeyAction env w msg) st = (r, st')"
  shows "refused st r st' \<or> accepted_add_key env w msg st r st'"
proof (rule answer_yields [OF _ assms(2)])
  let ?E = "\<lambda>r st'. refused st r st' \<or> accepted_add_key env w msg st r st'"
  have E: "\<And>r st'. refused st r st' \<Longrightarrow> ?E r st'" by simp
  show "yields (processAddKeyAction env w msg) st ?E ?E"
    unfolding processAddKeyAction_def
  proof (rule yields_then, rule yields_try)
    show "?E (respondWithError 400 ''Invalid AddKey message format'') st"
      using refused_same [OF same_refl [OF assms(1)]] by simp
  next
    fix m
    assume m: "unmarshal_add_key (pm_message msg) = Inr m"
    let ?ex = "active_keys (ak_actor m) (tables_of st)"
    have sig: "yields (add_key_signature env msg m ?ex) st1 ?E Q"
      if s: "same st st1" and Q: "add_key_authorised (sv_prims env) msg m (tables_of st) \<Longrightarrow> Q () st1" for st1 Q
    proof (cases "?ex = []")
      case True
      show ?thesis
        unfolding add_key_signature_def if_P [OF True]
        by (rule yields_then, rule yields_try, (rule E, rule refused_same [OF s], simp)[1],
            rule yields_try, (rule E, rule refused_same [OF s], simp)[1])
          (auto simp: add_key_authorised_def True intro!: Q)
    next
      case False
      show ?thesis
        unfolding add_key_signature_def if_not_P [OF False]
        by (rule yields_ensure, (rule E, rule refused_same [OF s], simp)[1], rule Q)
          (simp add: add_key_authorised_def False signed_by_active_def signed_by_def valid_signature_iff)
    qed
    show "yields (then_do (list_keys_or (ak_actor m) ''Failed to check for existing keys'') (\<lambda>existingKeys.
        then_do (add_key_signature env msg m existingKeys) (\<lambda>_.
        then_do (submit_to_log w msg) (\<lambda>root.
        then_do (decode_symmetric_keys (pm_symmetric_keys msg)) (\<lambda>ks.
        then_do (call_or (db_op (ProcessAddKey db_repo (rw_rand w) m root ks))
                   (\<lambda>e. respondWithError 500 (''Failed to process AddKey in database: '' @ error_text e))) (\<lambda>newKey.
        continue (respondWithJSON 200 (fields_payload
          [(''key_id'', pk_key_id newKey), (''merkle_root'', pk_merkle_root newKey)])))))))) st ?E ?E"
    proof (rule yields_then, rule list_keys_step [OF same_refl [OF assms(1)] E], assumption,
        rule yields_then, rule sig, assumption,
        rule yields_then, rule submit_step [OF _ E], assumption, assumption,
        rule yields_then, rule decode_step)
      fix st2 root msg'
      assume "ready st2" "tables_of st2 = tables_of st" "logged w msg root st st2"
      then show "?E (respondWithError 400 msg') st2" by (auto simp: refused_def logged_def)
    next
      fix st2 root ks
      assume auth: "add_key_authorised (sv_prims env) msg m (tables_of st)"
        and st2: "ready st2" "tables_of st2 = tables_of st" "logged w msg root st st2"
        and ks: "list_all2 (\<lambda>(a, s) (b, k). a = b \<and> raw_url_decode s = Some k) (pm_symmetric_keys msg) ks"
      show "yields (then_do (call_or (db_op (ProcessAddKey db_repo (rw_rand w) m root ks))
                   (\<lambda>e. respondWithError 500 (''Failed to process AddKey in database: '' @ error_text e))) (\<lambda>newKey.
        continue (respondWithJSON 200 (fields_payload
          [(''key_id'', pk_key_id newKey), (''merkle_root'', pk_merkle_root newKey)])))) st2 ?E ?E"
      proof (rule yields_then, rule service_step [OF db.add_key_ok st2 E], assumption, rule yields_continue, rule disjI2)
        fix k st3
        assume a: "ready st3" "add_key_spec (rw_rand w) m root ks (tables_of st) k (tables_of st3)"
          "logged w msg root st st3"
        have "wf_tables (tables_of st)"
          using assms(1) db_good_wf by (simp add: ready_def tables_of_def)
        from add_key_effect(2) [OF this a(2)] have "pk_merkle_root k = root" by simp
        with m auth ks a show "accepted_add_key env w msg st (respondWithJSON 200 (fields_payload
            [(''key_id'', pk_key_id k), (''merkle_root'', pk_merkle_root k)])) st3"
          unfolding accepted_add_key_def decoded_keys_def by blast
      qed
    qed
  qed
qed

subsection \<open>RevokeKey\<close>

definition ok_status :: "string \<Rightarrow> response" where
  "ok_status text = respondWithJSON 200 (fields_payload [(''status'', text)])"

definition accepted_revoke_key ::
  "server_env \<Rightarrow> request_world \<Rightarrow> protocol_message \<Rightarrow> server_state \<Rightarrow> response \<Rightarrow> server_state \<Rightarrow> bool" where
  "accepted_revoke_key env w msg st r st' \<longleftrightarrow>
     ready st' \<and> (\<exists>m root ks target k pk. unmarshal_revoke_key (pm_message msg) = Inr m \<and>
        2 \<le> length (active_keys (rk_actor m) (tables_of st)) \<and>
        DecodePublicKey (rk_public_key m) = Inr target \<and>
        k \<in> set (active_keys (rk_actor m) (tables_of st)) \<and> DecodePublicKey (pk_public_key k) = Inr pk \<and>
        pk \<noteq> target \<and> VerifyMessageSignature (sv_prims env) msg pk = Inr () \<and>
        logged w msg root st st' \<and> decoded_keys (pm_symmetric_keys msg) ks \<and>
        revoke_spec m root ks (tables_of st) () (tables_of st') \<and>
        r = ok_status ''RevokeKey processed successfully'')"

lemma revoke_key_outcome:
  assumes "ready st" "answer (processRevokeKeyAction env w msg) st = (r, st')"
  shows "refused st r st' \<or> accepted_revoke_key env w msg st r st'"
proof (rule answer_yields [OF _ assms(2)])
  let ?E = "\<lambda>r st'. refused st r st' \<or> accepted_revoke_key env w msg st r st'"
  have E: "\<And>r st'. refused st r st' \<Longrightarrow> ?E r st'" by simp
  have bad: "?E (respondWithError code t) st1" if "same st st1" "code \<noteq> 200" for code t st1
    using refused_same [OF that] by simp
  note start = same_refl [OF assms(1)]
  show "yields (processRevokeKeyAction env w msg) st ?E ?E"
    unfolding processRevokeKeyAction_def
  proof (rule yields_then, rule yields_try, (rule bad [OF start], simp)[1],
      rule yields_then, rule list_keys_step [OF start E], assumption,
      rule yields_then, rule yields_ensure, (rule bad, assumption, simp)[1],
      rule yields_then, rule yields_try, (rule bad, assumption, simp)[1],
      rule yields_then, rule yields_ensure, (rule bad, assumption, simp)[1],
      rule yields_then, rule submit_step [OF _ E], assumption, assumption,
      rule yields_then, rule decode_step)
    fix st2 root t
    assume "ready st2" "tables_of st2 = tables_of st" "logged w msg root st st2"
    then show "?E (respondWithError 400 t) st2" by (auto simp: refused_def logged_def)
  next
    fix m target st2 root ks
    assume a: "unmarshal_revoke_key (pm_message msg) = Inr m"
        "\<not> length (active_keys (rk_actor m) (tables_of st)) < 2"
        "DecodePublicKey (rk_public_key m) = Inr target"
        "valid_signature (sv_prims env) msg (\<lambda>k. k = target) (active_keys (rk_actor m) (tables_of st))"
      and st2: "ready st2" "tables_of st2 = tables_of st" "logged w msg root st st2"
      and ks: "list_all2 (\<lambda>(a, s) (b, k). a = b \<and> raw_url_decode s = Some k) (pm_symmetric_keys msg) ks"
    show "yields (then_do (call_or (db_op (ProcessRevokeKey db_repo m root ks))
                (\<lambda>e. respondWithError 500 (''Failed to process RevokeKey in database: '' @ error_text e))) (\<lambda>_.
        continue (respondWithJSON 200 (fields_payload [(''status'', ''RevokeKey processed successfully'')]))))
        st2 ?E ?E"
    proof (rule yields_then, rule service_step [OF db.process_revoke_ok st2 E], assumption,
        rule yields_continue, rule disjI2)
      fix u st3
      assume "ready st3" "revoke_spec m root ks (tables_of st) u (tables_of st3)" "logged w msg root st st3"
      moreover from a(4) obtain k pk where "k \<in> set (active_keys (rk_actor m) (tables_of st))"
        "DecodePublicKey (pk_public_key k) = Inr pk" "pk \<noteq> target"
        "VerifyMessageSignature (sv_prims env) msg pk = Inr ()"
        by (auto simp: valid_signature_iff)
      moreover have "2 \<le> length (active_keys (rk_actor m) (tables_of st))" using a(2) by simp
      ultimately show "accepted_revoke_key env w msg st
          (respondWithJSON 200 (fields_payload [(''status'', ''RevokeKey processed successfully'')])) st3"
        using a(1,3) ks unfolding accepted_revoke_key_def decoded_keys_def ok_status_def by (cases u) blast
    qed
  qed
qed

subsection \<open>The actions an active key of the actor has to sign\<close>

text \<open>
  What is common to MoveIdentity, Fireproof, UndoFireproof, AddAuxData and RevokeAuxData: \<open>u\<close> decodes
  the payload, \<open>who\<close> is the actor that signs, \<open>P\<close> the change of the tables, \<open>ok\<close> the answer.
\<close>

definition accepted ::
  "server_env \<Rightarrow> request_world \<Rightarrow> protocol_message \<Rightarrow> (string \<Rightarrow> 'm result) \<Rightarrow> ('m \<Rightarrow> string) \<Rightarrow>
   ('m \<Rightarrow> string \<Rightarrow> 'a table_spec) \<Rightarrow> ('a \<Rightarrow> response) \<Rightarrow> server_state \<Rightarrow> response \<Rightarrow> server_state \<Rightarrow> bool" where
  "accepted env w msg u who P ok st r st' \<longleftrightarrow>
     ready st' \<and> (\<exists>m root x. u (pm_message msg) = Inr m \<and>
        signed_by_active (sv_prims env) msg (who m) (tables_of st) \<and> logged w msg root st st' \<and>
        P m root (tables_of st) x (tables_of st') \<and> r = ok x)"

lemma signed_action_outcome:
  assumes st: "ready st" and f: "\<And>m root. conn_ok db_good db_committed db_pending (P m root) (f m root)"
    and ans: "answer
      (then_do (try_or (u (pm_message msg)) (\<lambda>_. respondWithError 400 m0)) (\<lambda>m.
       then_do (signed_by_actor env msg (who m) m1 m2 m3) (\<lambda>_.
       then_do (submit_to_log w msg) (\<lambda>root.
       then_do (call_or (db_op (f m root)) (\<lambda>e. respondWithError 500 (pre @ error_text e))) (\<lambda>x.
       continue (ok x)))))) st = (r, st')"
  shows "refused st r st' \<or> accepted env w msg u who P ok st r st'"
proof (rule answer_yields [OF _ ans])
  let ?E = "\<lambda>r st'. refused st r st' \<or> accepted env w msg u who P ok st r st'"
  have E: "\<And>r st'. refused st r st' \<Longrightarrow> ?E r st'" by simp
  note start = same_refl [OF st]
  show "yields
      (then_do (try_or (u (pm_message msg)) (\<lambda>_. respondWithError 400 m0)) (\<lambda>m.
       then_do (signed_by_actor env msg (who m) m1 m2 m3) (\<lambda>_.
       then_do (submit_to_log w msg) (\<lambda>root.
       then_do (call_or (db_op (f m root)) (\<lambda>e. respondWithError 500 (pre @ error_text e))) (\<lambda>x.
       continue (ok x)))))) st ?E ?E"
    by (rule yields_then, rule yields_try, (rule E, rule refused_same [OF start], simp)[1],
        rule yields_then, rule signed_step [OF start E], assumption,
        rule yields_then, rule submit_step [OF _ E], assumption, assumption,
        rule yields_then, rule service_step [OF f _ _ _ E], assumption, assumption, assumption, assumption,
        rule yields_continue, rule disjI2)
      (auto simp: accepted_def)
qed

lemma move_identity_outcome:
  "ready st \<Longrightarrow> answer (processMoveIdentityAction env w msg) st = (r, st') \<Longrightarrow>
   refused st r st' \<or>
   accepted env w msg unmarshal_move_identity mi_old_actor (\<lambda>m root. move_spec m)
     (\<lambda>_. ok_status ''MoveIdentity processed successfully'') st r st'"
  unfolding processMoveIdentityAction_def ok_status_def
  by (rule signed_action_outcome [OF _ db.move_identity_ok])

lemma fireproof_outcome:
  "ready st \<Longrightarrow> answer (processFireproofAction env w msg) st = (r, st') \<Longrightarrow>
   refused st r st' \<or>
   accepted env w msg unmarshal_fireproof fp_actor (\<lambda>m root. set_fireproof_op_spec (fp_actor m) True)
     (\<lambda>_. ok_status ''Fireproof processed successfully'') st r st'"
  unfolding processFireproofAction_def ok_status_def
  by (rule signed_action_outcome [OF _ db.set_fireproof_op])

lemma undo_fireproof_outcome:
  "ready st \<Longrightarrow> answer (processUndoFireproofAction env w msg) st = (r, st') \<Longrightarrow>
   refused st r st' \<or>
   accepted env w msg unmarshal_undo_fireproof uf_actor (\<lambda>m root. set_fireproof_op_spec (uf_actor m) False)
     (\<lambda>_. ok_status ''UndoFireproof processed successfully'') st r st'"
  unfolding processUndoFireproofAction_def ok_status_def
  by (rule signed_action_outcome [OF _ db.set_fireproof_op])

lemma add_aux_data_outcome:
  "ready st \<Longrightarrow> answer (processAddAuxDataAction env w msg) st = (r, st') \<Longrightarrow>
   refused st r st' \<or>
   accepted env w msg unmarshal_add_aux_data aa_actor
     (\<lambda>m root. add_aux_spec (sv_registry env) (rw_rand w) (rw_now w) m root)
     (\<lambda>d. respondWithJSON 200 (fields_payload [(''aux_id'', ad_aux_id d)])) st r st'"
  unfolding processAddAuxDataAction_def
  by (rule signed_action_outcome [OF _ db.add_aux_data_ok])

lemma revoke_aux_data_outcome:
  "ready st \<Longrightarrow> answer (processRevokeAuxDataAction env w msg) st = (r, st') \<Longrightarrow>
   refused st r st' \<or>
   accepted env w msg unmarshal_revoke_aux_data ra_actor revoke_aux_action_spec
     (\<lambda>_. ok_status ''RevokeAuxData processed successfully'') st r st'"
  unfolding processRevokeAuxDataAction_def ok_status_def
  by (rule signed_action_outcome [OF _ db.revoke_aux_data_ok])

subsection \<open>BurnDown\<close>

definition otp_accepted :: "server_env \<Rightarrow> request_world \<Rightarrow> protocol_message \<Rightarrow> bytes option \<Rightarrow> bool" where
  "otp_accepted env w msg sealed \<longleftrightarrow>
     (case sealed of
        None \<Rightarrow> True
      | Some c \<Rightarrow> pm_otp msg \<noteq> [] \<and>
          (\<exists>sk secret. sv_hpke_private env = Some sk \<and> DecryptWithHPKE (sv_enc env) sk c = Inr secret \<and>
             ValidateTOTP (sv_enc env) (rw_now w) (string_of_bytes secret) (pm_otp msg)))"

definition accepted_burn_down ::
  "server_env \<Rightarrow> request_world \<Rightarrow> protocol_message \<Rightarrow> server_state \<Rightarrow> response \<Rightarrow> server_state \<Rightarrow> bool" where
  "accepted_burn_down env w msg st r st' \<longleftrightarrow>
     ready st' \<and> (\<exists>m root. unmarshal_burn_down (pm_message msg) = Inr m \<and>
        signed_by_active (sv_prims env) msg (bd_operator m) (tables_of st) \<and>
        otp_accepted env w msg (totp_of (bd_operator m) (tables_of st)) \<and> logged w msg root st st' \<and>
        burn_spec (bd_actor m) root (tables_of st) () (tables_of st') \<and>
        r = ok_status ''BurnDown processed successfully'')"

lemma check_otp_step:
  assumes s: "same st0 st" and E: "\<And>r st'. refused st0 r st' \<Longrightarrow> E r st'"
    and Q: "otp_accepted env w msg sealed \<Longrightarrow> Q () st"
  shows "yields (check_otp env w msg sealed) st E Q"
proof (cases sealed)
  case None
  with Q show ?thesis by (simp add: check_otp_def otp_accepted_def yields_continue)
next
  case (Some c)
  have bad: "E (respondWithError code t) st" if "code \<noteq> 200" for code t
    using refused_same [OF s that] by (rule E)
  show ?thesis
  proof (cases "sv_hpke_private env")
    case None
    show ?thesis
      unfolding check_otp_def Some option.case None
      by (rule yields_then, rule yields_ensure, (rule bad, simp)[1], rule yields_send, rule bad) simp
  next
    case (Some sk)
    show ?thesis
      unfolding check_otp_def \<open>sealed = Some c\<close> option.case Some
      by (rule yields_then, rule yields_ensure, (rule bad, simp)[1],
          rule yields_then, rule yields_try, (rule bad, simp)[1],
          rule yields_ensure, (rule bad, simp)[1], rule Q)
        (simp add: otp_accepted_def \<open>sealed = Some c\<close> Some)
  qed
qed

lemma burn_down_outcome:
  assumes "ready st" "answer (processBurnDownAction env w msg) st = (r, st')"
  shows "refused st r st' \<or> accepted_burn_down env w msg st r st'"
proof (rule answer_yields [OF _ assms(2)])
  let ?E = "\<lambda>r st'. refused st r st' \<or> accepted_burn_down env w msg st r st'"
  have E: "\<And>r st'. refused st r st' \<Longrightarrow> ?E r st'" by simp
  note start = same_refl [OF assms(1)]
  have totp: "yields (call_or (db_op (GetTOTPSecret db_repo i))
      (\<lambda>_. respondWithError 500 ''Failed to retrieve TOTP secret'')) st1 ?E Q"
    if s: "same st st1" and Q: "\<And>st2. same st st2 \<Longrightarrow> Q (totp_of i (tables_of st)) st2" for i st1 Q
    by (rule yields_read [OF db.get_totp])
      (use s Q in \<open>auto simp: same_def intro!: refused_same\<close>)
  show "yields (processBurnDownAction env w msg) st ?E ?E"
    unfolding processBurnDownAction_def
    by (rule yields_then, rule yields_try, (rule E, rule refused_same [OF start], simp)[1],
        rule yields_then, rule signed_step [OF start E], assumption,
        rule yields_then, rule totp, assumption,
        rule yields_then, rule check_otp_step [OF _ E], assumption, assumption,
        rule yields_then, rule submit_step [OF _ E], assumption, assumption,
        rule yields_then, rule service_step [OF db.burn_down_ok _ _ _ E], assumption, assumption, assumption,
        assumption, rule yields_continue, rule disjI2)
      (auto simp: accepted_burn_down_def ok_status_def)
qed

subsection \<open>Query and Checkpoint\<close>

lemma query_outcome:
  assumes "ready st" "answer (processQueryAction env w msg) st = (r, st')"
  shows "same st st' \<and> (rs_status r \<noteq> 200 \<or>
    (\<exists>m. unmarshal_query (pm_message msg) = Inr m \<and>
       r = respondWithJSON 200 (Inr (json_slice marshal_public_key (active_keys (q_actor m) (tables_of st))))))"
proof (rule answer_yields [OF _ assms(2)])
  let ?E = "\<lambda>r st'. same st st' \<and> (rs_status r \<noteq> 200 \<or>
    (\<exists>m. unmarshal_query (pm_message msg) = Inr m \<and>
       r = respondWithJSON 200 (Inr (json_slice marshal_public_key (active_keys (q_actor m) (tables_of st))))))"
  note start = same_refl [OF assms(1)]
  show "yields (processQueryAction env w msg) st ?E ?E"
    unfolding processQueryAction_def list_keys_or_def
    by (rule yields_then, rule yields_try, simp add: start, rule yields_then,
        rule yields_read [OF db.list_keys assms(1)])
      (auto simp: same_def intro: yields_continue)
qed

definition accepted_checkpoint ::
  "server_env \<Rightarrow> protocol_message \<Rightarrow> server_state \<Rightarrow> response \<Rightarrow> server_state \<Rightarrow> bool" where
  "accepted_checkpoint env msg st r st' \<longleftrightarrow>
     ready st' \<and> ss_log st' = ss_log st \<and>
     (\<exists>m pk raw. unmarshal_checkpoint (pm_message msg) = Inr m \<and>
        getDirectoryPublicKey (sv_peers env) (cp_from_directory m) = Inr pk \<and>
        VerifyMessageSignature (sv_prims env) msg pk = Inr () \<and> marshal_protocol msg = Inr raw \<and>
        message_stored (HashBytes (sv_prims env) (bytes_of_string raw)) raw msg (tables_of st) () (tables_of st') \<and>
        r = ok_status ''Checkpoint processed successfully'')"

lemma checkpoint_outcome:
  assumes "ready st" "answer (processCheckpointAction env w msg) st = (r, st')"
  shows "refused st r st' \<or> accepted_checkpoint env msg st r st'"
proof (rule answer_yields [OF _ assms(2)])
  let ?E = "\<lambda>r st'. refused st r st' \<or> accepted_checkpoint env msg st r st'"
  have bad: "?E (respondWithError code t) st1" if "same st st1" "code \<noteq> 200" for code t st1
    using refused_same [OF that] by simp
  note start = same_refl [OF assms(1)]
  show "yields (processCheckpointAction env w msg) st ?E ?E"
    unfolding processCheckpointAction_def
    by (rule yields_then, rule yields_try, (rule bad [OF start], simp)[1],
        rule yields_then, rule yields_try, (rule bad [OF start], simp)[1],
        rule yields_then, rule yields_try, (rule bad [OF start], simp)[1],
        rule yields_then, rule yields_try, (rule bad [OF start], simp)[1],
        rule yields_then, rule yields_db [OF db.store_message assms(1)],
        (rule bad, simp add: same_def, simp)[1], rule yields_continue, rule disjI2)
      (auto simp: accepted_checkpoint_def ok_status_def)
qed

end
