(* ===== verification/Dispatch.thy ===== *)
theory Dispatch
  imports Outcomes
begin

section \<open>The protocol endpoint\<close>

text \<open>
  \<^verbatim>\<open>internal/api/protocol_handler.go\<close> and \<^verbatim>\<open>http_signature_helpers.go\<close>: a message
  posted as ActivityPub content must carry an HTTP signature that verifies under a key fetched
  from its \<^verbatim>\<open>keyId\<close>, unless it revokes a key for a third party; then the envelope is decoded, its
  context checked and the action dispatched.
\<close>

subsection \<open>Strings\<close>

fun contains :: "string \<Rightarrow> string \<Rightarrow> bool" where
  "contains [] t = (t = [])"
| "contains (c # s) t = (has_prefix (c # s) t \<or> contains s t)"

text \<open>\<^verbatim>\<open>strings.Split\<close> on one character; the result is never empty.\<close>

fun split_on :: "char \<Rightarrow> string \<Rightarrow> string list" where
  "split_on x [] = [[]]"
| "split_on x (c # s) =
     (if c = x then [] # split_on x s
      else (case split_on x s of [] \<Rightarrow> [[c]] | p # ps \<Rightarrow> (c # p) # ps))"

text \<open>\<^verbatim>\<open>strings.SplitN(s, "=", 2)\<close>, if it has two parts.\<close>

fun split_once :: "char \<Rightarrow> string \<Rightarrow> (string \<times> string) option" where
  "split_once x [] = None"
| "split_once x (c # s) =
     (if c = x then Some ([], s) else map_option (\<lambda>(k, v). (c # k, v)) (split_once x s))"

definition trim_quotes :: "string \<Rightarrow> string" where
  "trim_quotes s = rev (dropWhile (\<lambda>c. c = CHR 0x22) (rev (dropWhile (\<lambda>c. c = CHR 0x22) s)))"

text \<open>\<^verbatim>\<open>strings.Fields\<close>, on ASCII white space.\<close>

fun fields_acc :: "string \<Rightarrow> string \<Rightarrow> string list" where
  "fields_acc w [] = (if w = [] then [] else [w])"
| "fields_acc w (c # s) =
     (if ascii_space c then (if w = [] then fields_acc [] s else w # fields_acc [] s)
      else fields_acc (w @ [c]) s)"

definition Fields :: "string \<Rightarrow> string list" where
  "Fields s = fields_acc [] s"

text \<open>Case mapping of ASCII letters; other bytes stay.\<close>

definition lower_char :: "char \<Rightarrow> char" where
  "lower_char c = (let n = of_char c in if 65 \<le> n \<and> n \<le> (90 :: nat) then char_of (n + 32) else c)"

definition upper_char :: "char \<Rightarrow> char" where
  "upper_char c = (let n = of_char c in if 97 \<le> n \<and> n \<le> (122 :: nat) then char_of (n - 32) else c)"

definition ToLower :: "string \<Rightarrow> string" where
  "ToLower s = map lower_char s"

subsection \<open>Requests\<close>

text \<open>
  How the body ends after the bytes that could be read: properly, at the limit of one megabyte
  that the router sets, or with a read error. \<open>hr_cut\<close> tells, of a body that breaks off before a
  JSON value is complete, that the decoder was still inside the value (and not already in a
  syntax error).

  The header map has canonical names. \<^verbatim>\<open>net/http\<close> takes the \<^verbatim>\<open>Host\<close> header out of the map; the
  model keeps it apart, as \<open>hr_host\<close>.
\<close>

datatype body_end = EndOfBody | BodyTooLarge | BodyBroken

record http_request =
  hr_method :: string
  hr_path :: string
  hr_host :: string
  hr_headers :: "(string \<times> string) list"
  hr_body :: string
  hr_body_end :: body_end
  hr_cut :: bool

definition token_char :: "char \<Rightarrow> bool" where
  "token_char c \<longleftrightarrow>
     (let n = of_char c :: nat in 48 \<le> n \<and> n \<le> 57 \<or> 65 \<le> n \<and> n \<le> 90 \<or> 97 \<le> n \<and> n \<le> 122) \<or>
     c \<in> set ''!#$%&*+-.^_`|~'' \<or> c = CHR 0x27"

fun canonical_from :: "bool \<Rightarrow> string \<Rightarrow> string" where
  "canonical_from up [] = []"
| "canonical_from up (c # s) =
     (if up then upper_char c else lower_char c) # canonical_from (c = CHR ''-'') s"

text \<open>\<^verbatim>\<open>textproto.CanonicalMIMEHeaderKey\<close>.\<close>

definition canonical_name :: "string \<Rightarrow> string" where
  "canonical_name s = (if list_all token_char s then canonical_from True s else s)"

definition header_get :: "http_request \<Rightarrow> string \<Rightarrow> string" where
  "header_get req name =
     (case map_of (hr_headers req) (canonical_name name) of None \<Rightarrow> [] | Some v \<Rightarrow> v)"

subsection \<open>The Signature header\<close>

definition parse_param :: "string \<Rightarrow> (string \<times> string) option" where
  "parse_param part = map_option (\<lambda>(k, v). (k, trim_quotes v)) (split_once (CHR ''='') (trim_space part))"

text \<open>The last assignment of a name wins.\<close>

definition parseSignatureHeader :: "string \<Rightarrow> string \<Rightarrow> string" where
  "parseSignatureHeader header name =
     (case map_of (rev (List.map_filter parse_param (split_on (CHR '','') header))) name of
        None \<Rightarrow> [] | Some v \<Rightarrow> v)"

definition signing_line :: "http_request \<Rightarrow> string \<Rightarrow> string" where
  "signing_line req name =
     ToLower name @ '': '' @
     (if name = ''(request-target)'' then ToLower (hr_method req) @ '' '' @ hr_path req
      else header_get req name)"

fun join_lines :: "string list \<Rightarrow> string" where
  "join_lines [] = []"
| "join_lines [x] = x"
| "join_lines (x # y # xs) = x @ newline @ join_lines (y # xs)"

definition signing_string :: "http_request \<Rightarrow> string \<Rightarrow> string" where
  "signing_string req headers = join_lines (map (signing_line req) (Fields headers))"

subsection \<open>The key of an actor\<close>

text \<open>
  The member \<^verbatim>\<open>publicKey.publicKeyPem\<close> of an actor document, decoded into the nested structs:
  each object under a matching name is decoded into the same inner struct.
\<close>

fun pem_field :: "string \<Rightarrow> jmember list \<Rightarrow> string" where
  "pem_field acc [] = acc"
| "pem_field acc ((k, _, v) # r) =
     pem_field
       (if names_field ''publicKey'' k
        then (case v of JObj ms \<Rightarrow> string_field ''publicKeyPem'' acc ms | _ \<Rightarrow> acc) else acc) r"

definition pem_ok :: "jmember list \<Rightarrow> bool" where
  "pem_ok ms \<longleftrightarrow>
     list_all (\<lambda>(k, _, v). names_field ''publicKey'' k \<longrightarrow>
       (case v of JObj es \<Rightarrow> string_field_ok ''publicKeyPem'' es | JNull \<Rightarrow> True | _ \<Rightarrow> False)) ms"

definition decode_actor_pem :: "string \<Rightarrow> string option" where
  "decode_actor_pem body =
     (case Option.bind (json_parse body) members_of of
        None \<Rightarrow> None
      | Some ms \<Rightarrow> if pem_ok ms then Some (pem_field [] ms) else None)"

definition quoted :: "string \<Rightarrow> string" where
  "quoted s = [CHR 0x27] @ s @ [CHR 0x27]"

definition key_in_document :: "string \<Rightarrow> string \<Rightarrow> bytes result" where
  "key_in_document keyID body =
     (case decode_actor_pem body of
        None \<Rightarrow> Inl (Wrap (''failed to unmarshal actor JSON for keyId '' @ quoted keyID @ '': '') json_error [])
      | Some pem \<Rightarrow>
          if pem = [] then Inl (Errorf (''actor document for keyId '' @ quoted keyID @ '' does not contain a publicKeyPem''))
          else (case DecodePublicKey pem of
                  Inl e \<Rightarrow> Inl (Wrap (''failed to decode public key for keyId '' @ quoted keyID @ '': '') e [])
                | Inr pubKey \<Rightarrow> Inr pubKey))"

definition fetch_document :: "server_env \<Rightarrow> request_world \<Rightarrow> string \<Rightarrow> string result" where
  "fetch_document env w keyID =
     (case ValidateURL (sv_url_parse env) (rw_lookup w) keyID (sv_allow_private_ips env) of
        Inl e \<Rightarrow> Inl (Wrap ''invalid keyID URL: '' e [])
      | Inr url \<Rightarrow>
          (case rw_get w (pu_text url) of
             RequestInvalid e \<Rightarrow> Inl (Wrap (''failed to create request for keyId '' @ quoted keyID @ '': '') e [])
           | SendFailed e \<Rightarrow> Inl (Wrap (''failed to fetch keyId '' @ quoted keyID @ '': '') e [])
           | Answered status body \<Rightarrow>
               if status \<noteq> 200
               then Inl (Errorf (''failed to fetch keyId '' @ quoted keyID @ '': received status code '' @ decimal status))
               else wrap_error (''failed to read response body for keyId '' @ quoted keyID) body))"

definition fetchActorPublicKey :: "server_env \<Rightarrow> request_world \<Rightarrow> string \<Rightarrow> (server_state, bytes) op" where
  "fetchActorPublicKey env w keyID st =
     (case map_of (ss_cache st) keyID of
        Some pubKey \<Rightarrow> (Inr pubKey, st)
      | None \<Rightarrow>
          (case fetch_document env w keyID of
             Inl e \<Rightarrow> (Inl e, st)
           | Inr body \<Rightarrow>
               (case key_in_document keyID body of
                  Inl e \<Rightarrow> (Inl e, st)
                | Inr pubKey \<Rightarrow> (Inr pubKey, st\<lparr> ss_cache := (keyID, pubKey) # ss_cache st \<rparr>))))"

subsection \<open>The handler\<close>

definition decode_action :: "string \<Rightarrow> string option" where
  "decode_action body =
     (case Option.bind (json_first body) members_of of
        None \<Rightarrow> None
      | Some ms \<Rightarrow> if string_field_ok ''action'' ms then Some (string_field ''action'' [] ms) else None)"

definition is_activity_pub :: "http_request \<Rightarrow> bool" where
  "is_activity_pub req \<longleftrightarrow> contains (header_get req ''Content-Type'') ''application/activity+json''"

definition check_http_signature :: "server_env \<Rightarrow> request_world \<Rightarrow> http_request \<Rightarrow> unit step" where
  "check_http_signature env w req =
     (let sigHeader = header_get req ''Signature'';
          keyID = parseSignatureHeader sigHeader ''keyId'';
          headers = parseSignatureHeader sigHeader ''headers'';
          signatureB64 = parseSignatureHeader sigHeader ''signature'' in
      then_do (ensure (sigHeader \<noteq> [])
                 (respondWithError 401 ''Missing Signature header for ActivityPub request'')) (\<lambda>_.
      then_do (ensure (keyID \<noteq> [] \<and> headers \<noteq> [] \<and> signatureB64 \<noteq> [])
                 (respondWithError 400 ''Invalid Signature header: missing keyId, headers, or signature'')) (\<lambda>_.
      then_do (call_or (fetchActorPublicKey env w keyID)
                 (\<lambda>_. respondWithError 403 ''Failed to fetch public key'')) (\<lambda>pubKey.
      (case std_decode signatureB64 of
         None \<Rightarrow> send (respondWithError 400 ''Invalid signature format: not valid base64'')
       | Some sigBytes \<Rightarrow>
           ensure (ed25519_verify (sv_prims env) pubKey (bytes_of_string (signing_string req headers)) sigBytes)
             (respondWithError 403 ''Invalid HTTP Signature''))))))"

text \<open>
  The part for ActivityPub content. It reads the whole body first; what follows decodes the body
  again, from the copy.
\<close>

definition activity_pub_step :: "server_env \<Rightarrow> request_world \<Rightarrow> http_request \<Rightarrow> unit step" where
  "activity_pub_step env w req =
     (case hr_body_end req of
        BodyTooLarge \<Rightarrow> send (respondWithError 413 ''Request body too large'')
      | BodyBroken \<Rightarrow> send (respondWithError 500 ''Failed to read request body'')
      | EndOfBody \<Rightarrow>
          (case decode_action (hr_body req) of
             None \<Rightarrow> send (respondWithError 400 ''Invalid JSON body'')
           | Some action \<Rightarrow>
               if action \<noteq> ''RevokeKeyThirdParty'' then check_http_signature env w req
               else continue ()))"

definition decode_error :: "http_request \<Rightarrow> response" where
  "decode_error req =
     (if hr_body_end req = BodyTooLarge \<and> hr_cut req
      then respondWithError 413 ''Request body too large''
      else respondWithError 400 ''Invalid JSON body'')"

definition handleProtocolMessage :: "server_env \<Rightarrow> request_world \<Rightarrow> http_request \<Rightarrow> response step" where
  "handleProtocolMessage env w req =
     then_do (if is_activity_pub req then activity_pub_step env w req else continue ()) (\<lambda>_.
     (case decode_protocol (hr_body req) of
        None \<Rightarrow> send (decode_error req)
      | Some fullMsg \<Rightarrow>
          then_do (ensure (pm_context fullMsg = PKDContextV1) (respondWithError 400 ''Invalid !pkd-context'')) (\<lambda>_.
          (case actionHandlers env w (pm_action fullMsg) of
             None \<Rightarrow> send (respondWithError 400 (''Unsupported action: '' @ pm_action fullMsg))
           | Some handler \<Rightarrow> handler fullMsg))))"

definition post_protocol ::
  "server_env \<Rightarrow> request_world \<Rightarrow> http_request \<Rightarrow> server_state \<Rightarrow> response \<times> server_state" where
  "post_protocol env w req = answer (handleProtocolMessage env w req)"

subsection \<open>What the endpoint's answer means\<close>

definition http_verified :: "server_env \<Rightarrow> request_world \<Rightarrow> http_request \<Rightarrow> server_state \<Rightarrow> bool" where
  "http_verified env w req st \<longleftrightarrow>
     (\<exists>pk sig. fst (fetchActorPublicKey env w (parseSignatureHeader (header_get req ''Signature'') ''keyId'') st) = Inr pk \<and>
        std_decode (parseSignatureHeader (header_get req ''Signature'') ''signature'') = Some sig \<and>
        ed25519_verify (sv_prims env) pk
          (bytes_of_string (signing_string req (parseSignatureHeader (header_get req ''Signature'') ''headers''))) sig)"

definition accepted_query :: "protocol_message \<Rightarrow> server_state \<Rightarrow> response \<Rightarrow> server_state \<Rightarrow> bool" where
  "accepted_query msg st r st' \<longleftrightarrow>
     same st st' \<and>
     (\<exists>m. unmarshal_query (pm_message msg) = Inr m \<and>
        r = respondWithJSON 200 (Inr (json_slice marshal_public_key (active_keys (q_actor m) (tables_of st)))))"

definition accepted_message ::
  "server_env \<Rightarrow> request_world \<Rightarrow> protocol_message \<Rightarrow> server_state \<Rightarrow> response \<Rightarrow> server_state \<Rightarrow> bool" where
  "accepted_message env w msg st r st' \<longleftrightarrow>
     (pm_action msg = ''AddKey'' \<and> accepted_add_key env w msg st r st') \<or>
     (pm_action msg = ''RevokeKey'' \<and> accepted_revoke_key env w msg st r st') \<or>
     (pm_action msg = ''MoveIdentity'' \<and>
        accepted env w msg unmarshal_move_identity mi_old_actor (\<lambda>m root. move_spec m)
          (\<lambda>_. ok_status ''MoveIdentity processed successfully'') st r st') \<or>
     (pm_action msg = ''BurnDown'' \<and> accepted_burn_down env w msg st r st') \<or>
     (pm_action msg = ''Fireproof'' \<and>
        accepted env w msg unmarshal_fireproof fp_actor (\<lambda>m root. set_fireproof_op_spec (fp_actor m) True)
          (\<lambda>_. ok_status ''Fireproof processed successfully'') st r st') \<or>
     (pm_action msg = ''UndoFireproof'' \<and>
        accepted env w msg unmarshal_undo_fireproof uf_actor (\<lambda>m root. set_fireproof_op_spec (uf_actor m) False)
          (\<lambda>_. ok_status ''UndoFireproof processed successfully'') st r st') \<or>
     (pm_action msg = ''AddAuxData'' \<and>
        accepted env w msg unmarshal_add_aux_data aa_actor
          (\<lambda>m root. add_aux_spec (sv_registry env) (rw_rand w) (rw_now w) m root)
          (\<lambda>d. respondWithJSON 200 (fields_payload [(''aux_id'', ad_aux_id d)])) st r st') \<or>
     (pm_action msg = ''RevokeAuxData'' \<and>
        accepted env w msg unmarshal_revoke_aux_data ra_actor revoke_aux_action_spec
          (\<lambda>_. ok_status ''RevokeAuxData processed successfully'') st r st') \<or>
     (pm_action msg = ''Checkpoint'' \<and> accepted_checkpoint env msg st r st') \<or>
     (pm_action msg = ''Query'' \<and> accepted_query msg st r st')"

lemma decode_action_agrees: "decode_protocol body = Some msg \<Longrightarrow> decode_action body = Some (pm_action msg)"
  by (auto simp: decode_protocol_def decode_action_def split: option.splits if_splits)

lemma handler_outcome:
  assumes st: "ready st" and h: "actionHandlers env w (pm_action msg) = Some handler"
    and ans: "answer (handler msg) st = (r, st')"
  shows "refused st r st' \<or> accepted_message env w msg st r st'"
proof -
  have q: "refused st r st' \<or> accepted_query msg st r st'"
    if "answer (processQueryAction env w msg) st = (r, st')"
    using query_outcome [OF st that] by (auto simp: refused_def same_def accepted_query_def)
  from h consider "pm_action msg = ''AddKey''" "handler = processAddKeyAction env w"
    | "pm_action msg = ''RevokeKey''" "handler = processRevokeKeyAction env w"
    | "pm_action msg = ''MoveIdentity''" "handler = processMoveIdentityAction env w"
    | "pm_action msg = ''BurnDown''" "handler = processBurnDownAction env w"
    | "pm_action msg = ''Fireproof''" "handler = processFireproofAction env w"
    | "pm_action msg = ''UndoFireproof''" "handler = processUndoFireproofAction env w"
    | "pm_action msg = ''AddAuxData''" "handler = processAddAuxDataAction env w"
    | "pm_action msg = ''RevokeAuxData''" "handler = processRevokeAuxDataAction env w"
    | "pm_action msg = ''Checkpoint''" "handler = processCheckpointAction env w"
    | "pm_action msg = ''Query''" "handler = processQueryAction env w"
    by (auto simp: actionHandlers_def split: if_splits)
  then show ?thesis
  proof cases
    case 1 with add_key_outcome [OF st] ans show ?thesis unfolding accepted_message_def by blast
  next
    case 2 with revoke_key_outcome [OF st] ans show ?thesis unfolding accepted_message_def by blast
  next
    case 3 with move_identity_outcome [OF st] ans show ?thesis unfolding accepted_message_def by blast
  next
    case 4 with burn_down_outcome [OF st] ans show ?thesis unfolding accepted_message_def by blast
  next
    case 5 with fireproof_outcome [OF st] ans show ?thesis unfolding accepted_message_def by blast
  next
    case 6 with undo_fireproof_outcome [OF st] ans show ?thesis unfolding accepted_message_def by blast
  next
    case 7 with add_aux_data_outcome [OF st] ans show ?thesis unfolding accepted_message_def by blast
  next
    case 8 with revoke_aux_data_outcome [OF st] ans show ?thesis unfolding accepted_message_def by blast
  next
    case 9 with checkpoint_outcome [OF st] ans show ?thesis unfolding accepted_message_def by blast
  next
    case 10 with q ans show ?thesis unfolding accepted_message_def by blast
  qed
qed

lemma logged_cong: "same st st1 \<Longrightarrow> logged w msg root st1 st' = logged w msg root st st'"
  by (simp add: same_def logged_def)

lemma accepted_message_cong:
  assumes "same st st1" "accepted_message env w msg st1 r st'"
  shows "accepted_message env w msg st r st'"
proof -
  have t: "tables_of st1 = tables_of st" "ss_log st1 = ss_log st" using assms(1) by (simp_all add: same_def)
  have q: "same st1 st' = same st st'" using t by (simp add: same_def)
  show ?thesis
    using assms(2) unfolding accepted_message_def accepted_add_key_def accepted_revoke_key_def accepted_def
      accepted_burn_down_def accepted_checkpoint_def accepted_query_def logged_cong [OF assms(1)] t q .
qed

lemma refused_cong: "same st st1 \<Longrightarrow> refused st1 r st' \<Longrightarrow> refused st r st'"
  by (simp add: same_def refused_def)

lemma fetch_same: "ready st \<Longrightarrow> fetchActorPublicKey env w keyID st = (x, st') \<Longrightarrow> same st st'"
  by (auto simp: fetchActorPublicKey_def same_def ready_def tables_of_def split: option.splits sum.splits)

lemma refused_plain: "same st st' \<Longrightarrow> rs_status r \<noteq> 200 \<Longrightarrow> refused st r st'"
  by (simp add: refused_def same_def)

lemma http_signature_step:
  assumes st: "ready st" and E: "\<And>r st'. refused st r st' \<Longrightarrow> E r st'"
    and Q: "\<And>st'. same st st' \<Longrightarrow> http_verified env w req st \<Longrightarrow> Q () st'"
  shows "yields (check_http_signature env w req) st E Q"
proof -
  let ?h = "header_get req ''Signature''"
  let ?k = "parseSignatureHeader ?h ''keyId''"
  note start = same_refl [OF st]
  obtain x st1 where f: "fetchActorPublicKey env w ?k st = (x, st1)"
    by (cases "fetchActorPublicKey env w ?k st")
  note s1 = fetch_same [OF st f]
  have tail: "yields (case std_decode (parseSignatureHeader ?h ''signature'') of
         None \<Rightarrow> send (respondWithError 400 ''Invalid signature format: not valid base64'')
       | Some sigBytes \<Rightarrow>
           ensure (ed25519_verify (sv_prims env) pk
              (bytes_of_string (signing_string req (parseSignatureHeader ?h ''headers''))) sigBytes)
             (respondWithError 403 ''Invalid HTTP Signature'')) st1 E Q" if "x = Inr pk" for pk
  proof (cases "std_decode (parseSignatureHeader ?h ''signature'')")
    case None
    then show ?thesis by (simp add: yields_send E refused_same [OF s1])
  next
    case (Some sig)
    then show ?thesis
      using that f by (auto intro!: yields_ensure E refused_same [OF s1] Q [OF s1] simp: http_verified_def)
  qed
  have call: "yields (call_or (fetchActorPublicKey env w ?k) (\<lambda>_. respondWithError 403 ''Failed to fetch public key''))
      st E (\<lambda>pk st'. st' = st1 \<and> x = Inr pk)"
    using f E [OF refused_same [OF s1]] by (auto simp: yields_def call_or_def split: sum.splits)
  have main: "yields (then_do (call_or (fetchActorPublicKey env w ?k) (\<lambda>_. respondWithError 403 ''Failed to fetch public key''))
      (\<lambda>pubKey. case std_decode (parseSignatureHeader ?h ''signature'') of
         None \<Rightarrow> send (respondWithError 400 ''Invalid signature format: not valid base64'')
       | Some sigBytes \<Rightarrow>
           ensure (ed25519_verify (sv_prims env) pubKey
              (bytes_of_string (signing_string req (parseSignatureHeader ?h ''headers''))) sigBytes)
             (respondWithError 403 ''Invalid HTTP Signature''))) st E Q"
    by (rule yields_then, rule yields_mono [OF call]) (use tail in auto)
  show ?thesis
    unfolding check_http_signature_def Let_def
    by (rule yields_then, rule yields_ensure, (rule E, rule refused_same [OF start], simp)[1],
        rule yields_then, rule yields_ensure, (rule E, rule refused_same [OF start], simp)[1], rule main)
qed

theorem post_outcome:
  assumes st: "ready st" and post: "post_protocol env w req st = (r, st')"
  shows "refused st r st' \<or>
    (\<exists>msg. decode_protocol (hr_body req) = Some msg \<and> pm_context msg = PKDContextV1 \<and>
       (is_activity_pub req \<longrightarrow> http_verified env w req st) \<and> accepted_message env w msg st r st')"
    (is "?P r st'")
proof (rule answer_yields [OF _ post [unfolded post_protocol_def]])
  note start = same_refl [OF st]
  have E: "\<And>r st'. refused st r st' \<Longrightarrow> ?P r st'" by simp
  have first: "yields (if is_activity_pub req then activity_pub_step env w req else continue ()) st ?P
      (\<lambda>_ st1. same st st1 \<and> (is_activity_pub req \<longrightarrow> hr_body_end req = EndOfBody \<and>
         (decode_action (hr_body req) = Some ''RevokeKeyThirdParty'' \<or> http_verified env w req st)))"
  proof (cases "is_activity_pub req")
    case True
    have "yields (check_http_signature env w req) st ?P (\<lambda>_ st1. same st st1 \<and> http_verified env w req st)"
      by (rule http_signature_step [OF st E]) simp_all
    then have "yields (check_http_signature env w req) st ?P (\<lambda>_ st1. same st st1 \<and>
        (decode_action (hr_body req) = Some ''RevokeKeyThirdParty'' \<or> http_verified env w req st))"
      by (auto simp: yields_def split: prod.splits sum.splits)
    with True show ?thesis
      unfolding activity_pub_step_def
      by (auto split: body_end.split option.split
          intro!: yields_send yields_continue E refused_same [OF start] start)
  qed (simp add: yields_continue start)
  have second: "yields (case decode_protocol (hr_body req) of
        None \<Rightarrow> send (decode_error req)
      | Some fullMsg \<Rightarrow>
          then_do (ensure (pm_context fullMsg = PKDContextV1) (respondWithError 400 ''Invalid !pkd-context'')) (\<lambda>_.
          (case actionHandlers env w (pm_action fullMsg) of
             None \<Rightarrow> send (respondWithError 400 (''Unsupported action: '' @ pm_action fullMsg))
           | Some handler \<Rightarrow> handler fullMsg))) st1 ?P ?P"
    if s: "same st st1" and ap: "is_activity_pub req \<longrightarrow> hr_body_end req = EndOfBody \<and>
         (decode_action (hr_body req) = Some ''RevokeKeyThirdParty'' \<or> http_verified env w req st)" for st1
  proof (cases "decode_protocol (hr_body req)")
    case None
    then show ?thesis
      by (auto simp: decode_error_def intro!: yields_send E refused_same [OF s])
  next
    case (Some msg)
    have "yields (case actionHandlers env w (pm_action msg) of
             None \<Rightarrow> send (respondWithError 400 (''Unsupported action: '' @ pm_action msg))
           | Some handler \<Rightarrow> handler msg) st1 ?P ?P" if c: "pm_context msg = PKDContextV1"
    proof (cases "actionHandlers env w (pm_action msg)")
      case None
      then show ?thesis by (auto intro!: yields_send E refused_same [OF s])
    next
      case h: (Some handler)
      have "pm_action msg \<noteq> ''RevokeKeyThirdParty''"
        using h by (auto simp: actionHandlers_def)
      with ap decode_action_agrees [OF Some] have v: "is_activity_pub req \<longrightarrow> http_verified env w req st"
        by auto
      obtain r1 st2 where a: "answer (handler msg) st1 = (r1, st2)" by (cases "answer (handler msg) st1")
      have "ready st1" using s by (simp add: same_def)
      from handler_outcome [OF this h a] have "?P r1 st2"
        using Some c v refused_cong [OF s] accepted_message_cong [OF s] by blast
      with a show ?thesis
        by (auto simp: h yields_def answer_def split: prod.splits sum.splits)
    qed
    then show ?thesis
      unfolding Some option.case
      by (intro yields_then yields_ensure) (auto intro: refused_same [OF s])
  qed
  show "yields (handleProtocolMessage env w req) st ?P ?P"
    unfolding handleProtocolMessage_def
    by (rule yields_then, rule yields_mono [OF first], rule second) simp_all
qed

end
