(* ===== verification/Guarantees.thy ===== *)
theory Guarantees
  imports Dispatch
begin

section \<open>What the protocol endpoint guarantees\<close>

text \<open>
  The properties of the server as a whole, for one \<^verbatim>\<open>POST /protocol\<close> from any state between
  requests, whatever the driver, the log and the network do, and for every sequence of them.
\<close>

lemma ready_wf: "ready st \<Longrightarrow> wf_tables (tables_of st)"
  by (simp add: ready_def tables_of_def db_good_wf)

subsection \<open>The directory after an accepted message\<close>

lemma aux_directory:
  assumes "wf_tables t" "add_aux_spec reg rand now m root t d t'"
  shows "directory t' = directory t"
proof -
  obtain a t1 auxID where g: "get_or_create_spec (aa_actor m) t a t1"
    and i: "inserted_aux_spec (new_auxiliary_data (a_id a) auxID m root now) t1 d t'"
    using assms(2) by (auto simp: add_aux_spec_def)
  have "actors t' = actors t1" "public_keys t' = public_keys t1"
    using i by (auto simp: inserted_aux_spec_def insert_aux_data_spec_def)
  then have "active_keys c t' = active_keys c t1" for c by (rule active_keys_cong)
  with get_or_create_effect(8) [OF assms(1) g] show ?thesis
    by (simp add: directory_def)
qed

lemma fireproof_directory: "set_fireproof_op_spec a b t u t' \<Longrightarrow> directory t' = directory t"
  by (auto simp: set_fireproof_op_spec_def directory_def active_keys_set_fireproof)

lemma revoke_aux_directory: "revoke_aux_action_spec m root t u t' \<Longrightarrow> directory t' = directory t"
  by (auto simp: revoke_aux_action_spec_def revoke_aux_where_def intro!: directory_cong)

lemma stored_directory: "message_stored h raw msg t u t' \<Longrightarrow> directory t' = directory t"
  by (auto simp: message_stored_def insert_message_log_spec_def intro!: directory_cong)

text \<open>The abstract transitions: what the directory may do in one request, and why.\<close>

inductive dir_step :: "prims \<Rightarrow> protocol_message \<Rightarrow> tables \<Rightarrow> key_directory \<Rightarrow> key_directory \<Rightarrow> bool"
  for P :: prims and msg :: protocol_message and t :: tables where
  stay: "dir_step P msg t d d"
| add: "unmarshal_add_key (pm_message msg) = Inr m \<Longrightarrow> pm_action msg = ''AddKey'' \<Longrightarrow>
    add_key_authorised P msg m t \<Longrightarrow>
    dir_step P msg t d (dir_add (ak_actor m) (ak_public_key m) d)"
| revoke: "unmarshal_revoke_key (pm_message msg) = Inr m \<Longrightarrow> pm_action msg = ''RevokeKey'' \<Longrightarrow>
    signed_by_active P msg (rk_actor m) t \<Longrightarrow> 2 \<le> size (d (rk_actor m)) \<Longrightarrow>
    rk_public_key m \<in># d (rk_actor m) \<Longrightarrow>
    dir_step P msg t d (dir_revoke (rk_actor m) (rk_public_key m) d)"
| move: "unmarshal_move_identity (pm_message msg) = Inr m \<Longrightarrow> pm_action msg = ''MoveIdentity'' \<Longrightarrow>
    signed_by_active P msg (mi_old_actor m) t \<Longrightarrow> d (mi_new_actor m) = {#} \<Longrightarrow>
    dir_step P msg t d (dir_move (mi_old_actor m) (mi_new_actor m) d)"
| burn: "unmarshal_burn_down (pm_message msg) = Inr m \<Longrightarrow> pm_action msg = ''BurnDown'' \<Longrightarrow>
    signed_by_active P msg (bd_operator m) t \<Longrightarrow>
    dir_step P msg t d (dir_burn (bd_actor m) d)"

lemma size_directory: "size (directory t a) = length (active_keys a t)"
  by (simp add: directory_def)

lemma accepted_dir_step:
  assumes st: "ready st" and acc: "accepted_message env w msg st r st'"
  shows "dir_step (sv_prims env) msg (tables_of st) (directory (tables_of st)) (directory (tables_of st'))"
proof -
  note wf = ready_wf [OF st]
  have same: ?thesis if "directory (tables_of st') = directory (tables_of st)"
    using that by (simp add: dir_step.stay)
  from acc [unfolded accepted_message_def] show ?thesis
  proof (elim disjE conjE)
    assume a: "pm_action msg = ''AddKey''" "accepted_add_key env w msg st r st'"
    then show ?thesis
      using add_key_directory [OF wf] by (auto simp: accepted_add_key_def intro!: dir_step.add)
  next
    assume a: "pm_action msg = ''RevokeKey''" and acc: "accepted_revoke_key env w msg st r st'"
    then obtain m root ks target k pk where m: "unmarshal_revoke_key (pm_message msg) = Inr m"
      "2 \<le> length (active_keys (rk_actor m) (tables_of st))"
      "k \<in> set (active_keys (rk_actor m) (tables_of st))" "DecodePublicKey (pk_public_key k) = Inr pk"
      "VerifyMessageSignature (sv_prims env) msg pk = Inr ()"
      and s: "revoke_spec m root ks (tables_of st) () (tables_of st')"
      unfolding accepted_revoke_key_def by blast
    obtain k' where "k' \<in> set (active_keys (rk_actor m) (tables_of st))" "pk_public_key k' = rk_public_key m"
      using revoke_effect [OF wf s] by metis
    then have "rk_public_key m \<in># directory (tables_of st) (rk_actor m)"
      unfolding directory_def by (metis image_eqI set_image_mset set_mset_mset)
    moreover have "signed_by_active (sv_prims env) msg (rk_actor m) (tables_of st)"
      using m(3-5) by (auto simp: signed_by_active_def signed_by_def)
    ultimately show ?thesis
      using m(1,2) a revoke_directory [OF wf s] by (auto simp: size_directory intro!: dir_step.revoke)
  next
    assume a: "pm_action msg = ''MoveIdentity''" and acc: "accepted env w msg unmarshal_move_identity mi_old_actor
        (\<lambda>m root. move_spec m) (\<lambda>_. ok_status ''MoveIdentity processed successfully'') st r st'"
    then obtain m u where m: "unmarshal_move_identity (pm_message msg) = Inr m"
      "signed_by_active (sv_prims env) msg (mi_old_actor m) (tables_of st)"
      and s: "move_spec m (tables_of st) u (tables_of st')"
      unfolding accepted_def by blast
    have "active_keys (mi_new_actor m) (tables_of st) = []"
      using s by (intro active_keys_absent) (simp add: move_spec_def)
    then have "directory (tables_of st) (mi_new_actor m) = {#}"
      by (simp add: directory_def)
    then show ?thesis
      unfolding move_directory [OF wf s] using m a by (intro dir_step.move)
  next
    assume a: "pm_action msg = ''BurnDown''" and acc: "accepted_burn_down env w msg st r st'"
    then show ?thesis
      using burn_directory [OF wf] by (auto simp: accepted_burn_down_def intro!: dir_step.burn)
  next
    assume "accepted env w msg unmarshal_fireproof fp_actor (\<lambda>m root. set_fireproof_op_spec (fp_actor m) True)
          (\<lambda>_. ok_status ''Fireproof processed successfully'') st r st'"
    then show ?thesis by (auto simp: accepted_def intro!: same dest: fireproof_directory)
  next
    assume "accepted env w msg unmarshal_undo_fireproof uf_actor (\<lambda>m root. set_fireproof_op_spec (uf_actor m) False)
          (\<lambda>_. ok_status ''UndoFireproof processed successfully'') st r st'"
    then show ?thesis by (auto simp: accepted_def intro!: same dest: fireproof_directory)
  next
    assume "accepted env w msg unmarshal_add_aux_data aa_actor
          (\<lambda>m root. add_aux_spec (sv_registry env) (rw_rand w) (rw_now w) m root)
          (\<lambda>d. respondWithJSON 200 (fields_payload [(''aux_id'', ad_aux_id d)])) st r st'"
    then show ?thesis by (auto simp: accepted_def intro!: same dest: aux_directory [OF wf])
  next
    assume "accepted env w msg unmarshal_revoke_aux_data ra_actor revoke_aux_action_spec
          (\<lambda>_. ok_status ''RevokeAuxData processed successfully'') st r st'"
    then show ?thesis by (auto simp: accepted_def intro!: same dest: revoke_aux_directory)
  next
    assume "accepted_checkpoint env msg st r st'"
    then show ?thesis by (auto simp: accepted_checkpoint_def intro!: same dest: stored_directory)
  next
    assume "accepted_query msg st r st'"
    then have "tables_of st' = tables_of st" by (simp add: accepted_query_def same_def)
    then show ?thesis by (intro same) simp
  qed
qed

subsection \<open>The keys on record\<close>

text \<open>Each row of the key table keeps, for good, the key it holds and the root it was added under.\<close>

definition key_records :: "tables \<Rightarrow> (string \<times> string) list" where
  "key_records t = map (\<lambda>k. (pk_public_key k, pk_merkle_root k)) (public_keys t)"

lemma key_records_cong: "public_keys t' = public_keys t \<Longrightarrow> key_records t' = key_records t"
  by (simp add: key_records_def)

lemma key_records_revoke: "key_records (revoke_keys_where p now root t) = key_records t"
  by (simp add: key_records_def revoke_keys_where_def map_update_where revoked_def)

lemma accepted_records:
  assumes st: "ready st" and acc: "accepted_message env w msg st r st'"
  shows "key_records (tables_of st') = key_records (tables_of st) \<or>
    (\<exists>m root. pm_action msg = ''AddKey'' \<and> unmarshal_add_key (pm_message msg) = Inr m \<and>
       logged w msg root st st' \<and>
       key_records (tables_of st') = key_records (tables_of st) @ [(ak_public_key m, root)])"
proof -
  note wf = ready_wf [OF st]
  have same: ?thesis if "public_keys (tables_of st') = public_keys (tables_of st)"
    using key_records_cong [OF that] by simp
  from acc [unfolded accepted_message_def] show ?thesis
  proof (elim disjE conjE)
    assume a: "pm_action msg = ''AddKey''" "accepted_add_key env w msg st r st'"
    then obtain m root ks k where m: "unmarshal_add_key (pm_message msg) = Inr m" "logged w msg root st st'"
      and s: "add_key_spec (rw_rand w) m root ks (tables_of st) k (tables_of st')"
      unfolding accepted_add_key_def by blast
    have "key_records (tables_of st') = key_records (tables_of st) @ [(ak_public_key m, root)]"
      using add_key_effect(1,2) [OF wf s] by (simp add: key_records_def)
    with m a show ?thesis by blast
  next
    assume "accepted_revoke_key env w msg st r st'"
    then obtain m root ks where "revoke_spec m root ks (tables_of st) () (tables_of st')"
      unfolding accepted_revoke_key_def by blast
    then obtain p now rows where t': "tables_of st' = revoke_keys_where p now root (tables_of st)
        \<lparr> symmetric_keys := symmetric_keys (revoke_keys_where p now root (tables_of st)) @ rows \<rparr>"
      unfolding revoke_spec_def revoke_key_spec_def store_symmetric_keys_spec_def by blast
    have "key_records (tables_of st') = key_records (revoke_keys_where p now root (tables_of st))"
      unfolding t' by (rule key_records_cong) simp
    then show ?thesis by (simp add: key_records_revoke)
  next
    assume "accepted env w msg unmarshal_move_identity mi_old_actor
        (\<lambda>m root. move_spec m) (\<lambda>_. ok_status ''MoveIdentity processed successfully'') st r st'"
    then show ?thesis by (intro same) (auto simp: accepted_def move_spec_def rename_actor_def)
  next
    assume "accepted_burn_down env w msg st r st'"
    then show ?thesis
      using key_records_cong [OF forget_frame(2)]
      by (auto simp: accepted_burn_down_def burn_spec_def key_records_revoke)
  next
    assume "accepted env w msg unmarshal_fireproof fp_actor (\<lambda>m root. set_fireproof_op_spec (fp_actor m) True)
          (\<lambda>_. ok_status ''Fireproof processed successfully'') st r st'"
    then show ?thesis by (intro same) (auto simp: accepted_def set_fireproof_op_spec_def set_fireproof_def)
  next
    assume "accepted env w msg unmarshal_undo_fireproof uf_actor (\<lambda>m root. set_fireproof_op_spec (uf_actor m) False)
          (\<lambda>_. ok_status ''UndoFireproof processed successfully'') st r st'"
    then show ?thesis by (intro same) (auto simp: accepted_def set_fireproof_op_spec_def set_fireproof_def)
  next
    assume "accepted env w msg unmarshal_add_aux_data aa_actor
          (\<lambda>m root. add_aux_spec (sv_registry env) (rw_rand w) (rw_now w) m root)
          (\<lambda>d. respondWithJSON 200 (fields_payload [(''aux_id'', ad_aux_id d)])) st r st'"
    then show ?thesis
      by (intro same) (auto simp: accepted_def add_aux_spec_def inserted_aux_spec_def insert_aux_data_spec_def
          dest: get_or_create_effect(3) [OF wf])
  next
    assume "accepted env w msg unmarshal_revoke_aux_data ra_actor revoke_aux_action_spec
          (\<lambda>_. ok_status ''RevokeAuxData processed successfully'') st r st'"
    then show ?thesis by (intro same) (auto simp: accepted_def revoke_aux_action_spec_def revoke_aux_where_def)
  next
    assume "accepted_checkpoint env msg st r st'"
    then show ?thesis
      by (intro same) (auto simp: accepted_checkpoint_def message_stored_def insert_message_log_spec_def)
  next
    assume "accepted_query msg st r st'"
    then show ?thesis by (intro same) (simp add: accepted_query_def same_def)
  qed
qed

subsection \<open>One request\<close>

lemma respondWithJSON_ok: "rs_status (respondWithJSON code (Inr body)) = code"
  by (simp add: respondWithJSON_def)

lemma accepted_ready:
  "accepted_message env w msg st r st' \<Longrightarrow> ready st' \<and> rs_status r = 200"
  by (auto simp: accepted_message_def accepted_add_key_def accepted_revoke_key_def accepted_def
      accepted_burn_down_def accepted_checkpoint_def accepted_query_def same_def ok_status_def
      respondWithJSON_ok)

lemma accepted_logged:
  "accepted_message env w msg st r st' \<Longrightarrow>
   pm_action msg \<in> {''Checkpoint'', ''Query''} \<or> (\<exists>root. logged w msg root st st')"
  by (auto simp: accepted_message_def accepted_add_key_def accepted_revoke_key_def accepted_def
      accepted_burn_down_def)

lemma accepted_query_action:
  "accepted_message env w msg st r st' \<Longrightarrow> pm_action msg = ''Query'' \<Longrightarrow> accepted_query msg st r st'"
  by (simp add: accepted_message_def)

lemma post_cases:
  assumes "ready st" "post_protocol env w req st = (r, st')"
  obtains "refused st r st'"
  | msg where "decode_protocol (hr_body req) = Some msg" "pm_context msg = PKDContextV1"
      "is_activity_pub req \<longrightarrow> http_verified env w req st" "accepted_message env w msg st r st'"
  using post_outcome [OF assms] by blast

text \<open>C2. A request that is not answered with 200 changes no table, whichever statement or commit the
  database refused, whatever the log answered and wherever the handler gave up; and every request,
  answered with 200 or not, leaves the database with its constraints intact and no transaction open.\<close>

theorem post_atomic:
  assumes "ready st" "post_protocol env w req st = (r, st')"
  shows "ready st' \<and> (rs_status r \<noteq> 200 \<longrightarrow> tables_of st' = tables_of st)"
  using assms by (cases rule: post_cases) (auto simp: refused_def dest: accepted_ready)

text \<open>C9. Log before store: if a request changes the tables, then the message was a checkpoint, or its
  signed part is, after the request, the last entry of what the log has acknowledged.\<close>

theorem post_logged:
  assumes "ready st" "post_protocol env w req st = (r, st')" "tables_of st' \<noteq> tables_of st"
  shows "\<exists>msg. decode_protocol (hr_body req) = Some msg \<and>
    (pm_action msg = ''Checkpoint'' \<or>
     (\<exists>body root. marshal_signed (signed_part msg) = Inr body \<and> ss_log st' = ss_log st @ [(body, Inr root)]))"
  using assms(1,2)
proof (cases rule: post_cases)
  case 1
  with assms(3) show ?thesis by (simp add: refused_def)
next
  case (2 msg)
  have "pm_action msg \<noteq> ''Query''"
    using accepted_query_action [OF 2(4)] assms(3) by (auto simp: accepted_query_def same_def)
  with accepted_logged [OF 2(4)] 2(1) show ?thesis by (auto simp: logged_def)
qed

text \<open>C1. The server refines the abstract directory: one request leaves every actor's active keys as
  they are, or performs one of the four abstract operations, for the actor and the key the message
  names and with that operation's authorisation.\<close>

theorem post_refines_directory:
  assumes "ready st" "post_protocol env w req st = (r, st')"
  shows "directory (tables_of st') = directory (tables_of st) \<or>
    (\<exists>msg. decode_protocol (hr_body req) = Some msg \<and>
       dir_step (sv_prims env) msg (tables_of st) (directory (tables_of st)) (directory (tables_of st')))"
  using assms by (cases rule: post_cases) (auto simp: refused_def dest: accepted_dir_step [OF assms(1)])

text \<open>C4. No key appears for an actor without a signature: if a key is active for an actor after a request
  and was not before, the message in the body carries a valid signature by the key itself, for an actor
  that had no active key, or by an active key of the actor, or it moved the key here, signed by an
  active key of the actor it was taken from.\<close>

theorem new_key_authentic:
  assumes "ready st" "post_protocol env w req st = (r, st')"
    and "k \<in># directory (tables_of st') a" "k \<notin># directory (tables_of st) a"
  shows "\<exists>msg. decode_protocol (hr_body req) = Some msg \<and>
    (directory (tables_of st) a = {#} \<and>
       (\<exists>pk. DecodePublicKey k = Inr pk \<and> VerifyMessageSignature (sv_prims env) msg pk = Inr ()) \<or>
     signed_by_active (sv_prims env) msg a (tables_of st) \<or>
     (\<exists>old. k \<in># directory (tables_of st) old \<and> signed_by_active (sv_prims env) msg old (tables_of st)))"
proof -
  have "directory (tables_of st') \<noteq> directory (tables_of st)" using assms(3,4) by auto
  then obtain msg where msg: "decode_protocol (hr_body req) = Some msg"
    and step: "dir_step (sv_prims env) msg (tables_of st) (directory (tables_of st)) (directory (tables_of st'))"
    using post_cases [OF assms(1,2)] accepted_dir_step [OF assms(1)] by (metis refused_def)
  from step show ?thesis
  proof (cases rule: dir_step.cases)
    case stay
    with assms(3,4) show ?thesis by simp
  next
    case (add m)
    then have "a = ak_actor m" "k = ak_public_key m"
      using assms(3,4) by (auto simp: dir_add_def split: if_splits)
    moreover have "directory (tables_of st) a = {#} \<longleftrightarrow> active_keys a (tables_of st) = []"
      by (simp add: directory_def)
    ultimately show ?thesis
      using add msg by (auto simp: add_key_authorised_def split: if_splits)
  next
    case (revoke m)
    then show ?thesis
      using assms(3,4) in_diffD by (fastforce simp: dir_revoke_def split: if_splits)
  next
    case (move m)
    then have "k \<in># directory (tables_of st) (mi_old_actor m)"
      using assms(3,4) by (auto simp: dir_move_def split: if_splits)
    with move msg show ?thesis by blast
  next
    case (burn m)
    then show ?thesis using assms(3,4) by (auto simp: dir_burn_def split: if_splits)
  qed
qed

text \<open>C5. A revocation that is answered with 200 was signed by a key of the actor that is not the one
  being revoked and that is still active afterwards; so the actor keeps at least one key, and loses
  exactly one.\<close>

theorem revoke_keeps_signer:
  assumes "ready st" "post_protocol env w req st = (r, st')" "rs_status r = 200"
    and "decode_protocol (hr_body req) = Some msg" "pm_action msg = ''RevokeKey''"
  shows "\<exists>m. unmarshal_revoke_key (pm_message msg) = Inr m \<and>
    signed_by_active (sv_prims env) msg (rk_actor m) (tables_of st') \<and>
    size (directory (tables_of st) (rk_actor m)) = Suc (size (directory (tables_of st') (rk_actor m))) \<and>
    directory (tables_of st') = dir_revoke (rk_actor m) (rk_public_key m) (directory (tables_of st))"
proof -
  note wf = ready_wf [OF assms(1)]
  from assms have "accepted_revoke_key env w msg st r st'"
    using post_outcome [OF assms(1,2)] by (auto simp: refused_def accepted_message_def)
  then obtain m root ks target k pk where m: "unmarshal_revoke_key (pm_message msg) = Inr m"
    "DecodePublicKey (rk_public_key m) = Inr target"
    "k \<in> set (active_keys (rk_actor m) (tables_of st))" "DecodePublicKey (pk_public_key k) = Inr pk"
    "pk \<noteq> target" "VerifyMessageSignature (sv_prims env) msg pk = Inr ()"
    and s: "revoke_spec m root ks (tables_of st) () (tables_of st')"
    unfolding accepted_revoke_key_def by blast
  obtain k' where k': "k' \<in> set (active_keys (rk_actor m) (tables_of st))" "pk_public_key k' = rk_public_key m"
    "\<And>c. mset (active_keys c (tables_of st')) =
       (if c = rk_actor m then mset (active_keys c (tables_of st)) - {#k'#} else mset (active_keys c (tables_of st)))"
    using revoke_effect [OF wf s] by metis
  have ms: "mset (active_keys (rk_actor m) (tables_of st')) = mset (active_keys (rk_actor m) (tables_of st)) - {#k'#}"
    using k'(3) by simp
  have "k \<noteq> k'" using m(2,4,5) k'(2) by auto
  then have "k \<in># mset (active_keys (rk_actor m) (tables_of st'))"
    unfolding ms using m(3) by (simp add: in_diff_count count_mset_0_iff)
  then have "k \<in> set (active_keys (rk_actor m) (tables_of st'))" by simp
  with m(4,6) have "signed_by_active (sv_prims env) msg (rk_actor m) (tables_of st')"
    by (auto simp: signed_by_active_def signed_by_def)
  moreover have "length (active_keys (rk_actor m) (tables_of st)) = Suc (length (active_keys (rk_actor m) (tables_of st')))"
  proof -
    have "size (mset (active_keys (rk_actor m) (tables_of st'))) = size (mset (active_keys (rk_actor m) (tables_of st))) - 1"
      unfolding ms using k'(1) by (simp add: size_Diff_singleton)
    moreover have "0 < length (active_keys (rk_actor m) (tables_of st))"
      using k'(1) by (cases "active_keys (rk_actor m) (tables_of st)") auto
    ultimately show ?thesis by simp
  qed
  ultimately show ?thesis
    unfolding size_directory using m(1) revoke_directory [OF wf s] by blast
qed


lemma add_key_row:
  assumes "ready st" "post_protocol env w req st = (r, st')" "rs_status r = 200"
    and "decode_protocol (hr_body req) = Some msg" "pm_action msg = ''AddKey''"
  shows "\<exists>m k. unmarshal_add_key (pm_message msg) = Inr m \<and>
    public_keys (tables_of st') = public_keys (tables_of st) @ [k] \<and>
    pk_key_id k \<notin> pk_key_id ` set (public_keys (tables_of st)) \<and> length (pk_key_id k) = 43 \<and>
    GenerateKeyID (rw_rand w) = Inr (pk_key_id k) \<and>
    rw_sigsum w = Answered 200 (Inr (pk_merkle_root k)) \<and> pk_public_key k = ak_public_key m \<and>
    rs_body r = marshal_string_map [(''key_id'', pk_key_id k), (''merkle_root'', pk_merkle_root k)] \<and>
    (\<forall>a. active_keys a (tables_of st') = active_keys a (tables_of st) @ (if a = ak_actor m then [k] else []))"
proof -
  note wf = ready_wf [OF assms(1)]
  from assms have acc: "accepted_add_key env w msg st r st'"
    using post_outcome [OF assms(1,2)] by (auto simp: refused_def accepted_message_def)
  then obtain m root ks k where m: "unmarshal_add_key (pm_message msg) = Inr m" "logged w msg root st st'"
    and s: "add_key_spec (rw_rand w) m root ks (tables_of st) k (tables_of st')"
    and r: "r = respondWithJSON 200 (fields_payload [(''key_id'', pk_key_id k), (''merkle_root'', root)])"
    unfolding accepted_add_key_def by blast
  note e = add_key_effect [OF wf s]
  have rdy: "ready st'" using acc by (simp add: accepted_add_key_def)
  have "length (pk_key_id k) = 43"
    using e(2) by (auto simp: GenerateKeyID_Inr length_raw_url_encode)
  moreover have "pk_key_id k \<notin> pk_key_id ` set (public_keys (tables_of st))"
    using wf_tablesD(4) [OF ready_wf [OF rdy]] by (simp add: e(1))
  ultimately show ?thesis
    using m e r by (intro exI [of _ m] exI [of _ k]) (auto simp: logged_def)
qed

text \<open>C7. An accepted AddKey appends one row to the key table, and the answer names it: its identifier is
  fresh and has the 43 characters of 32 random bytes in base64url, its root is the one the log answered,
  the key is the one in the message, and it is active for the actor; the keys of all others stay.\<close>

theorem add_key_answer:
  assumes "ready st" "post_protocol env w req st = (r, st')" "rs_status r = 200"
    and "decode_protocol (hr_body req) = Some msg" "pm_action msg = ''AddKey''"
  shows "\<exists>m k. unmarshal_add_key (pm_message msg) = Inr m \<and>
    public_keys (tables_of st') = public_keys (tables_of st) @ [k] \<and>
    pk_key_id k \<notin> pk_key_id ` set (public_keys (tables_of st)) \<and> length (pk_key_id k) = 43 \<and>
    rw_sigsum w = Answered 200 (Inr (pk_merkle_root k)) \<and> pk_public_key k = ak_public_key m \<and>
    rs_body r = marshal_string_map [(''key_id'', pk_key_id k), (''merkle_root'', pk_merkle_root k)] \<and>
    (\<forall>a. active_keys a (tables_of st') = active_keys a (tables_of st) @ (if a = ak_actor m then [k] else []))"
  using add_key_row [OF assms] by blast

text \<open>C6. An accepted BurnDown was signed by an active key of the operator it names, with a valid one-time
  password if that operator has enrolled one. It leaves the actor without active keys and erases every
  symmetric key filed under a root of the actor's keys, those they were added and those they were revoked
  under; no other actor loses a key.\<close>

theorem burn_down_erases:
  assumes "ready st" "post_protocol env w req st = (r, st')" "rs_status r = 200"
    and "decode_protocol (hr_body req) = Some msg" "pm_action msg = ''BurnDown''"
  shows "\<exists>m a. unmarshal_burn_down (pm_message msg) = Inr m \<and>
    signed_by_active (sv_prims env) msg (bd_operator m) (tables_of st) \<and>
    otp_accepted env w msg (totp_of (bd_operator m) (tables_of st)) \<and>
    find_actor (bd_actor m) (tables_of st) = Some a \<and>
    active_keys (bd_actor m) (tables_of st') = [] \<and>
    (\<forall>h \<in> set (key_roots (a_id a) (tables_of st)). symmetric_keys_of h (tables_of st') = []) \<and>
    (\<forall>b. b \<noteq> bd_actor m \<longrightarrow> active_keys b (tables_of st') = active_keys b (tables_of st))"
proof -
  from assms have "accepted_burn_down env w msg st r st'"
    using post_outcome [OF assms(1,2)] by (auto simp: refused_def accepted_message_def)
  then obtain m root where m: "unmarshal_burn_down (pm_message msg) = Inr m"
    "signed_by_active (sv_prims env) msg (bd_operator m) (tables_of st)"
    "otp_accepted env w msg (totp_of (bd_operator m) (tables_of st))"
    and s: "burn_spec (bd_actor m) root (tables_of st) () (tables_of st')"
    unfolding accepted_burn_down_def by blast
  from s obtain a where a: "find_actor (bd_actor m) (tables_of st) = Some a" by (auto simp: burn_spec_def)
  from m a show ?thesis
    using burn_effect(1,2) [OF ready_wf [OF assms(1)] s] by (intro exI [of _ m] exI [of _ a]) auto
qed

text \<open>C8. An accepted MoveIdentity was signed by an active key of the old actor, the new actor did not exist,
  and it now has all the keys, with the old one left without.\<close>

theorem move_identity_moves:
  assumes "ready st" "post_protocol env w req st = (r, st')" "rs_status r = 200"
    and "decode_protocol (hr_body req) = Some msg" "pm_action msg = ''MoveIdentity''"
  shows "\<exists>m. unmarshal_move_identity (pm_message msg) = Inr m \<and>
    signed_by_active (sv_prims env) msg (mi_old_actor m) (tables_of st) \<and>
    find_actor (mi_new_actor m) (tables_of st) = None \<and>
    active_keys (mi_new_actor m) (tables_of st') = active_keys (mi_old_actor m) (tables_of st) \<and>
    active_keys (mi_old_actor m) (tables_of st') = []"
proof -
  from assms have "accepted env w msg unmarshal_move_identity mi_old_actor
        (\<lambda>m root. move_spec m) (\<lambda>_. ok_status ''MoveIdentity processed successfully'') st r st'"
    using post_outcome [OF assms(1,2)] by (auto simp: refused_def accepted_message_def)
  then obtain m u where m: "unmarshal_move_identity (pm_message msg) = Inr m"
    "signed_by_active (sv_prims env) msg (mi_old_actor m) (tables_of st)"
    and s: "move_spec m (tables_of st) u (tables_of st')"
    unfolding accepted_def by blast
  from s obtain now where n: "find_actor (mi_new_actor m) (tables_of st) = None" "mi_old_actor m \<noteq> mi_new_actor m"
    and t': "tables_of st' = rename_actor now (mi_old_actor m) (mi_new_actor m) (tables_of st)"
    unfolding move_spec_def by (metis option.distinct(1))
  from m n show ?thesis
    unfolding t' active_keys_rename [OF ready_wf [OF assms(1)] n] by auto
qed

text \<open>C11. A message posted as ActivityPub content is answered with 200 only if its HTTP signature verified:
  under the key of its \<^verbatim>\<open>keyId\<close>, over the signing string of the headers it lists.\<close>

theorem activity_pub_verified:
  assumes "ready st" "post_protocol env w req st = (r, st')" "rs_status r = 200" "is_activity_pub req"
  shows "http_verified env w req st"
  using post_outcome [OF assms(1,2)] assms(3,4) by (auto simp: refused_def)

text \<open>C10. A checkpoint is stored only if it comes from a configured peer and its signature verifies under
  that peer's key; it is filed under the hash of the message as re-marshalled, once, and changes nothing
  but the message log.\<close>

theorem checkpoint_from_peer:
  assumes "ready st" "post_protocol env w req st = (r, st')" "rs_status r = 200"
    and "decode_protocol (hr_body req) = Some msg" "pm_action msg = ''Checkpoint''"
  shows "\<exists>m pk raw. unmarshal_checkpoint (pm_message msg) = Inr m \<and>
    getDirectoryPublicKey (sv_peers env) (cp_from_directory m) = Inr pk \<and>
    VerifyMessageSignature (sv_prims env) msg pk = Inr () \<and> marshal_protocol msg = Inr raw \<and>
    HashBytes (sv_prims env) (bytes_of_string raw) \<notin> ml_message_hash ` set (message_logs (tables_of st)) \<and>
    (\<exists>row. ml_message_hash row = HashBytes (sv_prims env) (bytes_of_string raw) \<and>
       tables_of st' = (tables_of st)\<lparr> message_logs := message_logs (tables_of st) @ [row] \<rparr>)"
proof -
  from assms have "accepted_checkpoint env msg st r st'"
    using post_outcome [OF assms(1,2)] by (auto simp: refused_def accepted_message_def)
  then show ?thesis
    by (force simp: accepted_checkpoint_def message_stored_def insert_message_log_spec_def)
qed

subsection \<open>Sequences of requests\<close>

text \<open>
  The states the server can be in between requests, from an empty database of either kind, under any
  faults, clocks and cache.
\<close>

definition fresh_start :: "server_state \<Rightarrow> bool" where
  "fresh_start st \<longleftrightarrow>
     (\<exists>t fs. ss_db st = SQLiteDB (sqlite_open\<lparr> sqlite_clock := t, sqlite_faults := fs \<rparr>) \<or>
        ss_db st = PostgresDB (pg_open\<lparr> pg_clock := t, pg_faults := fs \<rparr>))"

lemma fresh_start_ready: "fresh_start st \<Longrightarrow> ready st \<and> tables_of st = empty_tables"
  by (auto simp: fresh_start_def ready_def tables_of_def sqlite_good_def sqlite_open_def sqlite_pending_def
      sqlite_committed_def pg_good_def pg_open_def pg_pending_def pg_committed_def)

lemma fresh_start_vouched: "fresh_start st \<Longrightarrow> key_records (tables_of st) = []"
  by (simp add: fresh_start_ready key_records_def empty_tables_def)

definition in_log :: "string \<times> string \<Rightarrow> server_state \<Rightarrow> bool" where
  "in_log rec st \<longleftrightarrow>
     (\<exists>body msg m. (body, Inr (snd rec)) \<in> set (ss_log st) \<and> marshal_signed (signed_part msg) = Inr body \<and>
        pm_action msg = ''AddKey'' \<and> unmarshal_add_key (pm_message msg) = Inr m \<and> ak_public_key m = fst rec)"

lemma in_log_mono: "in_log rec st \<Longrightarrow> ss_log st' = ss_log st @ xs \<Longrightarrow> in_log rec st'"
  unfolding in_log_def by (metis Un_iff set_append)

lemma accepted_log: "accepted_message env w msg st r st' \<Longrightarrow> \<exists>xs. ss_log st' = ss_log st @ xs"
  using accepted_logged [of env w msg st r st']
  by (auto simp: logged_def accepted_message_def accepted_checkpoint_def accepted_query_def same_def)

definition keys_vouched :: "server_state \<Rightarrow> bool" where
  "keys_vouched st \<longleftrightarrow> list_all (\<lambda>rec. in_log rec st) (key_records (tables_of st))"

lemma keys_vouched_mono:
  assumes "keys_vouched st" "ss_log st' = ss_log st @ xs" "key_records (tables_of st') = key_records (tables_of st)"
  shows "keys_vouched st'"
  using assms by (auto simp: keys_vouched_def list_all_iff intro: in_log_mono)

lemma post_keys_vouched:
  assumes st: "ready st" and inv: "keys_vouched st" and p: "post_protocol env w req st = (r, st')"
  shows "keys_vouched st'"
  using st p
proof (cases rule: post_cases)
  case 1
  with inv show ?thesis by (auto simp: refused_def intro: keys_vouched_mono)
next
  case (2 msg)
  obtain xs where xs: "ss_log st' = ss_log st @ xs" using accepted_log [OF 2(4)] by blast
  from accepted_records [OF st 2(4)] show ?thesis
  proof (elim disjE exE conjE)
    assume "key_records (tables_of st') = key_records (tables_of st)"
    with inv xs show ?thesis by (rule keys_vouched_mono)
  next
    fix m root
    assume a: "pm_action msg = ''AddKey''" "unmarshal_add_key (pm_message msg) = Inr m"
      "logged w msg root st st'"
      and rec: "key_records (tables_of st') = key_records (tables_of st) @ [(ak_public_key m, root)]"
    from a(3) obtain body where "marshal_signed (signed_part msg) = Inr body"
      "ss_log st' = ss_log st @ [(body, Inr root)]" by (auto simp: logged_def)
    with a(1,2) have "in_log (ak_public_key m, root) st'"
      unfolding in_log_def by (intro exI [of _ body] exI [of _ msg] exI [of _ m]) simp
    with inv rec xs show ?thesis by (auto simp: keys_vouched_def list_all_iff intro: in_log_mono)
  qed
qed

end
