(* ===== verification/Demo.thy ===== *)
theory Demo
  imports Guarantees
begin

section \<open>A run of the server on concrete requests\<close>

text \<open>
  Concrete instances of everything the model leaves open, toy primitives that have the properties
  the theorems ask for, and a run of requests on an SQLite database, each step evaluated by the
  code equations of the model. The witnesses of the general theorems apply them along this run.
\<close>

text \<open>
  A signature is the public key and the length of the message; a secret key starts with its
  public half.
\<close>

definition demo_prims :: prims where
  "demo_prims =
     \<lparr> ed25519_sign = (\<lambda>sk m. take 32 sk @ [of_nat (length m)]),
       ed25519_verify = (\<lambda>pk m sig. sig = pk @ [of_nat (length m)]),
       jcs_transform = Inr, sha256_sum = (\<lambda>m. replicate 32 0) \<rparr>"

definition demo_enc :: enc_prims where
  "demo_enc =
     \<lparr> hkdf_read = (\<lambda>ikm info n. Inr (replicate n (of_nat (length info)))),
       sha512_sum = (\<lambda>m. replicate 64 (of_nat (length m))),
       hmac_sha512 = (\<lambda>k m. replicate 64 (of_nat (length m))),
       argon2_idkey = (\<lambda>p s t m h n. replicate n (of_nat (length p))),
       aes_block = (\<lambda>k b. replicate 16 5), hpke_receiver = (\<lambda>sk. Inr (\<lambda>enc. Inr Inr)),
       hpke_sender = (\<lambda>pk. Inr (\<lambda>r. Inr (replicate 32 0, Inr))),
       totp_validate = (\<lambda>period skew digits passcode secret now. Inr (passcode = secret)) \<rparr>"

definition demo_env :: server_env where
  "demo_env =
     \<lparr> sv_prims = demo_prims, sv_enc = demo_enc, sv_registry = (\<lambda>_. None),
       sv_peers = [(''http://peer'', ''AAAAAAAAAAAAAAAAAAAAAAAAAAAAAAAAAAAAAAAAAAA'')],
       sv_hpke_private = Some [], sv_allow_private_ips = False,
       sv_url_parse = (\<lambda>s. Inr \<lparr> pu_scheme = ''http'', pu_hostname = s, pu_text = s \<rparr>) \<rparr>"

text \<open>In round \<open>i\<close> the entropy is the byte \<open>i\<close> over and over, and the log answers \<open>root\<close>\<open>i\<close>.\<close>

definition demo_world :: "nat \<Rightarrow> request_world" where
  "demo_world i =
     \<lparr> rw_rand = replicate 32 (of_nat i), rw_now = 0,
       rw_sigsum = Answered 200 (Inr (''root'' @ [char_of (48 + i)])),
       rw_lookup = (\<lambda>_. Inl json_error), rw_get = (\<lambda>_. SendFailed json_error) \<rparr>"

definition demo_request :: "string \<Rightarrow> http_request" where
  "demo_request body =
     \<lparr> hr_method = ''POST'', hr_path = ''/protocol'', hr_host = ''pkd'',
       hr_headers = [(''Content-Type'', ''application/json'')], hr_body = body,
       hr_body_end = EndOfBody, hr_cut = False \<rparr>"

text \<open>The state of the run with the given actors, keys, sequence numbers and log.\<close>

definition demo_state ::
  "actor list \<Rightarrow> public_key list \<Rightarrow> nat \<Rightarrow> nat \<Rightarrow> (string \<times> string result) list \<Rightarrow> server_state" where
  "demo_state as ks na nk log =
     \<lparr> ss_db = SQLiteDB
         \<lparr> sqlite_tables = empty_tables\<lparr> actors := as, public_keys := ks \<rparr>,
           sqlite_seq = zero_sequences\<lparr> seq_actors := na, seq_keys := nk \<rparr>,
           sqlite_tx = None, sqlite_clock = 0, sqlite_faults = [] \<rparr>,
       ss_log = log, ss_cache = [] \<rparr>"

text \<open>The request is answered with the given status, in the given state, for the given action.\<close>

definition demo_ok ::
  "http_request \<Rightarrow> request_world \<Rightarrow> server_state \<Rightarrow> server_state \<Rightarrow> nat \<Rightarrow> string \<Rightarrow> bool" where
  "demo_ok req w st st' code action \<longleftrightarrow>
     (case post_protocol demo_env w req st of (r, st2) \<Rightarrow>
        rs_status r = code \<and> st2 = st' \<and>
        map_option pm_action (decode_protocol (hr_body req)) = Some action)"

lemma demo_okE:
  assumes "demo_ok req w st st' code action"
  obtains r msg where "post_protocol demo_env w req st = (r, st')" "rs_status r = code"
    "decode_protocol (hr_body req) = Some msg" "pm_action msg = action"
  using assms by (auto simp: demo_ok_def split: prod.splits)

definition demo_s0 :: server_state where
  "demo_s0 = demo_state
      []
      []
      0 0
      []"

subsection \<open>Enrolling, and a commit that fails\<close>

definition demo_add :: http_request where
  "demo_add = demo_request
      ''{\"!pkd-context\":\"https://github.com/fedi-e2ee/public-key-directory/v1\",\"action\":\"AddKey\",\"message\":{\"actor\":\"alice\",\"time\":\"1\",\"public-key\":\"ed25519:AAAAAAAAAAAAAAAAAAAAAAAAAAAAAAAAAAAAAAAAAAA\"},\"recent-merkle-root\":\"\",\"signature\":\"AAAAAAAAAAAAAAAAAAAAAAAAAAAAAAAAAAAAAAAAAADb\"}''"

definition demo_s1 :: server_state where
  "demo_s1 = demo_state
      [\<lparr> a_id = 1, a_actor_id = ''alice'', a_is_fireproof = False, a_created_at = 0, a_updated_at = 0 \<rparr>]
      [\<lparr> pk_id = 1, pk_actor_id = 1, pk_key_id = ''AQEBAQEBAQEBAQEBAQEBAQEBAQEBAQEBAQEBAQEBAQE'',
           pk_public_key = ''ed25519:AAAAAAAAAAAAAAAAAAAAAAAAAAAAAAAAAAAAAAAAAAA'',
           pk_created_at = 0, pk_merkle_root = ''root1'', pk_revoked_at = None, pk_revoke_root = None,
           pk_inclusion_proof = [] \<rparr>]
      1 1
      [(''{\"!pkd-context\":\"https://github.com/fedi-e2ee/public-key-directory/v1\",\"action\":\"AddKey\",\"message\":{\"actor\":\"alice\",\"time\":\"1\",\"public-key\":\"ed25519:AAAAAAAAAAAAAAAAAAAAAAAAAAAAAAAAAAAAAAAAAAA\"},\"recent-merkle-root\":\"\"}'', Inr ''root1'')]"

lemma demo_add_run: "demo_ok demo_add (demo_world 1) demo_s0 demo_s1 200 ''AddKey''"
  by code_simp

text \<open>The database refuses the commit.\<close>

definition demo_faulty :: server_state where
  "demo_faulty = demo_s0\<lparr> ss_db := SQLiteDB (sqlite_open\<lparr> sqlite_faults := replicate 5 (False, 1) @ [(True, 1)] \<rparr>) \<rparr>"

definition demo_failed :: server_state where
  "demo_failed = demo_s1\<lparr> ss_db := SQLiteDB (sqlite_open\<lparr> sqlite_clock := 6 \<rparr>) \<rparr>"

lemma demo_fault_run: "demo_ok demo_add (demo_world 1) demo_faulty demo_failed 500 ''AddKey''"
  by code_simp

subsection \<open>Moving\<close>

definition demo_move :: http_request where
  "demo_move = demo_request
      ''{\"!pkd-context\":\"https://github.com/fedi-e2ee/public-key-directory/v1\",\"action\":\"MoveIdentity\",\"message\":{\"old-actor\":\"alice\",\"new-actor\":\"bob\",\"time\":\"1\"},\"recent-merkle-root\":\"\",\"signature\":\"AAAAAAAAAAAAAAAAAAAAAAAAAAAAAAAAAAAAAAAAAAC0\"}''"

definition demo_s2 :: server_state where
  "demo_s2 = demo_state
      [\<lparr> a_id = 1, a_actor_id = ''bob'', a_is_fireproof = False, a_created_at = 0, a_updated_at = 0 \<rparr>]
      [\<lparr> pk_id = 1, pk_actor_id = 1, pk_key_id = ''AQEBAQEBAQEBAQEBAQEBAQEBAQEBAQEBAQEBAQEBAQE'',
           pk_public_key = ''ed25519:AAAAAAAAAAAAAAAAAAAAAAAAAAAAAAAAAAAAAAAAAAA'',
           pk_created_at = 0, pk_merkle_root = ''root1'', pk_revoked_at = None, pk_revoke_root = None,
           pk_inclusion_proof = [] \<rparr>]
      1 1
      [(''{\"!pkd-context\":\"https://github.com/fedi-e2ee/public-key-directory/v1\",\"action\":\"AddKey\",\"message\":{\"actor\":\"alice\",\"time\":\"1\",\"public-key\":\"ed25519:AAAAAAAAAAAAAAAAAAAAAAAAAAAAAAAAAAAAAAAAAAA\"},\"recent-merkle-root\":\"\"}'', Inr ''root1''),
         (''{\"!pkd-context\":\"https://github.com/fedi-e2ee/public-key-directory/v1\",\"action\":\"MoveIdentity\",\"message\":{\"old-actor\":\"alice\",\"new-actor\":\"bob\",\"time\":\"1\"},\"recent-merkle-root\":\"\"}'', Inr ''root2'')]"

lemma demo_move_run: "demo_ok demo_move (demo_world 2) demo_s1 demo_s2 200 ''MoveIdentity''"
  by code_simp

subsection \<open>Revoking a key that was enrolled twice\<close>

definition demo_d0 :: server_state where
  "demo_d0 = demo_state
      [\<lparr> a_id = 1, a_actor_id = ''alice'', a_is_fireproof = False, a_created_at = 0, a_updated_at = 0 \<rparr>]
      [\<lparr> pk_id = 1, pk_actor_id = 1, pk_key_id = ''k1'',
           pk_public_key = ''ed25519:AAAAAAAAAAAAAAAAAAAAAAAAAAAAAAAAAAAAAAAAAAA'',
           pk_created_at = 0, pk_merkle_root = ''r1'', pk_revoked_at = None, pk_revoke_root = None,
           pk_inclusion_proof = [] \<rparr>,
         \<lparr> pk_id = 2, pk_actor_id = 1, pk_key_id = ''k2'',
           pk_public_key = ''ed25519:AAAAAAAAAAAAAAAAAAAAAAAAAAAAAAAAAAAAAAAAAAA'',
           pk_created_at = 0, pk_merkle_root = ''r2'', pk_revoked_at = None, pk_revoke_root = None,
           pk_inclusion_proof = [] \<rparr>,
         \<lparr> pk_id = 3, pk_actor_id = 1, pk_key_id = ''k3'',
           pk_public_key = ''ed25519:AQEBAQEBAQEBAQEBAQEBAQEBAQEBAQEBAQEBAQEBAQE'',
           pk_created_at = 0, pk_merkle_root = ''r3'', pk_revoked_at = None, pk_revoke_root = None,
           pk_inclusion_proof = [] \<rparr>]
      1 3
      []"

definition demo_revoke :: http_request where
  "demo_revoke = demo_request
      ''{\"!pkd-context\":\"https://github.com/fedi-e2ee/public-key-directory/v1\",\"action\":\"RevokeKey\",\"message\":{\"actor\":\"alice\",\"time\":\"1\",\"public-key\":\"ed25519:AAAAAAAAAAAAAAAAAAAAAAAAAAAAAAAAAAAAAAAAAAA\"},\"recent-merkle-root\":\"\",\"signature\":\"AQEBAQEBAQEBAQEBAQEBAQEBAQEBAQEBAQEBAQEBAQHe\"}''"

definition demo_d1 :: server_state where
  "demo_d1 = demo_state
      [\<lparr> a_id = 1, a_actor_id = ''alice'', a_is_fireproof = False, a_created_at = 0, a_updated_at = 0 \<rparr>]
      [\<lparr> pk_id = 1, pk_actor_id = 1, pk_key_id = ''k1'',
           pk_public_key = ''ed25519:AAAAAAAAAAAAAAAAAAAAAAAAAAAAAAAAAAAAAAAAAAA'',
           pk_created_at = 0, pk_merkle_root = ''r1'', pk_revoked_at = Some 0, pk_revoke_root = Some ''root3'',
           pk_inclusion_proof = [] \<rparr>,
         \<lparr> pk_id = 2, pk_actor_id = 1, pk_key_id = ''k2'',
           pk_public_key = ''ed25519:AAAAAAAAAAAAAAAAAAAAAAAAAAAAAAAAAAAAAAAAAAA'',
           pk_created_at = 0, pk_merkle_root = ''r2'', pk_revoked_at = None, pk_revoke_root = None,
           pk_inclusion_proof = [] \<rparr>,
         \<lparr> pk_id = 3, pk_actor_id = 1, pk_key_id = ''k3'',
           pk_public_key = ''ed25519:AQEBAQEBAQEBAQEBAQEBAQEBAQEBAQEBAQEBAQEBAQE'',
           pk_created_at = 0, pk_merkle_root = ''r3'', pk_revoked_at = None, pk_revoke_root = None,
           pk_inclusion_proof = [] \<rparr>]
      1 3
      [(''{\"!pkd-context\":\"https://github.com/fedi-e2ee/public-key-directory/v1\",\"action\":\"RevokeKey\",\"message\":{\"actor\":\"alice\",\"time\":\"1\",\"public-key\":\"ed25519:AAAAAAAAAAAAAAAAAAAAAAAAAAAAAAAAAAAAAAAAAAA\"},\"recent-merkle-root\":\"\"}'', Inr ''root3'')]"

lemma demo_revoke_run: "demo_ok demo_revoke (demo_world 3) demo_d0 demo_d1 200 ''RevokeKey''"
  by code_simp

subsection \<open>Burning down a fireproof actor\<close>

definition demo_f0 :: server_state where
  "demo_f0 = demo_state
      [\<lparr> a_id = 1, a_actor_id = ''alice'', a_is_fireproof = True, a_created_at = 0, a_updated_at = 0 \<rparr>, \<lparr> a_id = 2, a_actor_id = ''mallory'', a_is_fireproof = False, a_created_at = 0, a_updated_at = 0 \<rparr>]
      [\<lparr> pk_id = 1, pk_actor_id = 1, pk_key_id = ''k1'',
           pk_public_key = ''ed25519:AAAAAAAAAAAAAAAAAAAAAAAAAAAAAAAAAAAAAAAAAAA'',
           pk_created_at = 0, pk_merkle_root = ''r1'', pk_revoked_at = None, pk_revoke_root = None,
           pk_inclusion_proof = [] \<rparr>,
         \<lparr> pk_id = 2, pk_actor_id = 2, pk_key_id = ''k2'',
           pk_public_key = ''ed25519:AgICAgICAgICAgICAgICAgICAgICAgICAgICAgICAgI'',
           pk_created_at = 0, pk_merkle_root = ''r2'', pk_revoked_at = None, pk_revoke_root = None,
           pk_inclusion_proof = [] \<rparr>]
      2 2
      []"

definition demo_burn :: http_request where
  "demo_burn = demo_request
      ''{\"!pkd-context\":\"https://github.com/fedi-e2ee/public-key-directory/v1\",\"action\":\"BurnDown\",\"message\":{\"actor\":\"alice\",\"operator\":\"mallory\",\"time\":\"1\"},\"recent-merkle-root\":\"\",\"signature\":\"AgICAgICAgICAgICAgICAgICAgICAgICAgICAgICAgKv\"}''"

definition demo_f1 :: server_state where
  "demo_f1 = demo_state
      [\<lparr> a_id = 1, a_actor_id = ''alice'', a_is_fireproof = True, a_created_at = 0, a_updated_at = 0 \<rparr>, \<lparr> a_id = 2, a_actor_id = ''mallory'', a_is_fireproof = False, a_created_at = 0, a_updated_at = 0 \<rparr>]
      [\<lparr> pk_id = 1, pk_actor_id = 1, pk_key_id = ''k1'',
           pk_public_key = ''ed25519:AAAAAAAAAAAAAAAAAAAAAAAAAAAAAAAAAAAAAAAAAAA'',
           pk_created_at = 0, pk_merkle_root = ''r1'', pk_revoked_at = Some 0, pk_revoke_root = Some ''root4'',
           pk_inclusion_proof = [] \<rparr>,
         \<lparr> pk_id = 2, pk_actor_id = 2, pk_key_id = ''k2'',
           pk_public_key = ''ed25519:AgICAgICAgICAgICAgICAgICAgICAgICAgICAgICAgI'',
           pk_created_at = 0, pk_merkle_root = ''r2'', pk_revoked_at = None, pk_revoke_root = None,
           pk_inclusion_proof = [] \<rparr>]
      2 2
      [(''{\"!pkd-context\":\"https://github.com/fedi-e2ee/public-key-directory/v1\",\"action\":\"BurnDown\",\"message\":{\"actor\":\"alice\",\"operator\":\"mallory\",\"time\":\"1\"},\"recent-merkle-root\":\"\"}'', Inr ''root4'')]"

lemma demo_burn_run: "demo_ok demo_burn (demo_world 4) demo_f0 demo_f1 200 ''BurnDown''"
  by code_simp

subsection \<open>A checkpoint of a peer\<close>

definition demo_checkpoint :: http_request where
  "demo_checkpoint = demo_request
      ''{\"!pkd-context\":\"https://github.com/fedi-e2ee/public-key-directory/v1\",\"action\":\"Checkpoint\",\"message\":{\"time\":\"1\",\"from-directory\":\"http://peer\",\"from-root\":\"r\",\"from-public-key\":\"p\",\"to-directory\":\"us\",\"to-validated-root\":\"v\"},\"recent-merkle-root\":\"\",\"signature\":\"AAAAAAAAAAAAAAAAAAAAAAAAAAAAAAAAAAAAAAAAAAD9\"}''"

definition demo_checkpoint_stored :: server_state where
  "demo_checkpoint_stored = demo_s0\<lparr> ss_db := SQLiteDB
     (sqlite_open\<lparr> sqlite_tables := empty_tables\<lparr> message_logs :=
        [\<lparr> ml_id = 1, ml_message_hash = ''0000000000000000000000000000000000000000000000000000000000000000'',
           ml_encrypted_message = ''{\"!pkd-context\":\"https://github.com/fedi-e2ee/public-key-directory/v1\",\"action\":\"Checkpoint\",\"message\":{\"time\":\"1\",\"from-directory\":\"http://peer\",\"from-root\":\"r\",\"from-public-key\":\"p\",\"to-directory\":\"us\",\"to-validated-root\":\"v\"},\"recent-merkle-root\":\"\",\"signature\":\"AAAAAAAAAAAAAAAAAAAAAAAAAAAAAAAAAAAAAAAAAAD9\"}'',
           ml_decrypted_message = ''{\"!pkd-context\":\"https://github.com/fedi-e2ee/public-key-directory/v1\",\"action\":\"Checkpoint\",\"message\":{\"time\":\"1\",\"from-directory\":\"http://peer\",\"from-root\":\"r\",\"from-public-key\":\"p\",\"to-directory\":\"us\",\"to-validated-root\":\"v\"},\"recent-merkle-root\":\"\",\"signature\":\"AAAAAAAAAAAAAAAAAAAAAAAAAAAAAAAAAAAAAAAAAAD9\"}'',
           ml_created_at = 0 \<rparr>] \<rparr>,
        sqlite_seq := zero_sequences\<lparr> seq_logs := 1 \<rparr> \<rparr>) \<rparr>"

lemma demo_checkpoint_run: "demo_ok demo_checkpoint (demo_world 5) demo_s0 demo_checkpoint_stored 200 ''Checkpoint''"
  by code_simp

subsection \<open>A query posted as ActivityPub content\<close>

definition demo_query :: http_request where
  "demo_query =
     (demo_request ''{\"!pkd-context\":\"https://github.com/fedi-e2ee/public-key-directory/v1\",\"action\":\"Query\",\"message\":{\"actor\":\"alice\"},\"recent-merkle-root\":\"\",\"signature\":\"\"}'')
     \<lparr> hr_headers := [(''Content-Type'', ''application/activity+json''),
        (''Signature'', ''keyId=\"k\",headers=\"(request-target)\",signature=\"AgICAgICAgICAgICAgICAgICAgICAgICAgICAgICAgIg\"'')] \<rparr>"

definition demo_cached :: server_state where
  "demo_cached = demo_s1\<lparr> ss_cache := [(''k'', replicate 32 2)] \<rparr>"

lemma demo_query_run: "demo_ok demo_query (demo_world 6) demo_cached demo_cached 200 ''Query''"
  by code_simp

end
