(* ===== verification/Times.thy ===== *)
theory Times
  imports Api
begin

section \<open>RFC 3339 time stamps\<close>

text \<open>
  \<^verbatim>\<open>t.Format(time.RFC3339)\<close> in a time zone and \<^verbatim>\<open>time.Parse(time.RFC3339, s)\<close> of Go's package
  \<^verbatim>\<open>time\<close>, as the token service uses them. An instant is a number of seconds since 1970, a parsed
  one a number of nanoseconds; a zone is its offset in minutes. The parser takes what Go's takes: one
  or two digits of the hour, a fraction of a second after a point or a comma, offsets up to 24 hours
  and 60 minutes.
\<close>

subsection \<open>Formatting\<close>

definition zone_text :: "int \<Rightarrow> string" where
  "zone_text off =
     (if off = 0 then ''Z''
      else (if off < 0 then ''-'' else ''+'') @ pad2 (nat \<bar>off\<bar> div 60) @ '':'' @ pad2 (nat \<bar>off\<bar> mod 60))"

definition rfc3339_in :: "int \<Rightarrow> nat \<Rightarrow> string" where
  "rfc3339_in off t =
     (let l = nat (int t + 60 * off) in
      case civil_from_days (l div 86400) of (y, m, d) \<Rightarrow>
        pad4 y @ ''-'' @ pad2 m @ ''-'' @ pad2 d @ ''T'' @ pad2 (l mod 86400 div 3600) @ '':'' @
        pad2 (l mod 3600 div 60) @ '':'' @ pad2 (l mod 60) @ zone_text off)"

subsection \<open>Parsing\<close>

definition is_leap :: "nat \<Rightarrow> bool" where
  "is_leap y \<longleftrightarrow> 4 dvd y \<and> (100 dvd y \<longrightarrow> 400 dvd y)"

definition days_in :: "nat \<Rightarrow> nat \<Rightarrow> nat" where
  "days_in y m = (if m = 2 then (if is_leap y then 29 else 28) else if m \<in> {4, 6, 9, 11} then 30 else 31)"

definition days_from_civil :: "nat \<Rightarrow> nat \<Rightarrow> nat \<Rightarrow> int" where
  "days_from_civil y m d =
     (let y' = int y - (if m \<le> 2 then 1 else 0);
          yoe = y' mod 400;
          mp = (if m \<le> 2 then m + 9 else m - 3);
          doy = int ((153 * mp + 2) div 5 + d - 1)
      in y' div 400 * 146097 + (365 * yoe + yoe div 4 - yoe div 100 + doy) - 719468)"

definition digit_value :: "char \<Rightarrow> nat" where
  "digit_value c = of_char c - 48"

text \<open>Exactly \<open>n\<close> digits, and the rest.\<close>

fun digits_fixed :: "nat \<Rightarrow> nat \<Rightarrow> string \<Rightarrow> (nat \<times> string) option" where
  "digits_fixed 0 acc s = Some (acc, s)"
| "digits_fixed (Suc n) acc [] = None"
| "digits_fixed (Suc n) acc (c # s) = (if is_digit c then digits_fixed n (10 * acc + digit_value c) s else None)"

lemma digits_fixed_code [code]:
  "digits_fixed n acc s =
     (if n = 0 then Some (acc, s)
      else case s of [] \<Rightarrow> None
         | c # r \<Rightarrow> if is_digit c then digits_fixed (n - 1) (10 * acc + digit_value c) r else None)"
  by (cases n; cases s) simp_all

definition hour_digits :: "string \<Rightarrow> (nat \<times> string) option" where
  "hour_digits s =
     (case digits_fixed 2 0 s of None \<Rightarrow> digits_fixed 1 0 s | Some x \<Rightarrow> Some x)"

definition after_char :: "char \<Rightarrow> string \<Rightarrow> string option" where
  "after_char c s = (case s of [] \<Rightarrow> None | x # r \<Rightarrow> if x = c then Some r else None)"

text \<open>The fraction in nanoseconds; digits from the tenth on are read and dropped.\<close>

definition fraction :: "string \<Rightarrow> nat \<times> string" where
  "fraction s =
     (case s of
        c # d # r \<Rightarrow>
          if (c = CHR ''.'' \<or> c = CHR '','') \<and> is_digit d then
            (let ds = takeWhile is_digit (d # r); nine = take 9 ds in
             (foldl (\<lambda>a x. 10 * a + digit_value x) 0 nine * 10 ^ (9 - length nine), dropWhile is_digit (d # r)))
          else (0, s)
      | _ \<Rightarrow> (0, s))"

text \<open>The offset in seconds.\<close>

definition zone_offset :: "string \<Rightarrow> (int \<times> string) option" where
  "zone_offset s =
     (case s of
        [] \<Rightarrow> None
      | c # r \<Rightarrow>
          if c = CHR ''Z'' then Some (0, r)
          else
            Option.bind (digits_fixed 2 0 r) (\<lambda>(h, r1).
            Option.bind (after_char (CHR '':'') r1) (\<lambda>r2.
            Option.bind (digits_fixed 2 0 r2) (\<lambda>(m, r3).
              if 24 < h \<or> 60 < m then None
              else if c = CHR ''+'' then Some (int (h * 60 + m) * 60, r3)
              else if c = CHR ''-'' then Some (- int (h * 60 + m) * 60, r3)
              else None))))"

definition parse_date :: "string \<Rightarrow> ((nat \<times> nat \<times> nat) \<times> string) option" where
  "parse_date s =
     Option.bind (digits_fixed 4 0 s) (\<lambda>(y, s).
     Option.bind (after_char (CHR ''-'') s) (\<lambda>s.
     Option.bind (digits_fixed 2 0 s) (\<lambda>(m, s).
     Option.bind (after_char (CHR ''-'') s) (\<lambda>s.
     Option.bind (digits_fixed 2 0 s) (\<lambda>(d, s).
       if m < 1 \<or> 12 < m \<or> d < 1 \<or> days_in y m < d then None else Some ((y, m, d), s))))))"

definition parse_clock :: "string \<Rightarrow> (nat \<times> string) option" where
  "parse_clock s =
     Option.bind (hour_digits s) (\<lambda>(hh, s).
     Option.bind (after_char (CHR '':'') s) (\<lambda>s.
     Option.bind (digits_fixed 2 0 s) (\<lambda>(mm, s).
     Option.bind (after_char (CHR '':'') s) (\<lambda>s.
     Option.bind (digits_fixed 2 0 s) (\<lambda>(ss, s).
       if 24 \<le> hh \<or> 60 \<le> mm \<or> 60 \<le> ss then None else Some ((hh * 60 + mm) * 60 + ss, s))))))"

definition parse_rfc3339 :: "string \<Rightarrow> int option" where
  "parse_rfc3339 s =
     Option.bind (parse_date s) (\<lambda>((y, m, d), s).
     Option.bind (after_char (CHR ''T'') s) (\<lambda>s.
     Option.bind (parse_clock s) (\<lambda>(secs, s).
     case fraction s of (ns, s) \<Rightarrow>
     Option.bind (zone_offset s) (\<lambda>(off, s).
       if s \<noteq> [] then None
       else Some ((days_from_civil y m d * 86400 + int secs - off) * 1000000000 + int ns)))))"

subsection \<open>Dates\<close>

definition year_of_era :: "nat \<Rightarrow> nat" where
  "year_of_era doe = (doe - doe div 1460 + doe div 36524 - doe div 146096) div 365"

text \<open>
  A day of a 400-year era is day \<open>o'\<close> of the year \<open>r\<close> of the leap cycle \<open>q\<close> of the century \<open>c\<close>, years
  beginning in March.
\<close>

lemma era_split:
  assumes "doe < 146097"
  obtains c q r o' :: nat where "doe = 36524 * c + 1461 * q + 365 * r + o'" "c < 4" "q < 25" "r < 4"
    "o' < 365 \<or> o' = 365 \<and> r = 3 \<and> (q < 24 \<or> c = 3)"
proof -
  define c where "c = min (doe div 36524) 3"
  define a where "a = doe - 36524 * c"
  define q where "q = a div 1461"
  define b where "b = a - 1461 * q"
  define r where "r = min (b div 365) 3"
  have a: "doe = 36524 * c + a" "c < 4" "a \<le> 36524" "c < 3 \<Longrightarrow> a < 36524"
    using assms by (auto simp: a_def c_def min_def)
  have b: "a = 1461 * q + b" "b < 1461" "q < 25"
    using a(3) by (auto simp: b_def q_def)
  have "b = 365 * r + (b - 365 * r)" "r < 4" "b - 365 * r < 365 \<or> r = 3"
    by (auto simp: r_def min_def)
  then show ?thesis
    using a b by (intro that [of c q r "b - 365 * r"]) auto
qed

lemma year_of_era:
  assumes "doe < 146097"
  obtains y o' where "y < 400" "year_of_era doe = y" "doe = 365 * y + y div 4 - y div 100 + o'" "o' \<le> 365"
    "y div 100 \<le> 365 * y + y div 4" "o' = 365 \<longrightarrow> is_leap (Suc y)"
proof -
  obtain c q r o' :: nat where d: "doe = 36524 * c + 1461 * q + 365 * r + o'" and b: "c < 4" "q < 25" "r < 4"
    and o': "o' < 365 \<or> o' = 365 \<and> r = 3 \<and> (q < 24 \<or> c = 3)"
    using era_split [OF assms] .
  define e :: nat where "e = (if 1460 \<le> 24 * c + q + 365 * r + o' then 1 else 0)"
  have e: "doe div 1460 = 25 * c + q + e"
    by (rule div_nat_eqI) (use d b o' in \<open>auto simp: e_def\<close>)
  have c: "doe div 36524 - doe div 146096 = c" "doe div 146096 \<le> doe div 36524"
  proof -
    consider "doe < 146096" | "doe = 146096" using assms by linarith
    then have "doe div 36524 - doe div 146096 = c \<and> doe div 146096 \<le> doe div 36524"
    proof cases
      case 1
      then have "doe div 36524 = c" by (intro div_nat_eqI) (use d b o' in auto)
      with 1 show ?thesis by simp
    next
      case 2
      then have "c = 3" using d b o' by auto
      with 2 show ?thesis by simp
    qed
    then show "doe div 36524 - doe div 146096 = c" "doe div 146096 \<le> doe div 36524" by simp_all
  qed
  let ?y = "100 * c + 4 * q + r"
  have y4: "?y div 4 = 25 * c + q" "?y div 100 = c"
    using b by (auto intro!: div_nat_eqI)
  have eo: "e \<le> o'" using b o' by (simp add: e_def)
  have "doe - doe div 1460 + doe div 36524 - doe div 146096 = (doe - (25 * c + q + e)) + c"
    using c unfolding e by linarith
  also have "\<dots> = 365 * ?y + (o' - e)"
  proof -
    obtain x where "o' = e + x" using eo le_Suc_ex by blast
    then show ?thesis unfolding d by simp
  qed
  finally have "doe - doe div 1460 + doe div 36524 - doe div 146096 = 365 * ?y + (o' - e)" .
  moreover have "o' - e < 365" using o' by (auto simp: e_def)
  ultimately have "year_of_era doe = ?y"
    unfolding year_of_era_def by (intro div_nat_eqI) auto
  moreover have "o' = 365 \<longrightarrow> is_leap (Suc ?y)"
  proof
    assume "o' = 365"
    then have r: "r = 3" "q < 24 \<or> c = 3" using o' by auto
    have y: "Suc ?y = 100 * c + (4 * q + 4)" using r by simp
    have "4 dvd Suc ?y" unfolding y by simp
    moreover have "100 dvd Suc ?y \<longrightarrow> 400 dvd Suc ?y"
    proof (cases "q < 24")
      case True
      then have "Suc ?y mod 100 = 4 * q + 4" unfolding y by simp
      then show ?thesis by (simp add: dvd_eq_mod_eq_0)
    next
      case False
      with r b have "Suc ?y = 400" by simp
      then show ?thesis by simp
    qed
    ultimately show "is_leap (Suc ?y)" by (simp add: is_leap_def)
  qed
  ultimately show ?thesis
    using d b o' y4 by (intro that [of ?y o']) auto
qed

text \<open>A day of a year beginning in March is a day of a month of it.\<close>

lemma month_of_year:
  fixes doy mp :: nat
  assumes "doy \<le> 365" "mp = (5 * doy + 2) div 153"
  shows "mp < 12" "(153 * mp + 2) div 5 \<le> doy"
    "doy - (153 * mp + 2) div 5 + 1 \<le> (if mp = 11 then 29 else if mp \<in> {1, 3, 6, 8} then 30 else 31)"
    "mp = 11 \<Longrightarrow> doy - (153 * mp + 2) div 5 + 1 = 29 \<Longrightarrow> doy = 365"
proof -
  have mp: "153 * mp \<le> 5 * doy + 2" "5 * doy + 2 < 153 * mp + 153"
    using assms(2) by auto
  then show "mp < 12" using assms(1) by linarith
  then have "mp = 0 \<or> mp = 1 \<or> mp = 2 \<or> mp = 3 \<or> mp = 4 \<or> mp = 5 \<or> mp = 6 \<or> mp = 7 \<or>
      mp = 8 \<or> mp = 9 \<or> mp = 10 \<or> mp = 11"
    by presburger
  then have *: "(153 * mp + 2) div 5 \<le> doy \<and>
      doy - (153 * mp + 2) div 5 + 1 \<le> (if mp = 11 then 29 else if mp \<in> {1, 3, 6, 8} then 30 else 31) \<and>
      (mp = 11 \<longrightarrow> doy - (153 * mp + 2) div 5 + 1 = 29 \<longrightarrow> doy = 365)"
    using mp assms(1) by (elim disjE) auto
  then show "(153 * mp + 2) div 5 \<le> doy"
    "doy - (153 * mp + 2) div 5 + 1 \<le> (if mp = 11 then 29 else if mp \<in> {1, 3, 6, 8} then 30 else 31)"
    "mp = 11 \<Longrightarrow> doy - (153 * mp + 2) div 5 + 1 = 29 \<Longrightarrow> doy = 365" by blast+
qed

lemma civil_days:
  assumes "civil_from_days days = (y, m, d)"
  shows "days_from_civil y m d = int days" "1 \<le> m" "m \<le> 12" "1 \<le> d" "d \<le> days_in y m"
proof -
  define z where "z = days + 719468"
  define era where "era = z div 146097"
  define doe where "doe = z mod 146097"
  obtain yoe o' where yoe: "yoe < 400" "year_of_era doe = yoe" "doe = 365 * yoe + yoe div 4 - yoe div 100 + o'"
    "o' \<le> 365" "yoe div 100 \<le> 365 * yoe + yoe div 4" "o' = 365 \<longrightarrow> is_leap (Suc yoe)"
    using year_of_era [of doe] by (auto simp: doe_def)
  define mp where "mp = (5 * o' + 2) div 153"
  note mp = month_of_year [OF yoe(4) mp_def]
  have doy: "doe - (365 * yoe + yoe div 4 - yoe div 100) = o'" using yoe(3,5) by simp
  let ?m = "if mp < 10 then mp + 3 else mp - 9"
  have "civil_from_days days =
      (if ?m \<le> 2 then yoe + era * 400 + 1 else yoe + era * 400, ?m, o' - (153 * mp + 2) div 5 + 1)"
    unfolding civil_from_days_def Let_def z_def [symmetric] era_def [symmetric] doe_def [symmetric]
      yoe(2) [unfolded year_of_era_def] doy mp_def [symmetric] by (rule refl)
  then have ymd: "d = o' - (153 * mp + 2) div 5 + 1" "m = ?m"
    "y = (if m \<le> 2 then yoe + era * 400 + 1 else yoe + era * 400)"
    unfolding assms by (simp_all only: prod.inject)
  show m: "1 \<le> m" "m \<le> 12" and "1 \<le> d"
    using ymd mp(1) by auto
  have y': "int y - (if m \<le> 2 then 1 else 0) = int yoe + int era * 400"
    using ymd(3) by simp
  have mp': "(if m \<le> 2 then m + 9 else m - 3) = mp"
    using ymd(2) mp(1) by auto
  have "int ((153 * mp + 2) div 5 + d - 1) = int o'"
    using mp(2) ymd(1) by simp
  then have "days_from_civil y m d =
      int era * 146097 + (365 * int yoe + int yoe div 4 - int yoe div 100 + int o') - 719468"
    unfolding days_from_civil_def Let_def y' mp' using yoe(1) by simp
  also have "365 * int yoe + int yoe div 4 - int yoe div 100 + int o' = int doe"
    unfolding yoe(3) using yoe(5) by (simp add: zdiv_int of_nat_diff)
  also have "int era * 146097 + int doe = int z"
    unfolding era_def doe_def by (simp add: zdiv_int zmod_int)
  finally show "days_from_civil y m d = int days" by (simp add: z_def)
  have leap: "is_leap (Suc (yoe + era * 400)) = is_leap (Suc yoe)"
  proof -
    have "k dvd Suc (yoe + era * 400) \<longleftrightarrow> k dvd Suc yoe" if "k dvd 400" for k
    proof -
      have "Suc (yoe + era * 400) = Suc yoe + era * 400" by simp
      then show ?thesis using that by (metis dvd_add_left_iff dvd_mult)
    qed
    then show ?thesis by (simp add: is_leap_def)
  qed
  show "d \<le> days_in y m"
  proof (cases "mp = 11")
    case True
    then have "m = 2" "y = Suc (yoe + era * 400)" using ymd(2,3) by auto
    moreover have "d = 29 \<Longrightarrow> is_leap (Suc yoe)"
      using mp(4) [OF True] yoe(6) ymd(1) by simp
    moreover have "d \<le> 29" using mp(3) True ymd(1) by simp
    ultimately show ?thesis by (cases "d = 29") (auto simp: days_in_def leap)
  next
    case False
    then show ?thesis using mp(1,3) ymd(1,2) by (auto simp: days_in_def split: if_splits)
  qed
qed

subsection \<open>Reading back what was written\<close>

lemma digit_char [simp]:
  "n < 10 \<Longrightarrow> is_digit (char_of (48 + n))" "n < 10 \<Longrightarrow> digit_value (char_of (48 + n)) = n"
  by (simp_all add: is_digit_def digit_value_def)

lemma decimal_small: "n < 10 \<Longrightarrow> decimal n = [char_of (48 + n)]"
  by (simp add: decimal.simps [of n])

lemma zero_digit: "CHR ''0'' = char_of (48 :: nat)"
  by code_simp

lemma decimal_step: "10 \<le> n \<Longrightarrow> decimal n = decimal (n div 10) @ [char_of (48 + n mod 10)]"
  by (simp add: decimal.simps [of n])

lemma digits_fixed_Cons:
  "n < 10 \<Longrightarrow> digits_fixed (Suc k) acc (char_of (48 + n) # s) = digits_fixed k (10 * acc + n) s"
  by simp

lemma pad2_read:
  assumes "n < 100"
  shows "digits_fixed 2 0 (pad2 n @ s) = Some (n, s)"
proof (cases "n < 10")
  case True
  then have "pad2 n = [char_of (48 + 0 :: nat), char_of (48 + n)]"
    by (simp add: pad2_def decimal_small zero_digit)
  then show ?thesis
    using True by (simp only: append.simps numeral_2_eq_2 digits_fixed_Cons) (simp add: digits_fixed_Cons)
next
  case False
  with assms have "pad2 n = [char_of (48 + n div 10), char_of (48 + n mod 10)]"
    by (simp add: pad2_def decimal_step decimal_small)
  moreover have "n div 10 < 10" "n mod 10 < 10" using assms by auto
  ultimately show ?thesis
    by (simp only: append.simps numeral_2_eq_2 digits_fixed_Cons) (simp add: digits_fixed_Cons)
qed

lemma pad4_digits:
  assumes "n < 10000"
  shows "pad4 n = [char_of (48 + n div 1000), char_of (48 + n div 100 mod 10), char_of (48 + n div 10 mod 10),
    char_of (48 + n mod 10)]"
proof -
  note z = zero_digit
  consider "n < 10" | "10 \<le> n" "n < 100" | "100 \<le> n" "n < 1000" | "1000 \<le> n" by linarith
  then show ?thesis
  proof cases
    case 1
    then show ?thesis by (simp add: pad4_def decimal_small numeral_3_eq_3 z)
  next
    case 2
    then have "n div 10 < 10" "n div 10 mod 10 = n div 10" by auto
    with 2 show ?thesis by (simp add: pad4_def decimal_step decimal_small numeral_2_eq_2 z)
  next
    case 3
    then have "10 \<le> n div 10" "n div 10 div 10 < 10" "n div 100 = n div 10 div 10"
      by (auto simp: div_mult2_eq [symmetric])
    with 3 show ?thesis by (simp add: pad4_def decimal_step decimal_small z)
  next
    case 4
    then have "10 \<le> n div 10" "10 \<le> n div 10 div 10" "n div 10 div 10 div 10 < 10"
      "n div 100 = n div 10 div 10" "n div 1000 = n div 10 div 10 div 10"
      using assms by (auto simp: div_mult2_eq [symmetric])
    with 4 show ?thesis by (simp add: pad4_def decimal_step decimal_small)
  qed
qed

lemma pad4_read:
  assumes "n < 10000"
  shows "digits_fixed 4 0 (pad4 n @ s) = Some (n, s)"
proof -
  have "n div 1000 < 10" "n div 100 mod 10 < 10" "n div 10 mod 10 < 10" "n mod 10 < 10"
    using assms by auto
  moreover have "10 * (10 * (10 * (n div 1000) + n div 100 mod 10) + n div 10 mod 10) + n mod 10 = n"
  proof -
    have "10 * (n div 1000) + n div 100 mod 10 = n div 100"
      using mult_div_mod_eq [of 10 "n div 100"] by (simp add: div_mult2_eq [symmetric])
    moreover have "10 * (n div 100) + n div 10 mod 10 = n div 10"
      using mult_div_mod_eq [of 10 "n div 10"] by (simp add: div_mult2_eq [symmetric])
    ultimately show ?thesis by simp
  qed
  moreover have "(4 :: nat) = Suc (Suc (Suc (Suc 0)))" by simp
  ultimately show ?thesis
    unfolding pad4_digits [OF assms]
    by (simp only: append.simps digits_fixed_Cons) (simp add: digits_fixed_Cons)
qed

lemma after_char_Cons [simp]: "after_char c (c # s) = Some s"
  by (simp add: after_char_def)

lemma zone_read:
  assumes "\<bar>off\<bar> < 1440"
  shows "zone_offset (zone_text off) = Some (off * 60, [])"
    "fraction (zone_text off) = (0, zone_text off)"
proof -
  have b: "nat \<bar>off\<bar> div 60 < 24" "nat \<bar>off\<bar> mod 60 < 60"
    using assms by auto
  have n: "int (nat \<bar>off\<bar> div 60 * 60 + nat \<bar>off\<bar> mod 60) = \<bar>off\<bar>"
    by (simp only: div_mult_mod_eq int_nat_eq) simp
  have t: "digits_fixed 2 0 (pad2 (nat \<bar>off\<bar> mod 60)) = Some (nat \<bar>off\<bar> mod 60, [])"
    using pad2_read [of "nat \<bar>off\<bar> mod 60" "[]"] b by simp
  define h where "h = nat \<bar>off\<bar> div 60"
  define m where "m = nat \<bar>off\<bar> mod 60"
  have hm: "h < 24" "m < 60" "digits_fixed 2 0 (pad2 m) = Some (m, [])"
    using b t by (simp_all only: h_def m_def)
  have n: "int (h * 60 + m) = \<bar>off\<bar>" using n by (simp only: h_def m_def)
  have z: "zone_text off = (if off = 0 then ''Z'' else (if off < 0 then ''-'' else ''+'') @ pad2 h @ '':'' @ pad2 m)"
    by (simp only: zone_text_def h_def m_def)
  have "- int (h * 60 + m) * 60 = off * 60" if "off < 0" using that unfolding n by simp
  moreover have "int (h * 60 + m) * 60 = off * 60" if "0 < off" using that unfolding n by simp
  ultimately show "zone_offset (zone_text off) = Some (off * 60, [])"
    unfolding z zone_offset_def using hm by (cases off "0 :: int" rule: linorder_cases) (simp_all add: pad2_read)
  show "fraction (zone_text off) = (0, zone_text off)"
    by (auto simp: zone_text_def fraction_def split: list.split)
qed

text \<open>Formatting an instant and parsing the text gives the instant back, in every zone less than a day
  from UTC, up to the year 9999 that the four digits of the format hold.\<close>

lemma rfc3339_parse:
  assumes "\<bar>off\<bar> < 1440" "0 \<le> int t + 60 * off" "fst (civil_from_days (nat (int t + 60 * off) div 86400)) < 10000"
  shows "parse_rfc3339 (rfc3339_in off t) = Some (int t * 1000000000)"
proof -
  define l where "l = nat (int t + 60 * off)"
  obtain y m d where ymd: "civil_from_days (l div 86400) = (y, m, d)" by (cases "civil_from_days (l div 86400)")
  note c = civil_days [OF ymd]
  have y: "y < 10000" using assms(3) ymd by (simp add: l_def)
  have md: "m < 100" "d < 100" using c by (auto simp: days_in_def split: if_splits)
  have h: "l mod 86400 div 3600 < 24" "l mod 3600 div 60 < 60" "l mod 60 < 60"
    by (simp_all add: less_mult_imp_div_less)
  have secs: "(l mod 86400 div 3600 * 60 + l mod 3600 div 60) * 60 + l mod 60 = l mod 86400"
  proof -
    have "l mod 86400 mod 3600 = l mod 3600" "l mod 3600 mod 60 = l mod 60"
      by (simp_all add: mod_mod_cancel)
    then show ?thesis
      using div_mult_mod_eq [of "l mod 86400" 3600] div_mult_mod_eq [of "l mod 3600" 60] by simp
  qed
  have l: "int (l div 86400) * 86400 + int (l mod 86400) = int t + 60 * off"
    using div_mult_mod_eq [of l 86400] assms(2) unfolding l_def by (metis int_nat_eq of_nat_add of_nat_mult of_nat_numeral)
  have date: "parse_date (pad4 y @ ''-'' @ pad2 m @ ''-'' @ pad2 d @ s) = Some ((y, m, d), s)" for s
    using y md c by (simp add: parse_date_def pad4_read pad2_read)
  have clock: "parse_clock (pad2 (l mod 86400 div 3600) @ '':'' @ pad2 (l mod 3600 div 60) @ '':'' @ pad2 (l mod 60) @ s) =
      Some (l mod 86400, s)" for s
  proof -
    have "l mod 60 < 100" "\<not> 60 \<le> l mod 60" using h(3) by linarith+
    then show ?thesis using h(1,2) secs by (simp add: parse_clock_def hour_digits_def pad2_read)
  qed
  have "rfc3339_in off t = pad4 y @ ''-'' @ pad2 m @ ''-'' @ pad2 d @ ''T'' @ pad2 (l mod 86400 div 3600) @ '':'' @
        pad2 (l mod 3600 div 60) @ '':'' @ pad2 (l mod 60) @ zone_text off"
    by (simp add: rfc3339_in_def Let_def l_def [symmetric] ymd)
  then show ?thesis
    unfolding parse_rfc3339_def using c(1) l
    by (simp add: date [unfolded append.simps] clock [unfolded append.simps] zone_read [OF assms(1)])
qed

end
