(* ===== verification/JsonText.thy ===== *)
theory JsonText
  imports Messages
begin

section \<open>Reading back the objects the server writes\<close>

text \<open>
  A text that reads as a value: with fuel \<open>n\<close> or more and nesting \<open>d\<close> left, the parser takes the
  whole of it, whatever follows. Strings, the literals, and objects of such texts do, so every
  object the server marshals is read back member by member.
\<close>

definition reads_as :: "nat \<Rightarrow> int \<Rightarrow> string \<Rightarrow> json \<Rightarrow> bool" where
  "reads_as n d t v \<longleftrightarrow>
     (\<exists>c r. t = c # r \<and> \<not> is_space c) \<and> (\<forall>k y. n \<le> k \<longrightarrow> jvalue k d (t @ y) = Some (v, y))"

lemma reads_as_string: "reads_as 1 d (json_string s) (JStr (to_valid_utf8 s))"
proof -
  have "jvalue k d (json_string s @ y) = Some (JStr (to_valid_utf8 s), y)" if "1 \<le> k" for k y
    using that jvalue_json_string [of "k - 1" d s y] by simp
  then show ?thesis by (auto simp: reads_as_def json_string_def)
qed

lemma reads_as_true: "reads_as 1 d ''true'' (JBool True)"
proof -
  have ns: "is_space (CHR ''t'') = False" by (simp add: is_space_def)
  have "jvalue (Suc k) d (''true'' @ y) = Some (JBool True, y)" for k y
    using ns by (simp add: literal_at_def)
  then have "jvalue k d (''true'' @ y) = Some (JBool True, y)" if "1 \<le> k" for k y
    using that by (cases k) auto
  then show ?thesis using ns by (auto simp: reads_as_def)
qed

text \<open>
  A number ends where the text after it says so. \<open>reads_to\<close> is the weaker notion for the places inside
  an object or an array, where a delimiter follows.
\<close>

definition delimiter :: "char \<Rightarrow> bool" where
  "delimiter c \<longleftrightarrow> c = CHR '','' \<or> c = CHR ''}'' \<or> c = CHR '']''"

lemma delimiter_space: "delimiter c \<Longrightarrow> \<not> is_space c"
  by (auto simp: delimiter_def is_space_def)

definition reads_to :: "nat \<Rightarrow> int \<Rightarrow> string \<Rightarrow> json \<Rightarrow> bool" where
  "reads_to n d t v \<longleftrightarrow>
     (\<exists>c r. t = c # r \<and> \<not> is_space c) \<and>
     (\<forall>k c y. n \<le> k \<longrightarrow> delimiter c \<longrightarrow> jvalue k d (t @ c # y) = Some (v, c # y))"

lemma reads_as_to: "reads_as n d t v \<Longrightarrow> reads_to n d t v"
  by (simp add: reads_as_def reads_to_def)

text \<open>Members: name, text and value.\<close>

definition read_members :: "(string \<times> string \<times> json) list \<Rightarrow> jmember list" where
  "read_members fs = map (\<lambda>(k, t, v). (to_valid_utf8 k, t, v)) fs"

definition written :: "(string \<times> string \<times> json) list \<Rightarrow> (string \<times> string) list" where
  "written fs = map (\<lambda>(k, t, v). (k, t)) fs"

lemma jmembers_written:
  assumes "fs \<noteq> []" "\<forall>(k, t, v) \<in> set fs. reads_to n d t v" "length fs + n \<le> k"
  shows "jmembers k d (object_fields (written fs) @ CHR ''}'' # y) = Some (read_members fs, y)"
  using assms
proof (induction fs arbitrary: k)
  case (Cons f fs)
  obtain name t v where f: "f = (name, t, v)" by (cases f)
  from Cons.prems obtain k' where k: "k = Suc k'" "length fs + n \<le> k'" by (cases k) auto
  from Cons.prems f obtain c0 r0 where t: "t = c0 # r0" "\<not> is_space c0"
    and v: "\<And>c y. delimiter c \<Longrightarrow> jvalue k' d (t @ c # y) = Some (v, c # y)"
    using k by (auto simp: reads_to_def)
  have ws: "skip_ws (t @ y') = t @ y'" for y' using t by simp
  have member: "jmembers k d (json_string name @ '':'' @ t @ c # y') =
      (if c = CHR '','' then map_option (\<lambda>(ms, r6). ((to_valid_utf8 name, t, v) # ms, r6)) (jmembers k' d y')
       else if c = CHR ''}'' then Some ([(to_valid_utf8 name, t, v)], y')
       else None)" if "delimiter c" for c y'
    using delimiter_space [OF that] str_body_json_escape [of name "'':'' @ t @ c # y'"] v [OF that] ws [of "c # y'"]
    by (simp add: k(1) json_string_def Let_def)
  show ?case
  proof (cases fs)
    case Nil
    show ?thesis
      using member [of "CHR ''}''" y] by (simp add: Nil f written_def read_members_def delimiter_def)
  next
    case (Cons f' fs')
    have "jmembers k' d (object_fields (written fs) @ CHR ''}'' # y) = Some (read_members fs, y)"
      using Cons.prems k Cons by (intro Cons.IH) auto
    then show ?thesis
      using member [of "CHR '',''" "object_fields (written fs) @ CHR ''}'' # y"] Cons
      by (cases f') (simp add: f written_def read_members_def delimiter_def)
  qed
qed simp

lemma object_fields_quote: "fs \<noteq> [] \<Longrightarrow> \<exists>u. object_fields fs = CHR 0x22 # u"
  by (cases fs rule: object_fields.cases) (auto simp: json_string_def)

lemma reads_to_object:
  assumes "fs \<noteq> []" "\<forall>(k, t, v) \<in> set fs. reads_to n d t v" "0 \<le> d"
  shows "reads_as (Suc (length fs + n)) (d + 1) (json_object (written fs)) (JObj (read_members fs))"
proof -
  have "written fs \<noteq> []" using assms(1) by (simp add: written_def)
  from object_fields_quote [OF this] obtain u where u: "object_fields (written fs) = CHR 0x22 # u" by blast
  have "jvalue k (d + 1) (json_object (written fs) @ y) = Some (JObj (read_members fs), y)"
    if "Suc (length fs + n) \<le> k" for k y
  proof -
    from that have k: "k = Suc (k - 1)" "length fs + n \<le> k - 1" by auto
    show ?thesis
      using jmembers_written [OF assms(1,2) k(2), of y] assms(3) u
      by (subst k(1)) (simp add: json_object_def del: jmembers.simps)
  qed
  then show ?thesis by (auto simp: reads_as_def json_object_def is_space_def)
qed

lemma reads_as_object:
  assumes "fs \<noteq> []" "\<forall>(k, t, v) \<in> set fs. reads_as n d t v" "0 \<le> d"
  shows "reads_as (Suc (length fs + n)) (d + 1) (json_object (written fs)) (JObj (read_members fs))"
  using assms by (intro reads_to_object) (auto intro: reads_as_to)

lemma reads_as_parse:
  assumes "reads_as n max_depth t v" "n \<le> 2 * length t + 2"
  shows "json_parse t = Some v" "json_first t = Some v"
proof -
  have "jvalue (2 * length t + 2) max_depth (t @ []) = Some (v, [])"
    using assms unfolding reads_as_def by blast
  then show "json_parse t = Some v" "json_first t = Some v"
    by (simp_all add: json_parse_def json_first_def)
qed

lemma length_object_fields: "length fs \<le> length (object_fields fs)"
  by (induction fs rule: object_fields.induct) (auto simp: json_string_def)

lemma json_object_written:
  assumes "fs \<noteq> []" "\<forall>(k, t, v) \<in> set fs. reads_as n (max_depth - 1) t v"
    "Suc (length fs + n) \<le> 2 * length (json_object (written fs)) + 2"
  shows "json_parse (json_object (written fs)) = Some (JObj (read_members fs))"
    "json_first (json_object (written fs)) = Some (JObj (read_members fs))"
  using reads_as_parse [OF _ assms(3)] reads_as_object [OF assms(1,2)] by (auto simp: max_depth_def)

end
