(* ===== verification/Tokens.thy ===== *)
theory Tokens
  imports Times JsonText Config Dispatch
begin

section \<open>Administrator tokens\<close>

text \<open>
  \<^verbatim>\<open>internal/auth\<close>: the key file (\<^verbatim>\<open>key_manager.go\<close>, \<^verbatim>\<open>encryption.go\<close>), the token service
  (\<^verbatim>\<open>token_service.go\<close>), and the middleware that guards the administrator's routes
  (\<^verbatim>\<open>internal/api/auth_middleware.go\<close>). AES-GCM, Argon2id, PASETO and the UUID generator are
  outside the repository: the fields of \<open>token_prims\<close>.
\<close>

record token_prims =
  gcm_seal :: "bytes \<Rightarrow> bytes \<Rightarrow> bytes \<Rightarrow> bytes \<Rightarrow> bytes"
  gcm_open :: "bytes \<Rightarrow> bytes \<Rightarrow> bytes \<Rightarrow> bytes \<Rightarrow> bytes result"
  argon2id_key :: "bytes \<Rightarrow> bytes \<Rightarrow> nat \<Rightarrow> nat \<Rightarrow> nat \<Rightarrow> nat \<Rightarrow> bytes"
  local_key_from_seed :: "bytes \<Rightarrow> bytes result"
  paseto_encrypt :: "bytes \<Rightarrow> bytes \<Rightarrow> string \<Rightarrow> string result"
  paseto_decrypt :: "bytes \<Rightarrow> string \<Rightarrow> string result"
  new_uuid :: "bytes \<Rightarrow> string result"

subsection \<open>AES-GCM\<close>

definition key_size_error :: "bytes \<Rightarrow> go_error" where
  "key_size_error key = Errorf (''crypto/aes: invalid key size '' @ decimal (length key))"

definition aes_key_ok :: "bytes \<Rightarrow> bool" where
  "aes_key_ok key \<longleftrightarrow> length key \<in> {16, 24, 32}"

definition encryptWithAESGCM :: "token_prims \<Rightarrow> bytes \<Rightarrow> bytes \<Rightarrow> bytes \<Rightarrow> bytes \<Rightarrow> bytes result" where
  "encryptWithAESGCM T plaintext key nonce additionalData =
     (if \<not> aes_key_ok key then Inl (key_size_error key)
      else Inr (gcm_seal T key nonce additionalData plaintext))"

definition decryptWithAESGCM :: "token_prims \<Rightarrow> bytes \<Rightarrow> bytes \<Rightarrow> bytes \<Rightarrow> bytes \<Rightarrow> bytes result" where
  "decryptWithAESGCM T ciphertext key nonce additionalData =
     (if \<not> aes_key_ok key then Inl (key_size_error key)
      else gcm_open T key nonce additionalData ciphertext)"

subsection \<open>Files\<close>

text \<open>
  The content of each file that exists, and the paths the operating system refuses to work with.
  The empty path does not exist and cannot be written. A write that is refused changes nothing.
\<close>

record files =
  fs_content :: "string \<Rightarrow> string option"
  fs_refused :: "string \<Rightarrow> bool"

datatype stat = NotExist | Size nat | StatError

definition os_error :: go_error where
  "os_error = Errorf ''operating system error''"

definition os_Stat :: "files \<Rightarrow> string \<Rightarrow> stat" where
  "os_Stat fs p =
     (if p = [] then NotExist
      else if fs_refused fs p then StatError
      else case fs_content fs p of None \<Rightarrow> NotExist | Some c \<Rightarrow> Size (length c))"

definition os_ReadFile :: "files \<Rightarrow> string \<Rightarrow> string result" where
  "os_ReadFile fs p =
     (if p = [] \<or> fs_refused fs p then Inl os_error
      else case fs_content fs p of None \<Rightarrow> Inl os_error | Some c \<Rightarrow> Inr c)"

definition os_WriteFile :: "string \<Rightarrow> string \<Rightarrow> (files, unit) op" where
  "os_WriteFile p c fs =
     (if p = [] \<or> fs_refused fs p then (Inl os_error, fs)
      else (Inr (), fs\<lparr> fs_content := (fs_content fs)(p \<mapsto> c) \<rparr>))"

subsection \<open>The key manager\<close>

record key_manager =
  km_path :: string
  km_password :: bytes
  km_time :: "32 word"
  km_memory :: "32 word"
  km_threads :: "8 word"

definition derive_file_key :: "token_prims \<Rightarrow> key_manager \<Rightarrow> bytes \<Rightarrow> bytes" where
  "derive_file_key T km salt =
     argon2id_key T (km_password km) salt (unat (km_time km)) (unat (km_memory km)) (unat (km_threads km)) 44"

definition generateAndSaveKey :: "token_prims \<Rightarrow> bytes \<Rightarrow> key_manager \<Rightarrow> (files, unit) op" where
  "generateAndSaveKey T rand km =
     (case read_full 32 rand of
        None \<Rightarrow> fail_op entropy_error
      | Some newKey \<Rightarrow>
          if km_password km = [] then os_WriteFile (km_path km) (raw_url_encode newKey)
          else
            (case read_full 16 (drop 32 rand) of
               None \<Rightarrow> fail_op entropy_error
             | Some salt \<Rightarrow>
                 let derivedKey = derive_file_key T km salt in
                 (case encryptWithAESGCM T newKey (take 32 derivedKey) (drop 32 derivedKey) salt of
                    Inl e \<Rightarrow> fail_op e
                  | Inr encryptedKey \<Rightarrow>
                      os_WriteFile (km_path km) (raw_url_encode salt @ '':'' @ raw_url_encode encryptedKey))))"

definition NewFileKeyManager :: "token_prims \<Rightarrow> bytes \<Rightarrow> key_manager \<Rightarrow> (files, key_manager) op" where
  "NewFileKeyManager T rand km fs =
     (case os_Stat fs (km_path km) of
        StatError \<Rightarrow> (Inl os_error, fs)
      | s \<Rightarrow>
          if s = NotExist \<or> s = Size 0
          then bind_op (generateAndSaveKey T rand km) (\<lambda>_. return_op km) fs
          else (Inr km, fs))"

definition GetPasetoSymmetricKey :: "token_prims \<Rightarrow> files \<Rightarrow> key_manager \<Rightarrow> bytes result" where
  "GetPasetoSymmetricKey T fs km =
     (case os_ReadFile fs (km_path km) of
        Inl e \<Rightarrow> Inl e
      | Inr data \<Rightarrow>
          if km_password km = [] then
            (case raw_url_decode data of None \<Rightarrow> Inl base64_error | Some k \<Rightarrow> Inr k)
          else
            (case split_on (CHR '':'') data of
               [saltText, keyText] \<Rightarrow>
                 (case raw_url_decode saltText of
                    None \<Rightarrow> Inl base64_error
                  | Some salt \<Rightarrow>
                      (case raw_url_decode keyText of
                         None \<Rightarrow> Inl base64_error
                       | Some encryptedKey \<Rightarrow>
                           let derivedKey = derive_file_key T km salt in
                           decryptWithAESGCM T encryptedKey (take 32 derivedKey) (drop 32 derivedKey) salt))
             | _ \<Rightarrow> Inl (Errorf ''invalid key file format'')))"

lemma split_on_none: "x \<notin> set s \<Longrightarrow> split_on x s = [s]"
  by (induction s) auto

lemma split_on_append: "x \<notin> set a \<Longrightarrow> split_on x (a @ x # b) = a # split_on x b"
  by (induction a) auto

lemma url_chars: "CHR '':'' \<notin> set (raw_url_encode b)" "CHR ''{'' \<notin> set url_alphabet"
  using raw_url_encode_chars [of b] by (auto simp: url_alphabet_def)

definition gcm_correct :: "token_prims \<Rightarrow> bool" where
  "gcm_correct T \<longleftrightarrow>
     (\<forall>k n a p. gcm_open T k n a (gcm_seal T k n a p) = Inr p) \<and>
     (\<forall>p s t m h n. length (argon2id_key T p s t m h n) = n)"

lemma generated_key:
  assumes T: "gcm_correct T" and g: "generateAndSaveKey T rand km fs = (Inr (), fs')"
  shows "32 \<le> length rand \<and> GetPasetoSymmetricKey T fs' km = Inr (take 32 rand)"
proof -
  obtain k where k: "read_full 32 rand = Some k"
    using g by (auto simp: generateAndSaveKey_def fail_op_def split: option.splits)
  then have rand: "32 \<le> length rand" "k = take 32 rand"
    by (auto simp: read_full_def split: if_splits)
  have written: "os_ReadFile (fs\<lparr> fs_content := (fs_content fs)(km_path km \<mapsto> c) \<rparr>) (km_path km) = Inr c"
    if "os_WriteFile (km_path km) c fs = (Inr (), fs2)" for c fs2
    using that by (auto simp: os_WriteFile_def os_ReadFile_def split: if_splits)
  show ?thesis
  proof (cases "km_password km = []")
    case True
    with g k have "os_WriteFile (km_path km) (raw_url_encode k) fs = (Inr (), fs')"
      by (simp add: generateAndSaveKey_def)
    with True rand written [OF this] show ?thesis
      by (auto simp: GetPasetoSymmetricKey_def os_WriteFile_def split: if_splits)
  next
    case False
    with g k obtain salt where salt: "read_full 16 (drop 32 rand) = Some salt"
      by (auto simp: generateAndSaveKey_def fail_op_def split: option.splits)
    let ?d = "derive_file_key T km salt"
    have aes: "aes_key_ok (take 32 ?d)"
      using T by (simp add: gcm_correct_def derive_file_key_def aes_key_ok_def)
    let ?c = "raw_url_encode salt @ '':'' @ raw_url_encode (gcm_seal T (take 32 ?d) (drop 32 ?d) salt k)"
    have w: "os_WriteFile (km_path km) ?c fs = (Inr (), fs')"
      using g k salt False aes by (simp add: generateAndSaveKey_def encryptWithAESGCM_def Let_def)
    then have read: "os_ReadFile fs' (km_path km) = Inr ?c"
      using written [OF w] by (auto simp: os_WriteFile_def split: if_splits)
    have "split_on (CHR '':'') ?c = [raw_url_encode salt, raw_url_encode (gcm_seal T (take 32 ?d) (drop 32 ?d) salt k)]"
      by (simp add: split_on_append split_on_none url_chars)
    with read False aes T rand show ?thesis
      by (simp add: GetPasetoSymmetricKey_def decryptWithAESGCM_def gcm_correct_def Let_def)
  qed
qed

text \<open>C32. A key manager for a file that is missing or empty creates it with the first 32 bytes of entropy,
  which reading the file with the same password then returns, encrypted or not; a file with anything in
  it is left alone.\<close>

theorem key_file_roundtrip:
  assumes "gcm_correct T" "NewFileKeyManager T rand km fs = (Inr km', fs')"
  shows "km' = km \<and>
    (if os_Stat fs (km_path km) \<in> {NotExist, Size 0}
     then 32 \<le> length rand \<and> GetPasetoSymmetricKey T fs' km = Inr (take 32 rand)
     else fs' = fs)"
  using assms(2) generated_key [OF assms(1), of rand km fs]
  by (auto simp: NewFileKeyManager_def op_defs split: stat.splits prod.splits sum.splits if_splits)

text \<open>The key file of the configuration is no key file of the token service: a JSON object, as
  \<^verbatim>\<open>keygen\<close> writes, yields no symmetric key under any password.\<close>

lemma json_key_file_unusable:
  assumes "fs_content fs (km_path km) = Some (CHR ''{'' # rest)"
  shows "\<exists>e. GetPasetoSymmetricKey T fs km = Inl e"
proof -
  have no: "raw_url_decode (CHR ''{'' # s) = None" for s
    using raw_url_decode_SomeD(1) [of "CHR ''{'' # s"] url_chars(2)
    by (cases "raw_url_decode (CHR ''{'' # s)") (auto simp: is_newline_def)
  obtain p ps where "split_on (CHR '':'') (CHR ''{'' # rest) = (CHR ''{'' # p) # ps"
    by (cases "split_on (CHR '':'') rest") auto
  then show ?thesis
    using assms no
    by (auto simp: GetPasetoSymmetricKey_def os_ReadFile_def split: list.splits)
qed

subsection \<open>The token service\<close>

text \<open>
  The table \<^verbatim>\<open>used_refresh_tokens\<close>, in which the service keeps the identifiers it has seen, is in
  none of the schemas: \<open>ut_table = None\<close>. \<open>ut_faults\<close> tells for each statement to come whether the
  driver refuses it.
\<close>

record used_tokens =
  ut_table :: "string list option"
  ut_faults :: "bool list"

definition ut_statement :: "(string list \<Rightarrow> 'a \<times> string list) \<Rightarrow> (used_tokens, 'a) op" where
  "ut_statement f s =
     (case ut_faults s of
        True # fs \<Rightarrow> (Inl driver_error, s\<lparr> ut_faults := fs \<rparr>)
      | fs \<Rightarrow>
          (case ut_table s of
             None \<Rightarrow> (Inl driver_error, s\<lparr> ut_faults := tl fs \<rparr>)
           | Some rows \<Rightarrow>
               (case f rows of (x, rows') \<Rightarrow> (Inr x, s\<lparr> ut_table := Some rows', ut_faults := tl fs \<rparr>))))"

text \<open>The service: its key manager, the host name it issues for, the zone of its clock.\<close>

record token_service =
  ts_key_manager :: key_manager
  ts_host :: string
  ts_zone :: int

type_synonym claims = "(string \<times> string) list"

definition standard_claims :: "token_service \<Rightarrow> nat \<Rightarrow> nat \<Rightarrow> string \<Rightarrow> claims" where
  "standard_claims s now ttl jti =
     [(''exp'', json_string (rfc3339_in (ts_zone s) (now + ttl))),
      (''iat'', json_string (rfc3339_in (ts_zone s) now)),
      (''iss'', json_string (ts_host s)),
      (''jti'', json_string jti),
      (''nbf'', json_string (rfc3339_in (ts_zone s) now))]"

text \<open>
  \<open>newToken\<close> with the claims of its caller, which come after the standard ones in the order of
  their names. The entropy gives the identifier first, then the nonce of the encryption.
\<close>

definition newToken ::
  "token_prims \<Rightarrow> files \<Rightarrow> token_service \<Rightarrow> bytes \<Rightarrow> bytes \<Rightarrow> claims \<Rightarrow> nat \<Rightarrow> nat \<Rightarrow> string result" where
  "newToken T fs s uuidRand nonceRand extra now ttl =
     (case GetPasetoSymmetricKey T fs (ts_key_manager s) of
        Inl e \<Rightarrow> Inl e
      | Inr keyBytes \<Rightarrow>
          (case local_key_from_seed T keyBytes of
             Inl e \<Rightarrow> Inl e
           | Inr key \<Rightarrow>
               (case new_uuid T uuidRand of
                  Inl e \<Rightarrow> Inl e
                | Inr jti \<Rightarrow>
                    paseto_encrypt T nonceRand key (json_object (standard_claims s now ttl jti @ extra)))))"

definition access_claims :: claims where
  "access_claims = [(''pkd-admin'', ''true''), (''token-type'', json_string ''access'')]"

definition refresh_claims :: claims where
  "refresh_claims = [(''token-type'', json_string ''refresh'')]"

record token_entropy =
  te_uuid :: bytes
  te_nonce :: bytes

definition newAccessToken :: "token_prims \<Rightarrow> files \<Rightarrow> token_service \<Rightarrow> token_entropy \<Rightarrow> nat \<Rightarrow> string result" where
  "newAccessToken T fs s e now = newToken T fs s (te_uuid e) (te_nonce e) access_claims now (15 * 60)"

definition newRefreshToken :: "token_prims \<Rightarrow> files \<Rightarrow> token_service \<Rightarrow> token_entropy \<Rightarrow> nat \<Rightarrow> string result" where
  "newRefreshToken T fs s e now = newToken T fs s (te_uuid e) (te_nonce e) refresh_claims now (12 * 60 * 60)"

definition NewPair ::
  "token_prims \<Rightarrow> files \<Rightarrow> token_service \<Rightarrow> token_entropy \<Rightarrow> token_entropy \<Rightarrow> nat \<Rightarrow> (string \<times> string) result" where
  "NewPair T fs s e1 e2 now =
     (case newAccessToken T fs s e1 now of
        Inl e \<Rightarrow> Inl e
      | Inr accessToken \<Rightarrow>
          (case newRefreshToken T fs s e2 now of
             Inl e \<Rightarrow> Inl e
           | Inr refreshToken \<Rightarrow> Inr (accessToken, refreshToken)))"

text \<open>A claim of a decoded map: the last member of the name.\<close>

definition claim :: "string \<Rightarrow> jmember list \<Rightarrow> json option" where
  "claim name ms = map_of (rev (map (\<lambda>(k, _, v). (k, v)) ms)) name"

text \<open>\<open>nowNs\<close> is the clock in nanoseconds.\<close>

definition validateToken ::
  "token_prims \<Rightarrow> files \<Rightarrow> token_service \<Rightarrow> int \<Rightarrow> string \<Rightarrow> string \<Rightarrow> jmember list result" where
  "validateToken T fs s nowNs tokenStr tokenType =
     (case GetPasetoSymmetricKey T fs (ts_key_manager s) of
        Inl e \<Rightarrow> Inl e
      | Inr keyBytes \<Rightarrow>
          (case local_key_from_seed T keyBytes of
             Inl e \<Rightarrow> Inl e
           | Inr key \<Rightarrow>
               (case paseto_decrypt T key tokenStr of
                  Inl e \<Rightarrow> Inl e
                | Inr payload \<Rightarrow>
                    (case decode_map payload of
                       None \<Rightarrow> Inl json_error
                     | Some claims \<Rightarrow>
                         (case claim ''exp'' claims of
                            Some (JStr expStr) \<Rightarrow>
                              (case parse_rfc3339 expStr of
                                 None \<Rightarrow> Inl (Errorf ''invalid exp claim'')
                               | Some expNs \<Rightarrow>
                                   if expNs < nowNs then Inl (Errorf ''token has expired'')
                                   else if claim ''token-type'' claims \<noteq> Some (JStr tokenType)
                                   then Inl (Errorf ''invalid token type'')
                                   else Inr claims)
                          | _ \<Rightarrow> Inl (Errorf ''missing exp claim''))))))"

definition ValidateAccessToken ::
  "token_prims \<Rightarrow> files \<Rightarrow> token_service \<Rightarrow> int \<Rightarrow> string \<Rightarrow> jmember list result" where
  "ValidateAccessToken T fs s nowNs tokenStr = validateToken T fs s nowNs tokenStr ''access''"

definition ValidateRefreshToken ::
  "token_prims \<Rightarrow> files \<Rightarrow> token_service \<Rightarrow> int \<Rightarrow> string \<Rightarrow> (used_tokens, jmember list) op" where
  "ValidateRefreshToken T fs s nowNs tokenStr =
     bind_op (lift_op (validateToken T fs s nowNs tokenStr ''refresh'')) (\<lambda>claims.
     (case claim ''jti'' claims of
        Some (JStr jti) \<Rightarrow>
          bind_op (ut_statement (\<lambda>rows. (jti \<in> set rows, rows))) (\<lambda>exists.
          if exists then fail_op (Errorf ''refresh token has already been used'') else return_op claims)
      | _ \<Rightarrow> fail_op (Errorf ''missing jti in refresh token'')))"

definition Refresh ::
  "token_prims \<Rightarrow> files \<Rightarrow> token_service \<Rightarrow> token_entropy \<Rightarrow> token_entropy \<Rightarrow> nat \<Rightarrow> int \<Rightarrow> string \<Rightarrow>
   (used_tokens, string \<times> string) op" where
  "Refresh T fs s e1 e2 now nowNs refreshToken =
     bind_op (ValidateRefreshToken T fs s nowNs refreshToken) (\<lambda>claims.
     (case claim ''jti'' claims of
        Some (JStr jti) \<Rightarrow>
          bind_op (ut_statement (\<lambda>rows. ((), rows @ [jti]))) (\<lambda>_. lift_op (NewPair T fs s e1 e2 now))
      | _ \<Rightarrow> fail_op (Errorf ''missing jti in refresh token'')))"

subsection \<open>Tokens that the service issues\<close>

lemma decimal_ascii: "c \<in> set (decimal n) \<Longrightarrow> of_char c < (128 :: nat)"
proof (induction n rule: decimal.induct)
  case (1 n)
  show ?case
  proof (cases "n < 10")
    case True
    with 1 show ?thesis by (simp add: decimal_small)
  next
    case False
    with 1 show ?thesis by (auto simp: decimal_step)
  qed
qed

lemma pad_ascii: "c \<in> set (pad2 n) \<Longrightarrow> of_char c < (128 :: nat)" "c \<in> set (pad4 n) \<Longrightarrow> of_char c < (128 :: nat)"
  by (auto simp: pad2_def pad4_def split: if_splits dest: decimal_ascii)

lemma rfc3339_ascii: "to_valid_utf8 (rfc3339_in off t) = rfc3339_in off t"
proof (rule to_valid_utf8_ascii, rule ballI)
  fix c
  assume "c \<in> set (rfc3339_in off t)"
  then show "of_char c < (128 :: nat)"
    by (auto simp: rfc3339_in_def zone_text_def Let_def split: prod.splits if_splits dest: pad_ascii)
qed

text \<open>The claims with what they are read back as.\<close>

definition claim_values :: "token_service \<Rightarrow> nat \<Rightarrow> nat \<Rightarrow> string \<Rightarrow> (string \<times> string \<times> json) list" where
  "claim_values s now ttl jti =
     map (\<lambda>(k, v). (k, json_string v, JStr (to_valid_utf8 v)))
       [(''exp'', rfc3339_in (ts_zone s) (now + ttl)), (''iat'', rfc3339_in (ts_zone s) now),
        (''iss'', ts_host s), (''jti'', jti), (''nbf'', rfc3339_in (ts_zone s) now)]"

definition access_values :: "(string \<times> string \<times> json) list" where
  "access_values = [(''pkd-admin'', ''true'', JBool True), (''token-type'', json_string ''access'', JStr ''access'')]"

definition refresh_values :: "(string \<times> string \<times> json) list" where
  "refresh_values = [(''token-type'', json_string ''refresh'', JStr ''refresh'')]"

lemma type_names_valid: "to_valid_utf8 ''access'' = ''access''" "to_valid_utf8 ''refresh'' = ''refresh''"
  by (rule to_valid_utf8_ascii, code_simp)+

lemma claims_decoded:
  assumes "extra = access_values \<or> extra = refresh_values"
  shows "decode_map (json_object (written (claim_values s now ttl jti @ extra))) =
    Some (read_members (claim_values s now ttl jti @ extra))"
proof -
  let ?fs = "claim_values s now ttl jti @ extra"
  have "\<forall>(k, t, v) \<in> set ?fs. reads_as 1 (max_depth - 1) t v"
    using assms reads_as_string [of "max_depth - 1" "''access''", unfolded One_nat_def]
      reads_as_string [of "max_depth - 1" "''refresh''", unfolded One_nat_def]
    by (auto simp: claim_values_def access_values_def refresh_values_def type_names_valid
        reads_as_string [unfolded One_nat_def] reads_as_true [unfolded One_nat_def])
  moreover have "Suc (length ?fs + 1) \<le> 2 * length (json_object (written ?fs)) + 2"
    using length_object_fields [of "written ?fs"] by (simp add: json_object_def written_def)
  ultimately have "json_parse (json_object (written ?fs)) = Some (JObj (read_members ?fs))"
    by (intro json_object_written) (auto simp: claim_values_def)
  moreover have "numbers_fit (JObj (read_members ?fs))"
    using assms by (auto simp: claim_values_def access_values_def refresh_values_def read_members_def)
  ultimately show ?thesis by (simp add: decode_map_def members_of_def)
qed

lemma claim_names_valid:
  "to_valid_utf8 ''exp'' = ''exp''" "to_valid_utf8 ''iat'' = ''iat''" "to_valid_utf8 ''iss'' = ''iss''"
  "to_valid_utf8 ''jti'' = ''jti''" "to_valid_utf8 ''nbf'' = ''nbf''" "to_valid_utf8 ''pkd-admin'' = ''pkd-admin''"
  "to_valid_utf8 ''token-type'' = ''token-type''"
  by (rule to_valid_utf8_ascii, code_simp)+

lemmas claim_defs = claim_def read_members_def claim_values_def access_values_def refresh_values_def

lemma claims_read:
  "claim ''exp'' (read_members (claim_values s now ttl jti @ access_values)) = Some (JStr (rfc3339_in (ts_zone s) (now + ttl)))"
  "claim ''exp'' (read_members (claim_values s now ttl jti @ refresh_values)) = Some (JStr (rfc3339_in (ts_zone s) (now + ttl)))"
  "claim ''jti'' (read_members (claim_values s now ttl jti @ refresh_values)) = Some (JStr (to_valid_utf8 jti))"
  "claim ''token-type'' (read_members (claim_values s now ttl jti @ access_values)) = Some (JStr ''access'')"
  "claim ''token-type'' (read_members (claim_values s now ttl jti @ refresh_values)) = Some (JStr ''refresh'')"
  "claim ''pkd-admin'' (read_members (claim_values s now ttl jti @ access_values)) = Some (JBool True)"
  "claim ''pkd-admin'' (read_members (claim_values s now ttl jti @ refresh_values)) = None"
  by (simp_all add: claim_defs claim_names_valid rfc3339_ascii)

end
