(* ===== verification/Auth.thy ===== *)
theory Auth
  imports Tokens
begin

section \<open>Which tokens open the administrator's routes\<close>

text \<open>
  The tokens of \<open>NewPair\<close> against the validation of \<^verbatim>\<open>internal/auth/token_service.go\<close>, the single
  use of refresh tokens, and the middleware \<^verbatim>\<open>internal/api/auth_middleware.go\<close>.
\<close>

subsection \<open>The life of a token\<close>

definition paseto_correct :: "token_prims \<Rightarrow> bool" where
  "paseto_correct T \<longleftrightarrow>
     (\<forall>n k p t. paseto_encrypt T n k p = Inr t \<longrightarrow> paseto_decrypt T k t = Inr p)"

text \<open>The instants that the four digits of the year and the zone of the clock can express.\<close>

definition expressible :: "token_service \<Rightarrow> nat \<Rightarrow> bool" where
  "expressible s t \<longleftrightarrow>
     \<bar>ts_zone s\<bar> < 1440 \<and> 0 \<le> int t + 60 * ts_zone s \<and>
     fst (civil_from_days (nat (int t + 60 * ts_zone s) div 86400)) < 10000"

lemma claims_written:
  "standard_claims s now ttl jti @ access_claims = written (claim_values s now ttl jti @ access_values)"
  "standard_claims s now ttl jti @ refresh_claims = written (claim_values s now ttl jti @ refresh_values)"
  by (simp_all add: standard_claims_def access_claims_def refresh_claims_def written_def claim_values_def
      access_values_def refresh_values_def)

definition token_verdict ::
  "token_service \<Rightarrow> nat \<Rightarrow> nat \<Rightarrow> string \<Rightarrow> (string \<times> string \<times> json) list \<Rightarrow> bool \<Rightarrow> int \<Rightarrow> jmember list result" where
  "token_verdict s now ttl jti extra right_type nowNs =
     (if int (now + ttl) * 1000000000 < nowNs then Inl (Errorf ''token has expired'')
      else if \<not> right_type then Inl (Errorf ''invalid token type'')
      else Inr (read_members (claim_values s now ttl jti @ extra)))"

lemma issued_token:
  assumes T: "paseto_correct T" and time: "expressible s (now + ttl)"
    and tok: "newToken T fs s u n claims now ttl = Inr t"
  shows "\<exists>jti. new_uuid T u = Inr jti \<and>
    (claims = access_claims \<longrightarrow>
       validateToken T fs s nowNs t ty = token_verdict s now ttl jti access_values (ty = ''access'') nowNs) \<and>
    (claims = refresh_claims \<longrightarrow>
       validateToken T fs s nowNs t ty = token_verdict s now ttl jti refresh_values (ty = ''refresh'') nowNs)"
proof -
  obtain kb k jti where k: "GetPasetoSymmetricKey T fs (ts_key_manager s) = Inr kb" "local_key_from_seed T kb = Inr k"
    and jti: "new_uuid T u = Inr jti"
    and e: "paseto_encrypt T n k (json_object (standard_claims s now ttl jti @ claims)) = Inr t"
    using tok by (auto simp: newToken_def split: sum.splits)
  have dec: "paseto_decrypt T k t = Inr (json_object (standard_claims s now ttl jti @ claims))"
    using T e by (auto simp: paseto_correct_def)
  have exp: "parse_rfc3339 (rfc3339_in (ts_zone s) (now + ttl)) = Some (int (now + ttl) * 1000000000)"
    using time by (intro rfc3339_parse) (auto simp: expressible_def)
  show ?thesis
    using k jti dec exp
    by (auto simp: validateToken_def token_verdict_def claims_written claims_decoded claims_read)
qed

text \<open>C30. The access token of a fresh pair is good until the end of its fifteenth minute and carries the
  administrator's claim; the refresh token is good for twelve hours; after that both have expired, and
  neither is accepted as the other.\<close>

theorem token_pair_lifetime:
  assumes "paseto_correct T" "expressible s (now + 900)" "expressible s (now + 43200)"
    and pair: "NewPair T fs s e1 e2 now = Inr (accessToken, refreshToken)"
  shows "(\<exists>claims. claim ''pkd-admin'' claims = Some (JBool True) \<and>
       ValidateAccessToken T fs s nowNs accessToken =
         (if nowNs \<le> int (now + 900) * 1000000000 then Inr claims else Inl (Errorf ''token has expired''))) \<and>
    (\<exists>claims. claim ''jti'' claims \<noteq> None \<and>
       validateToken T fs s nowNs refreshToken ''refresh'' =
         (if nowNs \<le> int (now + 43200) * 1000000000 then Inr claims else Inl (Errorf ''token has expired''))) \<and>
    (\<exists>e. validateToken T fs s nowNs accessToken ''refresh'' = Inl e) \<and>
    (\<exists>e. ValidateAccessToken T fs s nowNs refreshToken = Inl e)"
proof -
  have a: "newToken T fs s (te_uuid e1) (te_nonce e1) access_claims now 900 = Inr accessToken"
    and r: "newToken T fs s (te_uuid e2) (te_nonce e2) refresh_claims now 43200 = Inr refreshToken"
    using pair by (auto simp: NewPair_def newAccessToken_def newRefreshToken_def split: sum.splits)
  obtain j1 where a_ok: "validateToken T fs s nowNs accessToken ''access'' = token_verdict s now 900 j1 access_values True nowNs"
    using issued_token [OF assms(1,2) a, of nowNs "''access''"] by auto
  obtain j2 where a_no: "validateToken T fs s nowNs accessToken ''refresh'' = token_verdict s now 900 j2 access_values False nowNs"
    using issued_token [OF assms(1,2) a, of nowNs "''refresh''"] by auto
  obtain j3 where r_no: "validateToken T fs s nowNs refreshToken ''access'' = token_verdict s now 43200 j3 refresh_values False nowNs"
    using issued_token [OF assms(1,3) r, of nowNs "''access''"] by auto
  obtain j4 where r_ok: "validateToken T fs s nowNs refreshToken ''refresh'' = token_verdict s now 43200 j4 refresh_values True nowNs"
    using issued_token [OF assms(1,3) r, of nowNs "''refresh''"] by auto
  have no: "\<exists>e. token_verdict s now ttl jti extra False nowNs = Inl e" for ttl jti extra
    by (simp add: token_verdict_def)
  have ok: "token_verdict s now ttl jti extra True nowNs =
      (if nowNs \<le> int (now + ttl) * 1000000000
       then Inr (read_members (claim_values s now ttl jti @ extra)) else Inl (Errorf ''token has expired''))" for ttl jti extra
    by (simp add: token_verdict_def not_le)
  show ?thesis
    unfolding ValidateAccessToken_def a_ok a_no r_no r_ok ok
    by (intro conjI no exI [of _ "read_members (claim_values s now 900 j1 @ access_values)"]
        exI [of _ "read_members (claim_values s now 43200 j4 @ refresh_values)"] refl claims_read) (simp add: claims_read)
qed

subsection \<open>Refresh tokens are redeemed once\<close>

text \<open>A sequence of calls of \<open>Refresh\<close>, each with its entropy and its clock.\<close>

record redemption =
  rd_token :: string
  rd_entropy1 :: token_entropy
  rd_entropy2 :: token_entropy
  rd_now :: nat
  rd_now_ns :: int

fun redeem_all ::
  "token_prims \<Rightarrow> files \<Rightarrow> token_service \<Rightarrow> redemption list \<Rightarrow> used_tokens \<Rightarrow> (string \<times> (string \<times> string) result) list" where
  "redeem_all T fs s [] u = []"
| "redeem_all T fs s (r # rs) u =
     (case Refresh T fs s (rd_entropy1 r) (rd_entropy2 r) (rd_now r) (rd_now_ns r) (rd_token r) u of
        (res, u') \<Rightarrow> (rd_token r, res) # redeem_all T fs s rs u')"

definition redeemed :: "string \<Rightarrow> (string \<times> 'a result) list \<Rightarrow> (string \<times> 'a result) list" where
  "redeemed t rs = filter (\<lambda>(t', res). t' = t \<and> isl res = False) rs"

definition recorded :: "string \<Rightarrow> used_tokens \<Rightarrow> bool" where
  "recorded jti u \<longleftrightarrow> (\<forall>rows. ut_table u = Some rows \<longrightarrow> jti \<in> set rows)"

text \<open>The identifier a token carries does not depend on when it is looked at.\<close>

lemma validateToken_time:
  "validateToken T fs s n1 t ty = Inr c1 \<Longrightarrow> validateToken T fs s n2 t ty = Inr c2 \<Longrightarrow> c1 = c2"
  by (auto simp: validateToken_def split: sum.splits option.splits json.splits if_splits)

lemma ut_statement_recorded:
  assumes "ut_statement f u = (res, u')" "\<And>rows. set rows \<subseteq> set (snd (f rows))" "recorded jti u"
  shows "recorded jti u'"
  using assms
  by (fastforce simp: ut_statement_def recorded_def split: list.splits bool.splits option.splits prod.splits)

lemma statements_recorded:
  "ut_statement (\<lambda>rows. (x \<in> set rows, rows)) u = (res, u') \<Longrightarrow> recorded jti u \<Longrightarrow> recorded jti u'"
  "ut_statement (\<lambda>rows. ((), rows @ [x])) u = (res', u') \<Longrightarrow> recorded jti u \<Longrightarrow> recorded jti u'"
  by (erule ut_statement_recorded, simp, assumption, erule ut_statement_recorded, auto)

lemma Refresh_cases:
  assumes "Refresh T fs s e1 e2 now nowNs t u = (res, u')"
  obtains "\<exists>e. res = Inl e" "\<And>jti. recorded jti u \<Longrightarrow> recorded jti u'"
  | p claims jti where "res = Inr p" "validateToken T fs s nowNs t ''refresh'' = Inr claims"
      "claim ''jti'' claims = Some (JStr jti)" "\<not> recorded jti u" "recorded jti u'"
      "\<And>j. recorded j u \<Longrightarrow> recorded j u'"
proof (cases res)
  case (Inl e)
  have keep: "recorded j u'" if "recorded j u" for j
    using assms that
    by (auto simp: Refresh_def ValidateRefreshToken_def op_defs split: sum.splits prod.splits option.splits json.splits if_splits
        dest: statements_recorded)
  then show ?thesis using that(1) Inl by blast
next
  case (Inr p)
  then obtain claims jti u1 where c: "validateToken T fs s nowNs t ''refresh'' = Inr claims"
    "claim ''jti'' claims = Some (JStr jti)"
    and q: "ut_statement (\<lambda>rows. (jti \<in> set rows, rows)) u = (Inr False, u1)"
    and i: "ut_statement (\<lambda>rows. ((), rows @ [jti])) u1 = (Inr (), u')"
    using assms
    by (auto simp: Refresh_def ValidateRefreshToken_def op_defs split: sum.splits prod.splits option.splits json.splits if_splits)
  have "\<not> recorded jti u"
    using q by (auto simp: ut_statement_def recorded_def split: list.splits bool.splits option.splits)
  moreover have "recorded jti u'"
    using i by (auto simp: ut_statement_def recorded_def split: list.splits bool.splits option.splits)
  moreover have "recorded j u'" if "recorded j u" for j
    using statements_recorded(1) [OF q that] statements_recorded(2) [OF i] by blast
  ultimately show ?thesis using that(2) Inr c by blast
qed

lemma redeemed_Cons:
  "redeemed t ((t', res) # rs) = (if t' = t \<and> isl res = False then [(t', res)] else []) @ redeemed t rs"
  by (simp add: redeemed_def)

lemma redeemed_never:
  assumes "\<And>n c. validateToken T fs s n t ''refresh'' = Inr c \<Longrightarrow>
    \<exists>jti. claim ''jti'' c = Some (JStr jti) \<and> recorded jti u"
  shows "redeemed t (redeem_all T fs s rs u) = []"
  using assms
proof (induction rs arbitrary: u)
  case (Cons r rs)
  obtain res u' where run: "Refresh T fs s (rd_entropy1 r) (rd_entropy2 r) (rd_now r) (rd_now_ns r) (rd_token r) u = (res, u')"
    by (cases "Refresh T fs s (rd_entropy1 r) (rd_entropy2 r) (rd_now r) (rd_now_ns r) (rd_token r) u")
  from run show ?case
  proof (cases rule: Refresh_cases)
    case 1
    with Cons.prems have "redeemed t (redeem_all T fs s rs u') = []" by (intro Cons.IH) blast
    with 1(1) show ?thesis by (auto simp: run redeemed_Cons)
  next
    case (2 p claims jti)
    then have "rd_token r \<noteq> t" using Cons.prems by fastforce
    moreover from 2 Cons.prems have "redeemed t (redeem_all T fs s rs u') = []" by (intro Cons.IH) blast
    ultimately show ?thesis by (simp add: run redeemed_Cons)
  qed
qed (simp add: redeemed_def)

text \<open>C31. In any sequence of calls, whatever the driver does in between, a refresh token yields a new pair
  at most once.\<close>

theorem refresh_single_use:
  "length (redeemed t (redeem_all T fs s rs u)) \<le> 1"
proof (induction rs arbitrary: u)
  case (Cons r rs)
  obtain res u' where run: "Refresh T fs s (rd_entropy1 r) (rd_entropy2 r) (rd_now r) (rd_now_ns r) (rd_token r) u = (res, u')"
    by (cases "Refresh T fs s (rd_entropy1 r) (rd_entropy2 r) (rd_now r) (rd_now_ns r) (rd_token r) u")
  show ?case
  proof (cases "rd_token r = t \<and> isl res = False")
    case True
    with run obtain claims jti where c: "validateToken T fs s (rd_now_ns r) t ''refresh'' = Inr claims"
      "claim ''jti'' claims = Some (JStr jti)" "recorded jti u'"
      by (elim Refresh_cases) auto
    have "redeemed t (redeem_all T fs s rs u') = []"
      using c validateToken_time [OF c(1)] by (intro redeemed_never) blast
    then show ?thesis by (simp add: run redeemed_Cons)
  next
    case False
    then show ?thesis using Cons.IH [of u'] by (auto simp: run redeemed_Cons)
  qed
qed (simp add: redeemed_def)

text \<open>On the schemas of the repository no refresh token is ever redeemed.\<close>

theorem refresh_unavailable:
  "\<exists>e. fst (Refresh T fs s e1 e2 now nowNs t \<lparr> ut_table = None, ut_faults = faults \<rparr>) = Inl e"
  by (auto simp: Refresh_def ValidateRefreshToken_def ut_statement_def op_defs
      split: sum.splits option.splits json.splits list.splits bool.splits prod.splits)

subsection \<open>The middleware\<close>

text \<open>The token of the \<^verbatim>\<open>Authorization\<close> header.\<close>

definition bearer_token :: "http_request \<Rightarrow> response + string" where
  "bearer_token req =
     (let authHeader = header_get req ''Authorization'' in
      if authHeader = [] then Inl (respondWithError 401 ''Missing Authorization header'')
      else
        case split_on (CHR '' '') authHeader of
          [scheme, token] \<Rightarrow>
            if ToLower scheme \<noteq> ''bearer''
            then Inl (respondWithError 401 ''Invalid Authorization header format'') else Inr token
        | _ \<Rightarrow> Inl (respondWithError 401 ''Invalid Authorization header format''))"

definition file_key_manager :: "config \<Rightarrow> string \<Rightarrow> key_manager" where
  "file_key_manager cfg password =
     (let kf = sc_key_file (cfg_server cfg) in
      \<lparr> km_path = kf_path kf, km_password = bytes_of_string password, km_time = kf_argon2id_time kf,
        km_memory = kf_argon2id_memory kf, km_threads = kf_argon2id_threads kf \<rparr>)"

text \<open>\<^verbatim>\<open>NewPasetoTokenService\<close>; the zone of the clock belongs to the machine.\<close>

definition NewPasetoTokenService :: "key_manager \<Rightarrow> config \<Rightarrow> int \<Rightarrow> token_service" where
  "NewPasetoTokenService km cfg zone =
     \<lparr> ts_key_manager = km, ts_host = sc_host (cfg_server cfg), ts_zone = zone \<rparr>"

text \<open>What a request brings from outside: entropy for a new key file and the clock in nanoseconds.\<close>

record admin_world =
  aw_rand :: bytes
  aw_now_ns :: int

definition token_error :: "go_error \<Rightarrow> response" where
  "token_error e = respondWithError 401 (''Invalid access token: '' @ error_text e)"

text \<open>
  With the header \<^verbatim>\<open>X-PKD-Key-Password\<close> the request brings the password of the key file, and gets
  a token service of its own; making the key manager may create the file.
\<close>

definition request_claims ::
  "token_prims \<Rightarrow> config \<Rightarrow> token_service \<Rightarrow> admin_world \<Rightarrow> http_request \<Rightarrow> string \<Rightarrow> files \<Rightarrow>
   (response + jmember list) \<times> files" where
  "request_claims T cfg ts aw req token fs =
     (let password = header_get req ''X-PKD-Key-Password'' in
      if password \<noteq> [] then
        (case NewFileKeyManager T (aw_rand aw) (file_key_manager cfg password) fs of
           (Inl e, fs') \<Rightarrow> (Inl (respondWithError 500 (''Failed to create key manager: '' @ error_text e)), fs')
         | (Inr km, fs') \<Rightarrow>
             (map_sum token_error id
                (ValidateAccessToken T fs' (NewPasetoTokenService km cfg (ts_zone ts)) (aw_now_ns aw) token), fs'))
      else (map_sum token_error id (ValidateAccessToken T fs ts (aw_now_ns aw) token), fs))"

text \<open>\<open>Inr\<close>: the claims with which the next handler runs.\<close>

definition authMiddleware ::
  "token_prims \<Rightarrow> config \<Rightarrow> token_service \<Rightarrow> admin_world \<Rightarrow> http_request \<Rightarrow> files \<Rightarrow>
   (response + jmember list) \<times> files" where
  "authMiddleware T cfg ts aw req fs =
     (case bearer_token req of
        Inl r \<Rightarrow> (Inl r, fs)
      | Inr token \<Rightarrow>
          (case request_claims T cfg ts aw req token fs of
             (Inl r, fs') \<Rightarrow> (Inl r, fs')
           | (Inr claims, fs') \<Rightarrow>
               if claim ''pkd-admin'' claims = Some (JBool True) then (Inr claims, fs')
               else (Inl (respondWithError 403 ''Not an admin token''), fs')))"

text \<open>Who gets past the middleware.\<close>

definition admin_token :: "token_prims \<Rightarrow> files \<Rightarrow> token_service \<Rightarrow> int \<Rightarrow> string \<Rightarrow> bool" where
  "admin_token T fs ts nowNs token \<longleftrightarrow>
     (\<exists>claims. ValidateAccessToken T fs ts nowNs token = Inr claims \<and>
        claim ''pkd-admin'' claims = Some (JBool True))"

definition service_for :: "config \<Rightarrow> token_service \<Rightarrow> http_request \<Rightarrow> token_service" where
  "service_for cfg ts req =
     (let password = header_get req ''X-PKD-Key-Password'' in
      if password \<noteq> [] then NewPasetoTokenService (file_key_manager cfg password) cfg (ts_zone ts) else ts)"

lemma NewFileKeyManager_same: "NewFileKeyManager T rand km fs = (Inr km', fs') \<Longrightarrow> km' = km"
  by (auto simp: NewFileKeyManager_def op_defs split: stat.splits prod.splits sum.splits if_splits)

lemma map_sum_Inr: "map_sum f id r = Inr x \<longleftrightarrow> r = Inr x"
  by (cases r) auto

lemma map_sum_Inl: "map_sum f g r = Inl x \<longleftrightarrow> (\<exists>e. r = Inl e \<and> x = f e)"
  by (cases r) auto

lemma authMiddleware_passes:
  assumes "authMiddleware T cfg ts aw req fs = (Inr claims, fs')"
  shows "\<exists>token. bearer_token req = Inr token \<and> admin_token T fs' (service_for cfg ts req) (aw_now_ns aw) token"
  using assms
  by (auto simp: authMiddleware_def request_claims_def admin_token_def service_for_def Let_def
        map_sum_Inr split: sum.splits prod.splits if_splits dest: NewFileKeyManager_same)

lemma authMiddleware_rejects:
  assumes "authMiddleware T cfg ts aw req fs = (Inl r, fs')"
  shows "rs_status r \<in> {401, 403, 500}"
  using assms
  by (auto simp: authMiddleware_def request_claims_def bearer_token_def token_error_def Let_def
        map_sum_Inl split: sum.splits prod.splits if_splits list.splits)

end
