(* ===== verification/Checkpoints.thy ===== *)
theory Checkpoints
  imports Dispatch Config
begin

section \<open>Checkpoints to peers\<close>

text \<open>
  The message a server sends to a peer directory, made in two places of the program: by the
  administrator's \<^verbatim>\<open>POST /admin/checkpoint\<close> (\<^verbatim>\<open>handleTriggerCheckpoint\<close>) and by the scheduler
  (\<^verbatim>\<open>triggerCheckpoint\<close>, \<^verbatim>\<open>internal/checkpoint/scheduler.go\<close>). The two differ in how they read the
  private key, in the check of the target and in what they do with errors.

  \<open>post\<close> is the network: the outcome of a \<^verbatim>\<open>POST\<close> of a body to a URL.
\<close>

type_synonym network = "string \<Rightarrow> string \<Rightarrow> http_outcome"

definition decimal_int :: "int \<Rightarrow> string" where
  "decimal_int n = (if n < 0 then ''-'' @ decimal (nat (- n)) else decimal (nat n))"

subsection \<open>The message\<close>

definition own_url :: "config \<Rightarrow> string" where
  "own_url cfg = ''http://'' @ sc_host (cfg_server cfg) @ '':'' @ decimal_int (sc_port (cfg_server cfg))"

definition checkpoint_payload :: "config \<Rightarrow> nat \<Rightarrow> string \<Rightarrow> string \<Rightarrow> checkpoint_message" where
  "checkpoint_payload cfg now root target =
     \<lparr> cp_time = rfc3339 now, cp_from_directory = own_url cfg, cp_from_root = root,
       cp_from_public_key = [], cp_to_directory = target, cp_to_validated_root = [] \<rparr>"

definition checkpoint_envelope :: "string \<Rightarrow> protocol_message" where
  "checkpoint_envelope payload =
     \<lparr> pm_context = PKDContextV1, pm_action = ''Checkpoint'', pm_key_id = [], pm_message = payload,
       pm_recent_merkle_root = [], pm_signature = [], pm_symmetric_keys = [], pm_otp = [] \<rparr>"

text \<open>
  The steps from the decoded private key to the bytes that are sent; the error says at which of
  them it stopped. \<open>None\<close>: the signature panics, on a key that has not 64 bytes.
\<close>

datatype checkpoint_stage = MarshalSigned | Canonicalize | MarshalFinal

definition sign_checkpoint :: "prims \<Rightarrow> bytes \<Rightarrow> protocol_message \<Rightarrow> (checkpoint_stage + string) option" where
  "sign_checkpoint P privateKey protoMsg =
     (case marshal_signed (signed_part protoMsg) of
        Inl _ \<Rightarrow> Some (Inl MarshalSigned)
      | Inr tempBytes \<Rightarrow>
          (case jcs_transform P tempBytes of
             Inl _ \<Rightarrow> Some (Inl Canonicalize)
           | Inr signedMsgBytes \<Rightarrow>
               (case SignMessage P privateKey (bytes_of_string signedMsgBytes) of
                  None \<Rightarrow> None
                | Some signature \<Rightarrow>
                    (case marshal_protocol (protoMsg\<lparr> pm_signature := signature \<rparr>) of
                       Inl _ \<Rightarrow> Some (Inl MarshalFinal)
                     | Inr finalMsgBytes \<Rightarrow> Some (Inr finalMsgBytes)))))"

text \<open>What \<^verbatim>\<open>http.Post\<close> returns: an error, or the status of the answer.\<close>

definition post_status :: "http_outcome \<Rightarrow> nat result" where
  "post_status reply =
     (case reply of RequestInvalid e \<Rightarrow> Inl e | SendFailed e \<Rightarrow> Inl e | Answered code _ \<Rightarrow> Inr code)"

subsection \<open>On demand\<close>

definition decode_request :: "string \<Rightarrow> string \<Rightarrow> string option" where
  "decode_request name body =
     (case Option.bind (json_first body) members_of of
        None \<Rightarrow> None
      | Some ms \<Rightarrow> if string_field_ok name ms then Some (string_field name [] ms) else None)"

definition decoded_or_error :: "string \<Rightarrow> http_request \<Rightarrow> string step" where
  "decoded_or_error name req =
     (case decode_request name (hr_body req) of
        None \<Rightarrow> send (decode_error req)
      | Some v \<Rightarrow> continue v)"

text \<open>A panic of a handler is caught by chi's \<^verbatim>\<open>Recoverer\<close>, which answers 500 without a body.\<close>

definition recovered :: response where
  "recovered = \<lparr> rs_status = 500, rs_content_type = [], rs_body = [] \<rparr>"

definition signed_or_error :: "prims \<Rightarrow> bytes \<Rightarrow> protocol_message \<Rightarrow> string step" where
  "signed_or_error P privateKey protoMsg =
     (case sign_checkpoint P privateKey protoMsg of
        None \<Rightarrow> send recovered
      | Some (Inl MarshalSigned) \<Rightarrow> send (respondWithError 500 ''Failed to marshal signed message for signing'')
      | Some (Inl Canonicalize) \<Rightarrow> send (respondWithError 500 ''Failed to canonicalize signed message for signing'')
      | Some (Inl MarshalFinal) \<Rightarrow> send (respondWithError 500 ''Failed to marshal final protocol message'')
      | Some (Inr finalMsgBytes) \<Rightarrow> continue finalMsgBytes)"

definition handleTriggerCheckpoint ::
  "server_env \<Rightarrow> config \<Rightarrow> request_world \<Rightarrow> network \<Rightarrow> http_request \<Rightarrow> response step" where
  "handleTriggerCheckpoint env cfg w post req =
     then_do (decoded_or_error ''to-directory'' req) (\<lambda>toDirectory.
     then_do (ensure (toDirectory \<noteq> []) (respondWithError 400 ''Missing to-directory in request'')) (\<lambda>_.
     then_do (try_or (ValidateURL (sv_url_parse env) (rw_lookup w) toDirectory (tc_allow_private_ips (cfg_test cfg)))
                (\<lambda>e. respondWithError 400 (''Invalid to-directory URL: '' @ error_text e))) (\<lambda>validatedURL.
     then_do (call_or (db_op (GetLatestMerkleRoot db_repo))
                (\<lambda>e. respondWithError 500 (''Failed to get latest merkle root: '' @ error_text e))) (\<lambda>latestRoot.
     then_do (ensure (latestRoot \<noteq> [])
                (respondWithError 400 ''No messages on server to create a checkpoint from'')) (\<lambda>_.
     let payload = marshal_checkpoint (checkpoint_payload cfg (rw_now w) latestRoot toDirectory);
         protoMsg = checkpoint_envelope payload in
     (case raw_url_decode (sc_private_key (cfg_server cfg)) of
        None \<Rightarrow> send (respondWithError 500 ''Failed to decode server private key'')
      | Some privateKey \<Rightarrow>
          then_do (signed_or_error (sv_prims env) privateKey protoMsg) (\<lambda>finalMsgBytes.
          then_do (try_or (post_status (post (pu_text validatedURL @ ''/protocol'') finalMsgBytes))
                     (\<lambda>e. respondWithError 500 (''Failed to send checkpoint to peer: '' @ error_text e))) (\<lambda>status.
          then_do (ensure (status = 200)
                     (respondWithError 502 (''Peer server responded with status '' @ decimal status))) (\<lambda>_.
          continue (respondWithJSON 200 (fields_payload
            [(''status'', ''checkpoint sent successfully''), (''to'', toDirectory)])))))))))))"

subsection \<open>On schedule\<close>

text \<open>
  One run of the timer's function: what it sends, if it gets that far (the log lines are left
  out). The outcome of the read of the latest root is an argument; an empty root is sent, where
  the administrator's endpoint refuses. What the peer answers is only logged.
\<close>

datatype trigger_outcome = NothingSent string | Sent string string | Panicked

definition triggerCheckpoint :: "prims \<Rightarrow> config \<Rightarrow> nat \<Rightarrow> string result \<Rightarrow> trigger_outcome" where
  "triggerCheckpoint P cfg now latest =
     (let target = pol_target_directory (cfg_checkpoint_policy cfg) in
      if target = [] then NothingSent ''No target directory configured for checkpoint policy.''
      else
        case latest of
          Inl e \<Rightarrow> NothingSent (''Error getting latest merkle root for checkpoint: '' @ error_text e)
        | Inr latestRoot \<Rightarrow>
            (let payload = marshal_checkpoint (checkpoint_payload cfg now latestRoot target);
                 protoMsg = checkpoint_envelope payload in
             (case std_decode (sc_private_key (cfg_server cfg)) of
                None \<Rightarrow> NothingSent (''Error decoding server private key for checkpoint: '' @ error_text base64_error)
              | Some privateKey \<Rightarrow>
                  (case sign_checkpoint P privateKey protoMsg of
                     None \<Rightarrow> Panicked
                   | Some (Inl MarshalSigned) \<Rightarrow> NothingSent ''Error marshalling signed message for checkpoint''
                   | Some (Inl Canonicalize) \<Rightarrow> NothingSent ''Error canonicalizing signed message for checkpoint''
                   | Some (Inl MarshalFinal) \<Rightarrow> NothingSent ''Error marshalling final checkpoint message''
                   | Some (Inr finalMsgBytes) \<Rightarrow> Sent (target @ ''/protocol'') finalMsgBytes))))"

lemma trigger_never_sends:
  assumes "LoadAndValidate cenv path = Some (Inr cfg)"
  shows "\<exists>message. triggerCheckpoint P cfg now latest = NothingSent message"
proof -
  have "keys_decoded cenv (cfg_server cfg)"
    using assms by (auto simp: LoadAndValidate_def split: sum.splits option.splits dest: decode_keys_sound)
  then obtain sk where "raw_url_decode (sc_private_key (cfg_server cfg)) = Some sk" "length sk = 64"
    by (auto simp: keys_decoded_def DecodeSecretKey_def split: option.splits if_splits)
  then have "std_decode (sc_private_key (cfg_server cfg)) = None"
    by (intro std_decode_rejects_unpadded) auto
  then show ?thesis
    by (simp add: triggerCheckpoint_def Let_def split: sum.split)
qed

subsection \<open>What the administrator's checkpoint does\<close>

definition checkpoint_sent ::
  "server_env \<Rightarrow> config \<Rightarrow> request_world \<Rightarrow> network \<Rightarrow> string \<Rightarrow> tables \<Rightarrow> bool" where
  "checkpoint_sent env cfg w post toDirectory t \<longleftrightarrow>
     (\<exists>url sk body reply.
        ValidateURL (sv_url_parse env) (rw_lookup w) toDirectory (tc_allow_private_ips (cfg_test cfg)) = Inr url \<and>
        latest_root t \<noteq> [] \<and> raw_url_decode (sc_private_key (cfg_server cfg)) = Some sk \<and>
        sign_checkpoint (sv_prims env) sk
          (checkpoint_envelope (marshal_checkpoint (checkpoint_payload cfg (rw_now w) (latest_root t) toDirectory))) =
          Some (Inr body) \<and>
        post (pu_text url @ ''/protocol'') body = Answered 200 reply)"

lemma decoded_step:
  assumes "\<And>r. rs_status r \<noteq> 200 \<Longrightarrow> E r st"
    and "\<And>v. decode_request name (hr_body req) = Some v \<Longrightarrow> Q v st"
  shows "yields (decoded_or_error name req) st E Q"
  using assms by (auto simp: decoded_or_error_def decode_error_def intro!: yields_send yields_continue split: option.splits)

lemma signed_or_error_step:
  assumes "\<And>r. rs_status r \<noteq> 200 \<Longrightarrow> E r st"
    and "\<And>body. sign_checkpoint P sk m = Some (Inr body) \<Longrightarrow> Q body st"
  shows "yields (signed_or_error P sk m) st E Q"
  using assms
  by (auto simp: signed_or_error_def recovered_def intro!: yields_send yields_continue
      split: option.splits sum.splits checkpoint_stage.splits)

lemma post_status_ok: "post_status reply = Inr 200 \<longleftrightarrow> (\<exists>body. reply = Answered 200 body)"
  by (auto simp: post_status_def split: http_outcome.splits)

lemma trigger_checkpoint_effect:
  assumes "ready st" "answer (handleTriggerCheckpoint env cfg w post req) st = (r, st')"
  shows "same st st' \<and> (rs_status r = 200 \<longrightarrow>
    (\<exists>to. decode_request ''to-directory'' (hr_body req) = Some to \<and> checkpoint_sent env cfg w post to (tables_of st)))"
proof (rule answer_yields [OF _ assms(2)])
  let ?E = "\<lambda>r st'. same st st' \<and> (rs_status r = 200 \<longrightarrow>
    (\<exists>to. decode_request ''to-directory'' (hr_body req) = Some to \<and> checkpoint_sent env cfg w post to (tables_of st)))"
  have bad: "?E r st1" if "rs_status r \<noteq> 200" "same st st1" for r st1 using that by simp
  have good: "?E r st1" if "same st st1" "decode_request ''to-directory'' (hr_body req) = Some to"
    "checkpoint_sent env cfg w post to (tables_of st)" for r st1 to using that by blast
  note start = same_refl [OF assms(1)]
  show "yields (handleTriggerCheckpoint env cfg w post req) st ?E ?E"
    unfolding handleTriggerCheckpoint_def Let_def
  proof (rule yields_then, rule decoded_step, (rule bad [OF _ start], assumption)[1],
      rule yields_then, rule yields_ensure, (rule bad [OF _ start], simp)[1],
      rule yields_then, rule yields_try, (rule bad [OF _ start], simp)[1],
      rule yields_then, rule yields_read [OF db.get_latest_root assms(1)])
    fix e st1
    assume "ready st1" "tables_of st1 = tables_of st" "ss_log st1 = ss_log st"
    then show "?E (respondWithError 500 (''Failed to get latest merkle root: '' @ error_text e)) st1"
      by (intro bad) (simp_all add: same_def)
  next
    fix to url st1
    assume to: "decode_request ''to-directory'' (hr_body req) = Some to"
      and url: "ValidateURL (sv_url_parse env) (rw_lookup w) to (tc_allow_private_ips (cfg_test cfg)) = Inr url"
      and s: "ready st1" "tables_of st1 = tables_of st" "ss_log st1 = ss_log st"
    have st1: "same st st1" using s by (simp add: same_def)
    let ?m = "checkpoint_envelope (marshal_checkpoint (checkpoint_payload cfg (rw_now w) (latest_root (tables_of st)) to))"
    have tail: "yields (then_do (signed_or_error (sv_prims env) sk ?m) (\<lambda>finalMsgBytes.
          then_do (try_or (post_status (post (pu_text url @ ''/protocol'') finalMsgBytes))
                     (\<lambda>e. respondWithError 500 (''Failed to send checkpoint to peer: '' @ error_text e))) (\<lambda>status.
          then_do (ensure (status = 200)
                     (respondWithError 502 (''Peer server responded with status '' @ decimal status))) (\<lambda>_.
          continue (respondWithJSON 200 (fields_payload
            [(''status'', ''checkpoint sent successfully''), (''to'', to)])))))) st1 ?E ?E"
      if "latest_root (tables_of st) \<noteq> []" "raw_url_decode (sc_private_key (cfg_server cfg)) = Some sk" for sk
    proof (rule yields_then, rule signed_or_error_step, (rule bad [OF _ st1], assumption)[1],
        rule yields_then, rule yields_try, (rule bad [OF _ st1], simp)[1],
        rule yields_then, rule yields_ensure, (rule bad [OF _ st1], simp)[1], rule yields_continue,
        rule good [OF st1 to])
      fix body status
      assume "sign_checkpoint (sv_prims env) sk ?m = Some (Inr body)"
        "post_status (post (pu_text url @ ''/protocol'') body) = Inr status" "status = 200"
      with that url show "checkpoint_sent env cfg w post to (tables_of st)"
        unfolding checkpoint_sent_def by (auto simp: post_status_ok)
    qed
    show "yields (then_do (ensure (latest_root (tables_of st) \<noteq> [])
                (respondWithError 400 ''No messages on server to create a checkpoint from'')) (\<lambda>_.
     (case raw_url_decode (sc_private_key (cfg_server cfg)) of
        None \<Rightarrow> send (respondWithError 500 ''Failed to decode server private key'')
      | Some privateKey \<Rightarrow>
          then_do (signed_or_error (sv_prims env) privateKey ?m) (\<lambda>finalMsgBytes.
          then_do (try_or (post_status (post (pu_text url @ ''/protocol'') finalMsgBytes))
                     (\<lambda>e. respondWithError 500 (''Failed to send checkpoint to peer: '' @ error_text e))) (\<lambda>status.
          then_do (ensure (status = 200)
                     (respondWithError 502 (''Peer server responded with status '' @ decimal status))) (\<lambda>_.
          continue (respondWithJSON 200 (fields_payload
            [(''status'', ''checkpoint sent successfully''), (''to'', to)])))))))) st1 ?E ?E"
    proof (rule yields_then, rule yields_ensure, (rule bad [OF _ st1], simp)[1])
      assume root: "latest_root (tables_of st) \<noteq> []"
      show "yields (case raw_url_decode (sc_private_key (cfg_server cfg)) of
          None \<Rightarrow> send (respondWithError 500 ''Failed to decode server private key'')
        | Some privateKey \<Rightarrow>
            then_do (signed_or_error (sv_prims env) privateKey ?m) (\<lambda>finalMsgBytes.
            then_do (try_or (post_status (post (pu_text url @ ''/protocol'') finalMsgBytes))
                       (\<lambda>e. respondWithError 500 (''Failed to send checkpoint to peer: '' @ error_text e))) (\<lambda>status.
            then_do (ensure (status = 200)
                       (respondWithError 502 (''Peer server responded with status '' @ decimal status))) (\<lambda>_.
            continue (respondWithJSON 200 (fields_payload
              [(''status'', ''checkpoint sent successfully''), (''to'', to)])))))) st1 ?E ?E"
        using tail [OF root] st1
        by (auto intro!: yields_send split: option.split)
    qed
  qed
qed


end
