(* ===== verification/Routes.thy ===== *)
theory Routes
  imports Auth Checkpoints Guarantees
begin

section \<open>The routes\<close>

text \<open>
  \<^verbatim>\<open>internal/api/server.go\<close>: the read-only REST handlers, the table of routes that
  \<^verbatim>\<open>NewRouter\<close> registers, and one request through it; and the administrator's
  \<^verbatim>\<open>handleCryptoShred\<close>. Which of the registered patterns a path matches, and with which
  parameters, is chi's: the field \<open>ro_match\<close>.
\<close>

subsection \<open>Path parameters\<close>

text \<open>\<^verbatim>\<open>url.PathUnescape\<close>.\<close>

fun PathUnescape :: "string \<Rightarrow> string option" where
  "PathUnescape [] = Some []"
| "PathUnescape (c # s) =
     (if c = CHR ''%''
      then (case s of
              a # b # r \<Rightarrow>
                (case (hex_value a, hex_value b) of
                   (Some x, Some y) \<Rightarrow> map_option ((#) (char_of (16 * x + y))) (PathUnescape r)
                 | _ \<Rightarrow> None)
            | _ \<Rightarrow> None)
      else map_option ((#) c) (PathUnescape s))"

subsection \<open>The handlers\<close>

definition handleGetActorInfo :: "string \<Rightarrow> response step" where
  "handleGetActorInfo param =
     (case PathUnescape param of
        None \<Rightarrow> send (respondWithError 400 ''Invalid actor ID'')
      | Some actorID \<Rightarrow>
          then_do (call_or (db_op (FindActorByActorID db_repo actorID))
                     (\<lambda>_. respondWithError 500 ''Failed to retrieve actor information'')) (\<lambda>found.
          (case found of
             None \<Rightarrow> send (respondWithError 404 ''Actor not found'')
           | Some actor \<Rightarrow> continue (respondWithJSON 200 (Inr (marshal_actor actor))))))"

definition handleGetActorKeys :: "string \<Rightarrow> response step" where
  "handleGetActorKeys actorID =
     then_do (call_or (db_op (ListKeysForActor db_repo actorID))
                (\<lambda>_. respondWithError 500 ''Failed to retrieve actor keys'')) (\<lambda>keys.
     continue (respondWithJSON 200 (Inr (json_slice marshal_public_key keys))))"

definition handleGetKeyInfo :: "string \<Rightarrow> response step" where
  "handleGetKeyInfo keyID =
     then_do (call_or (db_op (FindKeyByKeyID db_repo keyID))
                (\<lambda>_. respondWithError 500 ''Failed to retrieve key information'')) (\<lambda>found.
     (case found of
        None \<Rightarrow> send (respondWithError 404 ''Key not found'')
      | Some key \<Rightarrow> continue (respondWithJSON 200 (Inr (marshal_public_key key)))))"

definition handleGetActorAuxiliary :: "string \<Rightarrow> response step" where
  "handleGetActorAuxiliary actorID =
     then_do (call_or (db_op (ListAuxDataForActor db_repo actorID))
                (\<lambda>_. respondWithError 500 ''Failed to retrieve auxiliary data'')) (\<lambda>auxData.
     continue (respondWithJSON 200 (Inr (json_slice marshal_auxiliary_data auxData))))"

definition handleGetAuxiliaryDataInfo :: "string \<Rightarrow> response step" where
  "handleGetAuxiliaryDataInfo auxDataID =
     then_do (call_or (db_op (FindAuxDataByAuxID db_repo auxDataID))
                (\<lambda>_. respondWithError 500 ''Failed to retrieve auxiliary data information'')) (\<lambda>found.
     (case found of
        None \<Rightarrow> send (respondWithError 404 ''Auxiliary data not found'')
      | Some auxData \<Rightarrow> continue (respondWithJSON 200 (Inr (marshal_auxiliary_data auxData)))))"

text \<open>
  The public key is a value of a third-party type: \<open>public\<close> is what \<^verbatim>\<open>json.Marshal\<close> makes of it.
  \<open>peers\<close> are the keys of the peer map in the order of the iteration, which Go leaves open.
\<close>

definition handleWellKnownPKD :: "string result \<Rightarrow> string list \<Rightarrow> response step" where
  "handleWellKnownPKD public peers =
     continue (respondWithJSON 200
       (map_sum id (\<lambda>key. json_object [(''peers'', json_slice json_string peers), (''server-public-key'', key)]) public))"

definition handleGetServerPublicKey :: "string result \<Rightarrow> response step" where
  "handleGetServerPublicKey public =
     continue (respondWithJSON 200 (map_sum id (\<lambda>key. json_object [(''public_key'', key)]) public))"

definition handleGetExtensions :: "response step" where
  "handleGetExtensions = continue (respondWithJSON 200 (Inr (json_slice json_string [ExtensionURNOLM])))"

definition handleGetReplicas :: "string list \<Rightarrow> response step" where
  "handleGetReplicas replicas = continue (respondWithJSON 200 (Inr (json_slice json_string replicas)))"

text \<open>The handlers without a body: \<^verbatim>\<open>net/http\<close> sends an empty answer with the status 200.\<close>

definition placeholder :: "response step" where
  "placeholder = continue \<lparr> rs_status = 200, rs_content_type = [], rs_body = [] \<rparr>"

text \<open>An actor who does not exist has nothing to shred, which is no error.\<close>

definition shred_or_error :: "nat \<Rightarrow> string \<Rightarrow> unit step" where
  "shred_or_error unixNano actorID st =
     (case db_op (CryptoShred db_repo unixNano actorID) st of
        (Inl e, st') \<Rightarrow>
          (if \<not> error_is e ErrActorNotFound
           then Inl (respondWithError 500 (''Failed to crypto-shred actor: '' @ error_text e)) else Inr (), st')
      | (Inr _, st') \<Rightarrow> (Inr (), st'))"

definition handleCryptoShred :: "nat \<Rightarrow> http_request \<Rightarrow> response step" where
  "handleCryptoShred unixNano req =
     then_do (decoded_or_error ''actor-id'' req) (\<lambda>actorID.
     then_do (ensure (actorID \<noteq> []) (respondWithError 400 ''Missing actor-id in request'')) (\<lambda>_.
     then_do (shred_or_error unixNano actorID) (\<lambda>_.
     continue (respondWithJSON 200 (fields_payload
       [(''status'', ''crypto-shredding completed''), (''actor-id'', actorID)])))))"

subsection \<open>The router\<close>

datatype endpoint =
  ActorInfo | ActorKeys | KeyInfo | ActorAuxiliary | AuxiliaryDataInfo | History | HistorySince |
  HistoryView | Extensions | Replicas | ServerPublicKey | Revoke | TotpEnroll | TotpDisenroll |
  TotpRotate | Replica | ProtocolMessage | TriggerCheckpoint | ShredActor | WellKnownPKD

definition routes :: "((string \<times> string) \<times> endpoint) list" where
  "routes =
     [((''GET'', ''/api/actor/{actorID}''), ActorInfo),
      ((''GET'', ''/api/actor/{actorID}/keys''), ActorKeys),
      ((''GET'', ''/api/actor/{actorID}/key/{keyID}''), KeyInfo),
      ((''GET'', ''/api/actor/{actorID}/auxiliary''), ActorAuxiliary),
      ((''GET'', ''/api/actor/{actorID}/auxiliary/{auxDataID}''), AuxiliaryDataInfo),
      ((''GET'', ''/api/history''), History),
      ((''GET'', ''/api/history/since/{lastHash}''), HistorySince),
      ((''GET'', ''/api/history/view/{hash}''), HistoryView),
      ((''GET'', ''/api/extensions''), Extensions),
      ((''GET'', ''/api/replicas''), Replicas),
      ((''GET'', ''/api/server-public-key''), ServerPublicKey),
      ((''POST'', ''/api/revoke''), Revoke),
      ((''POST'', ''/api/totp/enroll''), TotpEnroll),
      ((''POST'', ''/api/totp/disenroll''), TotpDisenroll),
      ((''POST'', ''/api/totp/rotate''), TotpRotate),
      ((''GET'', ''/api/replica/{replicaID}/*''), Replica),
      ((''POST'', ''/protocol''), ProtocolMessage),
      ((''POST'', ''/admin/checkpoint''), TriggerCheckpoint),
      ((''POST'', ''/admin/crypto-shred''), ShredActor),
      ((''GET'', ''/.well-known/pkd''), WellKnownPKD)]"

definition behind_auth :: "endpoint \<Rightarrow> bool" where
  "behind_auth e \<longleftrightarrow> e = TriggerCheckpoint \<or> e = ShredActor"

text \<open>
  What \<^verbatim>\<open>NewRouter\<close> is given, and what it makes of it: the server of the protocol endpoint, from
  the configuration and the libraries, and the token service. It ends the process (\<open>Inl\<close>) if there
  is no key file and none can be written.
\<close>

record router =
  ro_env :: server_env
  ro_config :: config
  ro_token_prims :: token_prims
  ro_tokens :: token_service
  ro_public_key_json :: "string result"
  ro_match :: "string \<Rightarrow> string \<Rightarrow> (string \<times> (string \<Rightarrow> string)) option"
  ro_unmatched :: "http_request \<Rightarrow> response"

definition router_env ::
  "prims \<Rightarrow> enc_prims \<Rightarrow> aux_registry \<Rightarrow> (string \<Rightarrow> parsed_url result) \<Rightarrow> config \<Rightarrow> server_env" where
  "router_env P E reg parse cfg =
     \<lparr> sv_prims = P, sv_enc = E, sv_registry = reg,
       sv_peers = map (\<lambda>(u, p). (u, pc_public_key p)) (cfg_peers cfg),
       sv_hpke_private = sc_hpke_private_key (cfg_server cfg),
       sv_allow_private_ips = tc_allow_private_ips (cfg_test cfg), sv_url_parse = parse \<rparr>"

definition NewRouter ::
  "token_prims \<Rightarrow> bytes \<Rightarrow> int \<Rightarrow> server_env \<Rightarrow> config \<Rightarrow> string result \<Rightarrow>
   (string \<Rightarrow> string \<Rightarrow> (string \<times> (string \<Rightarrow> string)) option) \<Rightarrow> (http_request \<Rightarrow> response) \<Rightarrow> (files, router) op" where
  "NewRouter T rand zone env cfg public match unmatched =
     bind_op (NewFileKeyManager T rand (file_key_manager cfg (kf_password (sc_key_file (cfg_server cfg))))) (\<lambda>keyManager.
     return_op
       \<lparr> ro_env = env, ro_config = cfg, ro_token_prims = T,
         ro_tokens = NewPasetoTokenService keyManager cfg zone,
         ro_public_key_json = public, ro_match = match, ro_unmatched = unmatched \<rparr>)"

subsection \<open>One request\<close>

record process_state =
  pr_server :: server_state
  pr_files :: files

record inputs =
  in_world :: request_world
  in_admin :: admin_world
  in_post :: network
  in_unix_nano :: nat
  in_peer_order :: "string list \<Rightarrow> string list"

definition endpoint_handler ::
  "router \<Rightarrow> inputs \<Rightarrow> http_request \<Rightarrow> (string \<Rightarrow> string) \<Rightarrow> endpoint \<Rightarrow> response step" where
  "endpoint_handler R i req param e =
     (let peers = in_peer_order i (map fst (sv_peers (ro_env R))) in
      case e of
        ActorInfo \<Rightarrow> handleGetActorInfo (param ''actorID'')
      | ActorKeys \<Rightarrow> handleGetActorKeys (param ''actorID'')
      | KeyInfo \<Rightarrow> handleGetKeyInfo (param ''keyID'')
      | ActorAuxiliary \<Rightarrow> handleGetActorAuxiliary (param ''actorID'')
      | AuxiliaryDataInfo \<Rightarrow> handleGetAuxiliaryDataInfo (param ''auxDataID'')
      | Extensions \<Rightarrow> handleGetExtensions
      | Replicas \<Rightarrow> handleGetReplicas peers
      | ServerPublicKey \<Rightarrow> handleGetServerPublicKey (ro_public_key_json R)
      | WellKnownPKD \<Rightarrow> handleWellKnownPKD (ro_public_key_json R) peers
      | ProtocolMessage \<Rightarrow> handleProtocolMessage (ro_env R) (in_world i) req
      | TriggerCheckpoint \<Rightarrow> handleTriggerCheckpoint (ro_env R) (ro_config R) (in_world i) (in_post i) req
      | ShredActor \<Rightarrow> handleCryptoShred (in_unix_nano i) req
      | _ \<Rightarrow> placeholder)"

definition guarded ::
  "router \<Rightarrow> inputs \<Rightarrow> http_request \<Rightarrow> endpoint \<Rightarrow> files \<Rightarrow> response option \<times> files" where
  "guarded R i req e fs =
     (if \<not> behind_auth e then (None, fs)
      else
        (case authMiddleware (ro_token_prims R) (ro_config R) (ro_tokens R) (in_admin i) req fs of
           (Inl r, fs') \<Rightarrow> (Some r, fs')
         | (Inr _, fs') \<Rightarrow> (None, fs')))"

definition serve :: "router \<Rightarrow> inputs \<Rightarrow> http_request \<Rightarrow> process_state \<Rightarrow> response \<times> process_state" where
  "serve R i req ps =
     (case ro_match R (hr_method req) (hr_path req) of
        None \<Rightarrow> (ro_unmatched R req, ps)
      | Some (pattern, param) \<Rightarrow>
          (case map_of routes (hr_method req, pattern) of
             None \<Rightarrow> (ro_unmatched R req, ps)
           | Some e \<Rightarrow>
               (case guarded R i req e (pr_files ps) of
                  (Some r, fs') \<Rightarrow> (r, ps\<lparr> pr_files := fs' \<rparr>)
                | (None, fs') \<Rightarrow>
                    (case answer (endpoint_handler R i req param e) (pr_server ps) of
                       (r, st') \<Rightarrow> (r, \<lparr> pr_server = st', pr_files = fs' \<rparr>)))))"

end
