(* ===== verification/Server.thy ===== *)
theory Server
  imports Routes
begin

section \<open>The whole server\<close>

text \<open>
  What one request through the router can do, on any route: the read-only routes against what
  they should answer, who may change the tables, and the invariants of every state the process
  can be in between requests.
\<close>

subsection \<open>Handlers that only read\<close>

definition silent :: "response step \<Rightarrow> bool" where
  "silent h \<longleftrightarrow> (\<forall>st. ready st \<longrightarrow> yields h st (\<lambda>_. same st) (\<lambda>_. same st))"

lemma same_trans: "same st st1 \<Longrightarrow> same st1 st2 \<Longrightarrow> same st st2"
  by (simp add: same_def)

lemma yields_weaken:
  "yields f st E Q \<Longrightarrow> (\<And>r st'. E r st' \<Longrightarrow> E' r st') \<Longrightarrow> (\<And>x st'. Q x st' \<Longrightarrow> Q' x st') \<Longrightarrow> yields f st E' Q'"
  by (auto simp: yields_def split: prod.splits sum.splits)

lemma silent_done: "silent (send r)" "silent (continue r)"
  by (simp_all add: silent_def yields_send yields_continue same_refl)

lemma silent_read:
  assumes f: "conn_ok db_good db_committed db_pending (query_spec q) f" and g: "\<And>x. silent (g x)"
  shows "silent (then_do (call_or (db_op f) respond) g)"
  unfolding silent_def
proof (intro allI impI, rule yields_then, rule yields_read [OF f])
  fix st st1
  assume s: "ready st1" "tables_of st1 = tables_of st" "ss_log st1 = ss_log st"
  then have "yields (g (q (tables_of st))) st1 (\<lambda>_. same st1) (\<lambda>_. same st1)"
    using g by (simp add: silent_def)
  then show "yields (g (q (tables_of st))) st1 (\<lambda>_. same st) (\<lambda>_. same st)"
    by (rule yields_weaken) (use s in \<open>auto simp: same_def\<close>)
qed (simp_all add: same_def)

lemma silent_answer: "silent h \<Longrightarrow> ready st \<Longrightarrow> answer h st = (r, st') \<Longrightarrow> same st st'"
  using answer_yields [of h st "\<lambda>_. same st" r st'] by (simp add: silent_def)

lemma handlers_silent:
  "silent (handleGetActorInfo p)" "silent (handleGetActorKeys p)" "silent (handleGetKeyInfo p)"
  "silent (handleGetActorAuxiliary p)" "silent (handleGetAuxiliaryDataInfo p)"
  "silent (handleWellKnownPKD k ps)" "silent (handleGetServerPublicKey k)" "silent handleGetExtensions"
  "silent (handleGetReplicas ps)" "silent placeholder"
  by (auto simp: handleGetActorInfo_def handleGetActorKeys_def handleGetKeyInfo_def handleGetActorAuxiliary_def
      handleGetAuxiliaryDataInfo_def handleWellKnownPKD_def handleGetServerPublicKey_def handleGetExtensions_def
      handleGetReplicas_def placeholder_def
      intro!: silent_done silent_read db.find_actor_by_actor_id db.list_keys db.find_key_by_key_id db.list_aux
        db.find_aux_by_aux_id split: option.split)

subsection \<open>What the read-only routes answer\<close>

text \<open>The document a route stands for, if there is one.\<close>

fun rest_document :: "endpoint \<Rightarrow> (string \<Rightarrow> string) \<Rightarrow> tables \<Rightarrow> string option" where
  "rest_document ActorInfo p t =
     Option.bind (PathUnescape (p ''actorID'')) (\<lambda>a. map_option marshal_actor (find_actor a t))"
| "rest_document ActorKeys p t = Some (json_slice marshal_public_key (active_keys (p ''actorID'') t))"
| "rest_document KeyInfo p t = map_option marshal_public_key (key_by_id (p ''keyID'') t)"
| "rest_document ActorAuxiliary p t = Some (json_slice marshal_auxiliary_data (active_aux (p ''actorID'') t))"
| "rest_document AuxiliaryDataInfo p t = map_option marshal_auxiliary_data (aux_by_id (p ''auxDataID'') t)"
| "rest_document _ p t = None"

definition rest_answer :: "string option \<Rightarrow> server_state \<Rightarrow> response \<Rightarrow> server_state \<Rightarrow> bool" where
  "rest_answer doc st r st' \<longleftrightarrow>
     same st st' \<and> rs_status r \<in> {200, 400, 404, 500} \<and>
     (rs_status r = 200 \<longrightarrow> doc = Some (rs_body r)) \<and> (rs_status r \<in> {400, 404} \<longrightarrow> doc = None)"

lemma rest_read:
  assumes f: "conn_ok db_good db_committed db_pending (query_spec q) f" and st: "ready st"
    and g: "\<And>st1. same st st1 \<Longrightarrow> yields (g (q (tables_of st))) st1 (rest_answer doc st) (rest_answer doc st)"
  shows "yields (then_do (call_or (db_op f) (\<lambda>_. respondWithError 500 m)) g) st (rest_answer doc st) (rest_answer doc st)"
  by (rule yields_then, rule yields_read [OF f st])
    (auto simp: rest_answer_def same_def intro!: g)

lemma respondWithJSON_Inr: "rs_status (respondWithJSON code (Inr b)) = code" "rs_body (respondWithJSON code (Inr b)) = b"
  by (simp_all add: respondWithJSON_def)


subsection \<open>Crypto-shredding\<close>

definition shredded :: "string \<Rightarrow> server_state \<Rightarrow> server_state \<Rightarrow> bool" where
  "shredded actorID st st' \<longleftrightarrow>
     ready st' \<and> ss_log st' = ss_log st \<and>
     (\<exists>root. burn_spec actorID root (tables_of st) () (tables_of st'))"

lemma shred_step:
  assumes st: "ready st"
    and E: "\<And>m st'. same st st' \<Longrightarrow> E (respondWithError 500 m) st'"
    and Q: "\<And>st'. same st st' \<or> shredded a st st' \<Longrightarrow> Q () st'"
  shows "yields (shred_or_error nano a) st E Q"
proof -
  have "yields (call_or (db_op (CryptoShred db_repo nano a)) (\<lambda>e. respondWithError 500 []))
      st (\<lambda>_ st'. same st st') (\<lambda>_ st'. shredded a st st')"
    unfolding CryptoShred_def
    by (rule yields_db [OF db.burn_down_ok st]) (auto simp: same_def shredded_def)
  then show ?thesis
    using E Q by (auto simp: yields_def shred_or_error_def call_or_def split: prod.splits sum.splits)
qed

lemma crypto_shred_outcome:
  assumes "ready st" "answer (handleCryptoShred nano req) st = (r, st')"
  shows "same st st' \<or> rs_status r = 200 \<and>
    (\<exists>a. decode_request ''actor-id'' (hr_body req) = Some a \<and> shredded a st st')"
proof (rule answer_yields [OF _ assms(2)])
  let ?P = "\<lambda>r st'. same st st' \<or> rs_status r = 200 \<and>
    (\<exists>a. decode_request ''actor-id'' (hr_body req) = Some a \<and> shredded a st st')"
  show "yields (handleCryptoShred nano req) st ?P ?P"
    unfolding handleCryptoShred_def
    by (rule yields_then, rule decoded_step, rule disjI1, rule same_refl [OF assms(1)],
        rule yields_then, rule yields_ensure, rule disjI1, rule same_refl [OF assms(1)],
        rule yields_then, rule shred_step [OF assms(1)]) (auto intro!: yields_continue)
qed

subsection \<open>One request, on any route\<close>

text \<open>The route a request takes, and the parameters of its path.\<close>

definition routed :: "router \<Rightarrow> http_request \<Rightarrow> (endpoint \<times> (string \<Rightarrow> string)) option" where
  "routed R req =
     Option.bind (ro_match R (hr_method req) (hr_path req)) (\<lambda>(pattern, param).
     map_option (\<lambda>e. (e, param)) (map_of routes (hr_method req, pattern)))"

lemma serve_routed:
  "serve R i req ps =
     (case routed R req of
        None \<Rightarrow> (ro_unmatched R req, ps)
      | Some (e, param) \<Rightarrow>
          (case guarded R i req e (pr_files ps) of
             (Some r, fs') \<Rightarrow> (r, ps\<lparr> pr_files := fs' \<rparr>)
           | (None, fs') \<Rightarrow>
               (case answer (endpoint_handler R i req param e) (pr_server ps) of
                  (r, st') \<Rightarrow> (r, \<lparr> pr_server = st', pr_files = fs' \<rparr>))))"
  by (auto simp: serve_def routed_def split: option.split)

lemma get_routes:
  "list_all (\<lambda>((m, p), e). m = ''GET'' \<longrightarrow> e \<noteq> ProtocolMessage \<and> e \<noteq> TriggerCheckpoint \<and> e \<noteq> ShredActor) routes"
  by (simp add: routes_def)

lemma routed_method: "routed R req = Some (e, param) \<Longrightarrow> hr_method req = ''GET'' \<Longrightarrow>
  e \<noteq> ProtocolMessage \<and> e \<noteq> TriggerCheckpoint \<and> e \<noteq> ShredActor"
  using get_routes by (fastforce simp: routed_def list_all_iff bind_eq_Some_conv dest: map_of_SomeD)

definition admin_passed :: "router \<Rightarrow> inputs \<Rightarrow> http_request \<Rightarrow> files \<Rightarrow> bool" where
  "admin_passed R i req fs \<longleftrightarrow>
     (\<exists>token. bearer_token req = Inr token \<and>
        admin_token (ro_token_prims R) fs (service_for (ro_config R) (ro_tokens R) req) (aw_now_ns (in_admin i)) token)"

lemma guarded_passes: "guarded R i req e fs = (None, fs') \<Longrightarrow> behind_auth e \<Longrightarrow> admin_passed R i req fs'"
  by (auto simp: guarded_def admin_passed_def split: prod.splits sum.splits dest: authMiddleware_passes)

text \<open>A silent request leaves tables and log; a request that is not silent is a message, or a shredding.\<close>

lemma endpoint_cases:
  assumes "ready st" "answer (endpoint_handler R i req param e) st = (r, st')"
  obtains "same st st'"
  | "e = ProtocolMessage" "post_protocol (ro_env R) (in_world i) req st = (r, st')"
  | a where "e = ShredActor" "rs_status r = 200" "decode_request ''actor-id'' (hr_body req) = Some a" "shredded a st st'"
proof (cases "e \<in> {ProtocolMessage, TriggerCheckpoint, ShredActor}")
  case False
  then have "silent (endpoint_handler R i req param e)"
    by (cases e) (simp_all add: endpoint_handler_def Let_def handlers_silent)
  then show ?thesis using that(1) silent_answer assms by blast
next
  case True
  then consider "e = ProtocolMessage" | "e = TriggerCheckpoint" | "e = ShredActor" by blast
  then show ?thesis
  proof cases
    case 1
    then show ?thesis using that(2) assms(2) by (simp add: endpoint_handler_def post_protocol_def Let_def)
  next
    case 2
    then have "answer (handleTriggerCheckpoint (ro_env R) (ro_config R) (in_world i) (in_post i) req) st = (r, st')"
      using assms(2) by (simp add: endpoint_handler_def Let_def)
    then show ?thesis using that(1) trigger_checkpoint_effect [OF assms(1)] by blast
  next
    case 3
    then have "answer (handleCryptoShred (in_unix_nano i) req) st = (r, st')"
      using assms(2) by (simp add: endpoint_handler_def Let_def)
    then show ?thesis using that(1,3) 3 crypto_shred_outcome [OF assms(1)] by blast
  qed
qed

lemma serve_cases:
  assumes st: "ready (pr_server ps)" and s: "serve R i req ps = (r, ps')"
  obtains "same (pr_server ps) (pr_server ps')"
  | param where "routed R req = Some (ProtocolMessage, param)" "pr_files ps' = pr_files ps"
      "post_protocol (ro_env R) (in_world i) req (pr_server ps) = (r, pr_server ps')"
  | param a where "routed R req = Some (ShredActor, param)" "admin_passed R i req (pr_files ps')" "rs_status r = 200"
      "decode_request ''actor-id'' (hr_body req) = Some a" "shredded a (pr_server ps) (pr_server ps')"
proof (cases "routed R req")
  case None
  then show ?thesis using that(1) s same_refl [OF st] by (simp add: serve_routed)
next
  case (Some ep)
  obtain e param where ep: "ep = (e, param)" by (cases ep)
  obtain d fs' where g: "guarded R i req e (pr_files ps) = (d, fs')" by (cases "guarded R i req e (pr_files ps)")
  show ?thesis
  proof (cases d)
    case (Some r')
    with \<open>routed R req = Some ep\<close> ep g s have "pr_server ps' = pr_server ps" by (auto simp: serve_routed)
    then show ?thesis using that(1) same_refl [OF st] by simp
  next
    case None
    with \<open>routed R req = Some ep\<close> ep g s
    have h: "answer (endpoint_handler R i req param e) (pr_server ps) = (r, pr_server ps')" "pr_files ps' = fs'"
      by (auto simp: serve_routed split: prod.splits)
    from st h(1) show ?thesis
    proof (cases rule: endpoint_cases)
      case 1 then show ?thesis by (rule that(1))
    next
      case 2
      then have "pr_files ps' = pr_files ps" using g h(2) None by (simp add: guarded_def behind_auth_def)
      with 2 show ?thesis using that(2) \<open>routed R req = Some ep\<close> ep by blast
    next
      case (3 a)
      then have "admin_passed R i req (pr_files ps')"
        using guarded_passes [OF g [unfolded None]] h(2) by (simp add: behind_auth_def)
      with 3 show ?thesis using that(3) \<open>routed R req = Some ep\<close> ep by blast
    qed
  qed
qed

text \<open>C25. The tables change only through the protocol endpoint, or by an administrator: a request on any
  route that leaves other tables behind is a message that \<open>post_protocol\<close> processed, or it shredded one
  actor's data, answered with 200, with an unexpired access token of the administrator.\<close>

theorem tables_change_only_by:
  assumes "ready (pr_server ps)" "serve R i req ps = (r, ps')"
    and "tables_of (pr_server ps') \<noteq> tables_of (pr_server ps)"
  shows "hr_method req \<noteq> ''GET'' \<and>
    (post_protocol (ro_env R) (in_world i) req (pr_server ps) = (r, pr_server ps') \<or>
     admin_passed R i req (pr_files ps') \<and> rs_status r = 200 \<and>
       (\<exists>a root. decode_request ''actor-id'' (hr_body req) = Some a \<and>
          burn_spec a root (tables_of (pr_server ps)) () (tables_of (pr_server ps'))))"
  using assms(1,2)
proof (cases rule: serve_cases)
  case 1
  with assms(3) show ?thesis by (simp add: same_def)
next
  case (2 param)
  then show ?thesis using routed_method [of R req] by blast
next
  case (3 param a)
  then show ?thesis using routed_method [of R req] by (auto simp: shredded_def)
qed

subsection \<open>Every state in between requests\<close>

text \<open>
  From a freshly opened database of either kind, with any files, by any requests on any routes, under
  any faults of the driver.
\<close>

inductive serving :: "router \<Rightarrow> process_state \<Rightarrow> bool" for R where
  start: "fresh_start (pr_server ps) \<Longrightarrow> serving R ps"
| request: "serving R ps \<Longrightarrow> serve R i req ps = (r, ps') \<Longrightarrow> serving R ps'"

lemma shredded_records: "shredded a st st' \<Longrightarrow> key_records (tables_of st') = key_records (tables_of st)"
  using key_records_cong [OF forget_frame(2)] by (auto simp: shredded_def burn_spec_def key_records_revoke)

lemma serving_invariant: "serving R ps \<Longrightarrow> ready (pr_server ps) \<and> keys_vouched (pr_server ps)"
proof (induction rule: serving.induct)
  case (start ps)
  from fresh_start_ready [OF start.hyps] fresh_start_vouched [OF start.hyps] show ?case
    by (simp add: keys_vouched_def)
next
  case (request ps i req r ps')
  then have st: "ready (pr_server ps)" and inv: "keys_vouched (pr_server ps)" by simp_all
  from st request.hyps(2) show ?case
  proof (cases rule: serve_cases)
    case 1
    with inv show ?thesis by (auto simp: same_def keys_vouched_def in_log_def)
  next
    case (2 param)
    then show ?thesis
      using post_keys_vouched [OF st inv] post_cases [OF st] by (metis accepted_ready refused_def)
  next
    case (3 param a)
    then show ?thesis
      using keys_vouched_mono [OF inv, of "pr_server ps'" "[]"] shredded_records by (auto simp: shredded_def)
  qed
qed

text \<open>C3. Transparency: in every state the server can be in between requests, each row of the key table,
  active or revoked, is vouched for by the log. The log has acknowledged an AddKey message for that very
  key, under the root the row carries.\<close>

theorem keys_are_logged:
  assumes "serving R ps" "k \<in> set (public_keys (tables_of (pr_server ps)))"
  shows "in_log (pk_public_key k, pk_merkle_root k) (pr_server ps)"
  using serving_invariant [OF assms(1)] assms(2)
  by (auto simp: keys_vouched_def list_all_iff key_records_def)

text \<open>C29. In every state in between requests the constraints of the schema hold and no transaction is open.\<close>

theorem serving_well_formed:
  assumes "serving R ps"
  shows "wf_tables (tables_of (pr_server ps)) \<and> db_pending (ss_db (pr_server ps)) = None"
  using serving_invariant [OF assms] by (simp add: ready_def tables_of_def db_good_wf)

subsection \<open>A configuration that shuts the administrator out\<close>

lemma NewFileKeyManager_path: "NewFileKeyManager T rand km fs = (Inr km', fs') \<Longrightarrow> km_path km \<noteq> []"
  by (auto simp: NewFileKeyManager_def os_Stat_def generateAndSaveKey_def os_WriteFile_def op_defs Let_def
      split: option.splits sum.splits prod.splits if_splits)

lemma NewRouter_fields:
  assumes "NewRouter T rand zone env cfg public match unmatched fs0 = (Inr R, fs)"
  shows "ro_token_prims R = T" "ro_config R = cfg"
    "km_path (ts_key_manager (ro_tokens R)) = kf_path (sc_key_file (cfg_server cfg))"
    "kf_path (sc_key_file (cfg_server cfg)) \<noteq> []"
  using assms NewFileKeyManager_path [of T rand "file_key_manager cfg (kf_password (sc_key_file (cfg_server cfg)))" fs0]
  by (auto simp: NewRouter_def NewPasetoTokenService_def file_key_manager_def op_defs Let_def
      split: prod.splits sum.splits dest!: NewFileKeyManager_same)

lemma service_for_path:
  "km_path (ts_key_manager ts) = kf_path (sc_key_file (cfg_server cfg)) \<Longrightarrow>
   km_path (ts_key_manager (service_for cfg ts req)) = kf_path (sc_key_file (cfg_server cfg))"
  by (simp add: service_for_def NewPasetoTokenService_def file_key_manager_def Let_def)

lemma NewFileKeyManager_kept:
  assumes "fs_content fs (km_path km) = Some (c # cs)" "km_path km \<noteq> []"
  shows "snd (NewFileKeyManager T rand km fs) = fs"
  using assms by (auto simp: NewFileKeyManager_def os_Stat_def)

lemma no_admin_token:
  assumes "fs_content fs (km_path (ts_key_manager ts)) = Some (CHR ''{'' # rest)"
  shows "\<not> admin_token T fs ts nowNs token"
  using json_key_file_unusable [OF assms, of T]
  by (auto simp: admin_token_def ValidateAccessToken_def validateToken_def)

lemma authMiddleware_files:
  assumes "fs_content fs (kf_path (sc_key_file (cfg_server cfg))) = Some (c # cs)"
    "kf_path (sc_key_file (cfg_server cfg)) \<noteq> []"
  shows "snd (authMiddleware T cfg ts aw req fs) = fs"
  using NewFileKeyManager_kept [of fs "file_key_manager cfg (header_get req ''X-PKD-Key-Password'')" c cs T "aw_rand aw"] assms
  by (auto simp: authMiddleware_def request_claims_def file_key_manager_def Let_def split: sum.splits prod.splits)

text \<open>C26. The configuration names one file for the server's keys and for the token key. If it holds a JSON
  object, which is what \<^verbatim>\<open>keygen\<close> writes and what the keys are read from, then no request is let through
  to the administrator's handlers, with any token and any password, and nothing changes.\<close>

theorem admin_shut_out:
  assumes "NewRouter T rand zone env cfg public match unmatched fs0 = (Inr R, fs)"
    and json: "fs_content fs (kf_path (sc_key_file (cfg_server cfg))) = Some (CHR ''{'' # rest)"
    and "routed R req = Some (e, param)" "behind_auth e"
    and "serve R i req \<lparr> pr_server = st, pr_files = fs \<rparr> = (r, ps')"
  shows "rs_status r \<in> {401, 403, 500} \<and> ps' = \<lparr> pr_server = st, pr_files = fs \<rparr>"
proof -
  note R = NewRouter_fields [OF assms(1)]
  obtain d fs' where a: "authMiddleware T cfg (ro_tokens R) (in_admin i) req fs = (d, fs')"
    by (cases "authMiddleware T cfg (ro_tokens R) (in_admin i) req fs")
  have fs': "fs' = fs" using authMiddleware_files [OF json R(4), of T "ro_tokens R" "in_admin i" req] a by simp
  have "\<not> admin_token T fs (service_for cfg (ro_tokens R) req) nowNs token" for nowNs token
    using service_for_path [OF R(3)] json by (intro no_admin_token) simp
  then have "isl d" using a authMiddleware_passes [of T cfg "ro_tokens R" "in_admin i" req fs _ fs'] fs' by (cases d) auto
  then obtain r' where d: "d = Inl r'" by (cases d) auto
  then have "guarded R i req e fs = (Some r', fs)"
    using a R(1,2) assms(4) fs' by (simp add: guarded_def)
  with assms(3,5) have "r = r'" "ps' = \<lparr> pr_server = st, pr_files = fs \<rparr>" by (auto simp: serve_routed)
  with authMiddleware_rejects a d show ?thesis by blast
qed

end
