(* ===== verification/Scheduler.thy ===== *)
theory Scheduler
  imports Checkpoints
begin

section \<open>The checkpoint scheduler\<close>

text \<open>
  \<^verbatim>\<open>internal/checkpoint/scheduler.go\<close> as a state machine: the caller of \<^verbatim>\<open>Start\<close> and
  \<^verbatim>\<open>Stop\<close>, the goroutine that \<^verbatim>\<open>Start\<close> leaves behind, the ticker, and the unbuffered channel
  \<^verbatim>\<open>done\<close> over which the two meet.
\<close>

subsection \<open>Durations\<close>

text \<open>
  \<^verbatim>\<open>time.ParseDuration\<close>, in nanoseconds. Go computes the part after the point with floating point
  numbers; here it is the exact quotient, rounded down.
\<close>

definition digit_of :: "char \<Rightarrow> nat option" where
  "digit_of c = (let n = of_char c in if 48 \<le> n \<and> n \<le> (57 :: nat) then Some (n - 48) else None)"

fun span_digits :: "string \<Rightarrow> string \<times> string" where
  "span_digits [] = ([], [])"
| "span_digits (c # s) =
     (if digit_of c = None then ([], c # s) else (case span_digits s of (d, r) \<Rightarrow> (c # d, r)))"

definition digits_number :: "string \<Rightarrow> nat" where
  "digits_number ds = foldl (\<lambda>a c. 10 * a + (case digit_of c of Some d \<Rightarrow> d | None \<Rightarrow> 0)) 0 ds"

definition unit_nanoseconds :: "string \<Rightarrow> nat option" where
  "unit_nanoseconds u =
     (if u = ''ns'' then Some 1
      else if u \<in> {''us'', [CHR 0xC2, CHR 0xB5, CHR ''s''], [CHR 0xCE, CHR 0xBC, CHR ''s'']} then Some 1000
      else if u = ''ms'' then Some 1000000
      else if u = ''s'' then Some 1000000000
      else if u = ''m'' then Some 60000000000
      else if u = ''h'' then Some 3600000000000
      else None)"

definition unit_char :: "char \<Rightarrow> bool" where
  "unit_char c \<longleftrightarrow> c \<noteq> CHR ''.'' \<and> digit_of c = None"

definition duration_term :: "string \<Rightarrow> (nat \<times> string) option" where
  "duration_term s =
     (case span_digits s of (whole, r1) \<Rightarrow>
        let (frac, r2) = (case r1 of CHR ''.'' # r \<Rightarrow> span_digits r | _ \<Rightarrow> ([], r1)) in
        if whole = [] \<and> frac = [] then None
        else
          (case unit_nanoseconds (takeWhile unit_char r2) of
             None \<Rightarrow> None
           | Some u \<Rightarrow>
               Some (digits_number whole * u + digits_number frac * u div 10 ^ length frac,
                     dropWhile unit_char r2)))"

text \<open>Every term takes something away, so the length bounds the number of terms.\<close>

fun duration_terms :: "nat \<Rightarrow> string \<Rightarrow> nat option" where
  "duration_terms _ [] = Some 0"
| "duration_terms 0 (c # s) = None"
| "duration_terms (Suc n) (c # s) =
     (case duration_term (c # s) of
        None \<Rightarrow> None
      | Some (v, r) \<Rightarrow> map_option ((+) v) (duration_terms n r))"

lemma duration_terms_code [code]:
  "duration_terms n s =
     (if s = [] then Some 0 else if n = 0 then None
      else case duration_term s of None \<Rightarrow> None | Some (v, r) \<Rightarrow> map_option ((+) v) (duration_terms (n - 1) r))"
  by (cases n; cases s) (auto split: option.split)

definition ParseDuration :: "string \<Rightarrow> int option" where
  "ParseDuration s =
     (let negative = (case s of c # _ \<Rightarrow> c = CHR ''-'' | [] \<Rightarrow> False);
          body = (case s of c # r \<Rightarrow> if c = CHR ''-'' \<or> c = CHR ''+'' then r else s | [] \<Rightarrow> []) in
      if body = ''0'' then Some 0
      else if body = [] then None
      else
        (case duration_terms (length body) body of
           None \<Rightarrow> None
         | Some d \<Rightarrow>
             if negative then (if d \<le> 2 ^ 63 then Some (- int d) else None)
             else if d < 2 ^ 63 then Some (int d) else None))"

subsection \<open>States and steps\<close>

datatype goroutine = NotStarted | Waiting | Triggering | Returned
datatype caller = Running | Stopping | Stopped

text \<open>\<open>sc_pending\<close>: a tick is waiting in the ticker's channel. \<open>sc_crashed\<close>: a panic has ended the process.\<close>

record scheduler =
  sd_goroutine :: goroutine
  sd_caller :: caller
  sd_started :: bool
  sd_ticking :: bool
  sd_pending :: bool
  sd_crashed :: bool
  sd_outcomes :: "trigger_outcome list"

definition NewScheduler :: scheduler where
  "NewScheduler =
     \<lparr> sd_goroutine = NotStarted, sd_caller = Running, sd_started = False, sd_ticking = False,
       sd_pending = False, sd_crashed = False, sd_outcomes = [] \<rparr>"

text \<open>
  \<^verbatim>\<open>Start\<close>: nothing runs without an interval or with one that does not parse, and
  \<^verbatim>\<open>time.NewTicker\<close> panics on an interval that is not positive.
\<close>

definition Start :: "config \<Rightarrow> scheduler \<Rightarrow> scheduler" where
  "Start cfg s =
     (let interval = pol_interval (cfg_checkpoint_policy cfg) in
      if interval = [] then s\<lparr> sd_started := True \<rparr>
      else
        (case ParseDuration interval of
           None \<Rightarrow> s\<lparr> sd_started := True \<rparr>
         | Some d \<Rightarrow>
             if d \<le> 0 then s\<lparr> sd_started := True, sd_crashed := True \<rparr>
             else s\<lparr> sd_started := True, sd_ticking := True, sd_goroutine := Waiting \<rparr>))"

text \<open>\<^verbatim>\<open>Stop\<close> up to the send on \<^verbatim>\<open>done\<close>, which waits for a receiver.\<close>

definition Stop :: "scheduler \<Rightarrow> scheduler" where
  "Stop s = s\<lparr> sd_ticking := False, sd_caller := Stopping \<rparr>"

inductive sched_step :: "prims \<Rightarrow> config \<Rightarrow> scheduler \<Rightarrow> scheduler \<Rightarrow> bool" for P cfg where
  start: "\<not> sd_crashed s \<Longrightarrow> \<not> sd_started s \<Longrightarrow> sd_caller s = Running \<Longrightarrow> sched_step P cfg s (Start cfg s)"
| stop: "\<not> sd_crashed s \<Longrightarrow> sd_started s \<Longrightarrow> sd_caller s = Running \<Longrightarrow> sched_step P cfg s (Stop s)"
| fire: "\<not> sd_crashed s \<Longrightarrow> sd_ticking s \<Longrightarrow> sched_step P cfg s (s\<lparr> sd_pending := True \<rparr>)"
| tick: "\<not> sd_crashed s \<Longrightarrow> sd_goroutine s = Waiting \<Longrightarrow> sd_pending s \<Longrightarrow>
    sched_step P cfg s (s\<lparr> sd_pending := False, sd_goroutine := Triggering \<rparr>)"
| trigger: "\<not> sd_crashed s \<Longrightarrow> sd_goroutine s = Triggering \<Longrightarrow> out = triggerCheckpoint P cfg now latest \<Longrightarrow>
    sched_step P cfg s
      (s\<lparr> sd_goroutine := Waiting, sd_crashed := (out = Panicked), sd_outcomes := sd_outcomes s @ [out] \<rparr>)"
| handshake: "\<not> sd_crashed s \<Longrightarrow> sd_goroutine s = Waiting \<Longrightarrow> sd_caller s = Stopping \<Longrightarrow>
    sched_step P cfg s (s\<lparr> sd_goroutine := Returned, sd_caller := Stopped \<rparr>)"

inductive_cases sched_stepE: "sched_step P cfg s s'"

inductive scheduled :: "prims \<Rightarrow> config \<Rightarrow> scheduler \<Rightarrow> bool" for P cfg where
  new: "scheduled P cfg NewScheduler"
| step: "scheduled P cfg s \<Longrightarrow> sched_step P cfg s s' \<Longrightarrow> scheduled P cfg s'"

subsection \<open>Invariants\<close>

definition runs :: "config \<Rightarrow> bool" where
  "runs cfg \<longleftrightarrow> (\<exists>d. pol_interval (cfg_checkpoint_policy cfg) \<noteq> [] \<and>
     ParseDuration (pol_interval (cfg_checkpoint_policy cfg)) = Some d \<and> 0 < d)"

definition sched_inv :: "config \<Rightarrow> scheduler \<Rightarrow> bool" where
  "sched_inv cfg s \<longleftrightarrow>
     (sd_goroutine s = Returned \<longleftrightarrow> sd_caller s = Stopped) \<and>
     (sd_goroutine s \<noteq> NotStarted \<longrightarrow> runs cfg) \<and>
     (sd_started s \<and> runs cfg \<longrightarrow> sd_goroutine s \<noteq> NotStarted) \<and>
     (\<not> sd_started s \<longrightarrow> sd_caller s = Running \<and> sd_goroutine s = NotStarted \<and> sd_outcomes s = []) \<and>
     (sd_ticking s \<longrightarrow> sd_caller s = Running)"

lemma Start_fields:
  "sd_goroutine (Start cfg s) = (if runs cfg then Waiting else sd_goroutine s)"
  "sd_caller (Start cfg s) = sd_caller s" "sd_started (Start cfg s)" "sd_outcomes (Start cfg s) = sd_outcomes s"
  "sd_crashed (Start cfg s) \<Longrightarrow> sd_crashed s \<or> \<not> runs cfg" "sd_ticking (Start cfg s) \<Longrightarrow> sd_ticking s \<or> runs cfg"
  by (auto simp: Start_def runs_def Let_def split: option.splits if_splits)

lemma Stop_fields:
  "sd_goroutine (Stop s) = sd_goroutine s" "sd_caller (Stop s) = Stopping" "sd_started (Stop s) = sd_started s"
  "sd_outcomes (Stop s) = sd_outcomes s" "sd_crashed (Stop s) = sd_crashed s" "\<not> sd_ticking (Stop s)"
  by (simp_all add: Stop_def)

lemma sched_inv_step: "sched_step P cfg s s' \<Longrightarrow> sched_inv cfg s \<Longrightarrow> sched_inv cfg s'"
proof (induction rule: sched_step.induct)
  case (start s)
  then show ?case by (simp add: sched_inv_def Start_fields(1-4))
next
  case (stop s)
  then show ?case by (simp add: sched_inv_def Stop_fields)
qed (simp_all add: sched_inv_def)

lemma scheduled_inv: "scheduled P cfg s \<Longrightarrow> sched_inv cfg s"
proof (induction rule: scheduled.induct)
  case new
  show ?case by (simp add: sched_inv_def NewScheduler_def)
next
  case (step s s')
  then show ?case by (blast intro: sched_inv_step)
qed

text \<open>C38. \<^verbatim>\<open>Stop\<close> returns only if \<^verbatim>\<open>Start\<close> has left a goroutine behind: with no interval in the
  configuration, or one that does not parse or is not positive, a call of \<^verbatim>\<open>Stop\<close> blocks for ever.\<close>

theorem stop_needs_interval:
  assumes "scheduled P cfg s" "sd_caller s = Stopped"
  shows "\<exists>d. ParseDuration (pol_interval (cfg_checkpoint_policy cfg)) = Some d \<and> 0 < d"
  using scheduled_inv [OF assms(1)] assms(2) by (auto simp: sched_inv_def runs_def)

subsection \<open>Stopping\<close>

text \<open>What is left to do before the caller of \<^verbatim>\<open>Stop\<close> can go on.\<close>

definition left_to_do :: "scheduler \<Rightarrow> nat" where
  "left_to_do s =
     (if sd_crashed s \<or> sd_caller s = Stopped then 0
      else (if sd_pending s then 2 else 0) +
        (case sd_goroutine s of Triggering \<Rightarrow> 2 | Waiting \<Rightarrow> 1 | _ \<Rightarrow> 0))"

lemma stopping_step:
  assumes "sched_step P cfg s s'" "sched_inv cfg s" "sd_caller s = Stopping"
  shows "left_to_do s' < left_to_do s \<and> sd_caller s' \<in> {Stopping, Stopped}"
  using assms
proof (induction rule: sched_step.induct)
  case (fire s)
  then show ?case by (simp add: sched_inv_def)
qed (simp_all add: left_to_do_def)

lemma stopping_progress:
  assumes "sched_inv cfg s" "sd_caller s = Stopping" "runs cfg" "\<not> sd_crashed s"
  shows "\<exists>s'. sched_step P cfg s s'"
proof -
  have "sd_goroutine s \<in> {Waiting, Triggering}"
    using assms by (cases "sd_goroutine s") (auto simp: sched_inv_def)
  then show ?thesis
    using assms sched_step.handshake [of s P cfg] sched_step.trigger [of s _ P cfg] by blast
qed

inductive sched_run :: "prims \<Rightarrow> config \<Rightarrow> nat \<Rightarrow> scheduler \<Rightarrow> scheduler \<Rightarrow> bool" for P cfg where
  no_step: "sched_run P cfg 0 s s"
| one_step: "sched_step P cfg s s1 \<Longrightarrow> sched_run P cfg n s1 s' \<Longrightarrow> sched_run P cfg (Suc n) s s'"

lemma stopped_stays:
  assumes "sched_inv cfg s" "sd_caller s = Stopped"
  shows "\<not> sched_step P cfg s s'"
  using assms by (auto simp: sched_inv_def elim!: sched_stepE)

lemma stopping_run:
  "sched_run P cfg n s s' \<Longrightarrow> sched_inv cfg s \<Longrightarrow> scheduled P cfg s \<Longrightarrow> sd_caller s \<in> {Stopping, Stopped} \<Longrightarrow>
   n + left_to_do s' \<le> left_to_do s \<and> scheduled P cfg s' \<and> sd_caller s' \<in> {Stopping, Stopped}"
proof (induction rule: sched_run.induct)
  case (one_step s s1 n s')
  have "sd_caller s = Stopping" using one_step.prems one_step.hyps(1) stopped_stays by blast
  with stopping_step [OF one_step.hyps(1) one_step.prems(1)]
  have "left_to_do s1 < left_to_do s" "sd_caller s1 \<in> {Stopping, Stopped}" by auto
  moreover have "scheduled P cfg s1" using one_step.prems(2) one_step.hyps(1) by (rule scheduled.step)
  moreover have "sched_inv cfg s1" using one_step.hyps(1) one_step.prems(1) by (rule sched_inv_step)
  ultimately show ?case using one_step.IH by auto
qed simp

text \<open>C37. A scheduler that was started with a positive interval stops: once \<^verbatim>\<open>Stop\<close> is called, every run
  of at most four more steps leads to a state from which a step remains, until the call has returned
  (or a panic of the trigger has ended the process); no run is longer than four steps.\<close>

theorem stop_terminates:
  assumes "scheduled P cfg s" "runs cfg" "sd_caller s = Stopping" "sched_run P cfg n s s'"
  shows "n \<le> 4 \<and> (sd_caller s' = Stopped \<or> sd_crashed s' \<or> (\<exists>s''. sched_step P cfg s' s''))"
proof -
  note inv = scheduled_inv [OF assms(1)]
  have "n + left_to_do s' \<le> left_to_do s" "scheduled P cfg s'" "sd_caller s' \<in> {Stopping, Stopped}"
    using stopping_run [OF assms(4) inv assms(1)] assms(3) by auto
  moreover have "left_to_do s \<le> 4"
    by (simp add: left_to_do_def split: goroutine.split)
  ultimately show ?thesis
    using stopping_progress [OF scheduled_inv _ assms(2), of P s'] by fastforce
qed

subsection \<open>What is sent\<close>

lemma scheduled_outcomes:
  assumes "LoadAndValidate cenv path = Some (Inr cfg)" "scheduled P cfg s"
  shows "(\<forall>out \<in> set (sd_outcomes s). \<exists>message. out = NothingSent message) \<and>
    (sd_crashed s \<longrightarrow> sd_outcomes s = [] \<and> \<not> runs cfg)"
  using assms(2)
proof (induction rule: scheduled.induct)
  case new
  show ?case by (simp add: NewScheduler_def)
next
  case (step s s')
  have "\<exists>message. triggerCheckpoint P cfg now latest = NothingSent message" for now latest
    using trigger_never_sends [OF assms(1)] by blast
  then have never: "triggerCheckpoint P cfg now latest \<noteq> Panicked" for now latest by (metis trigger_outcome.distinct(3))
  note inv = scheduled_inv [OF step.hyps(1)]
  from step.hyps(2) step.IH inv show ?case
  proof (induction rule: sched_step.induct)
    case (start s)
    then show ?case by (auto simp: Start_fields(4) sched_inv_def dest: Start_fields(5))
  next
    case (trigger s out now latest)
    then show ?case
      using \<open>\<And>now latest. \<exists>message. triggerCheckpoint P cfg now latest = NothingSent message\<close> never by (auto simp: sched_inv_def)
  qed (simp_all add: Stop_fields sched_inv_def)
qed


end
