(* ===== verification/DemoServer.thy ===== *)
theory DemoServer
  imports Demo Server Scheduler
begin

section \<open>A concrete server\<close>

text \<open>A configuration, a key file, toy token primitives and a router for the witnesses.\<close>

definition demo_server_config :: server_config where
  "demo_server_config =
     \<lparr> sc_host = ''pkd'', sc_port = 8080, sc_private_key = replicate 86 (CHR ''A''),
       sc_hpke_secret_key = replicate 43 (CHR ''A''), sc_key_file = zero_key_file\<lparr> kf_path := ''k'' \<rparr>,
       sc_signing_key = [], sc_hpke_public_key = None, sc_hpke_private_key = None \<rparr>"

definition demo_config :: config where
  "demo_config =
     NewConfig\<lparr> cfg_server := demo_server_config,
       cfg_checkpoint_policy :=
         \<lparr> pol_target_directory = ''http://peer'', pol_interval = ''1s'', pol_message_threshold = 0 \<rparr> \<rparr>"

definition demo_config_env :: config_env where
  "demo_config_env =
     \<lparr> ce_load = (\<lambda>_. Inr demo_config),
       ce_key_file = (\<lambda>_. Inr (\<lambda>name. if name = ''server.private_key'' then replicate 86 (CHR ''A'') else replicate 43 (CHR ''A''))),
       ce_derive = (\<lambda>seed. Some (seed, seed)) \<rparr>"

definition demo_loaded :: config where
  "demo_loaded =
     demo_config\<lparr> cfg_server := demo_server_config\<lparr> sc_signing_key := replicate 64 0,
       sc_hpke_public_key := Some (replicate 32 0), sc_hpke_private_key := Some (replicate 32 0) \<rparr> \<rparr>"

lemma demo_validated: "LoadAndValidate demo_config_env [] = Some (Inr demo_loaded)"
  by code_simp

subsection \<open>Tokens\<close>

text \<open>A token is its payload after a prefix; sealing adds one byte.\<close>

definition demo_token_prims :: token_prims where
  "demo_token_prims =
     \<lparr> gcm_seal = (\<lambda>k n a p. 0 # p),
       gcm_open = (\<lambda>k n a c. case c of [] \<Rightarrow> Inl json_error | _ # p \<Rightarrow> Inr p),
       argon2id_key = (\<lambda>p s t m h n. replicate n 0),
       local_key_from_seed = (\<lambda>k. if length k = 32 then Inr k else Inl json_error),
       paseto_encrypt = (\<lambda>r k p. Inr (''v4.local.'' @ p)),
       paseto_decrypt = (\<lambda>k t. if has_prefix t ''v4.local.'' then Inr (drop 9 t) else Inl json_error),
       new_uuid = (\<lambda>r. Inr ''u'') \<rparr>"

definition demo_files :: files where
  "demo_files = \<lparr> fs_content = [''k'' \<mapsto> replicate 43 (CHR ''A'')], fs_refused = (\<lambda>_. False) \<rparr>"

definition demo_json_files :: files where
  "demo_json_files = \<lparr> fs_content = [''k'' \<mapsto> ''{}''], fs_refused = (\<lambda>_. False) \<rparr>"

definition demo_entropy :: token_entropy where
  "demo_entropy = \<lparr> te_uuid = [], te_nonce = [] \<rparr>"

definition demo_tokens :: token_service where
  "demo_tokens = NewPasetoTokenService (file_key_manager demo_loaded []) demo_loaded 0"

lemma demo_gcm: "gcm_correct demo_token_prims"
  by (simp add: gcm_correct_def demo_token_prims_def)

lemma demo_paseto: "paseto_correct demo_token_prims"
  by (auto simp: paseto_correct_def demo_token_prims_def has_prefix_def)

subsection \<open>The router\<close>

text \<open>Patterns without parameters match themselves; the path \<^verbatim>\<open>/keys\<close> stands for alice's keys.\<close>

definition demo_match :: "string \<Rightarrow> string \<Rightarrow> (string \<times> (string \<Rightarrow> string)) option" where
  "demo_match method path =
     (if path = ''/keys'' then Some (''/api/actor/{actorID}/keys'', \<lambda>_. ''alice'') else Some (path, \<lambda>_. []))"

definition demo_router :: router where
  "demo_router =
     \<lparr> ro_env = demo_env, ro_config = demo_loaded, ro_token_prims = demo_token_prims, ro_tokens = demo_tokens,
       ro_public_key_json = Inr ''{}'', ro_match = demo_match, ro_unmatched = (\<lambda>_. respondWithError 404 []) \<rparr>"

lemma demo_new_router:
  "NewRouter demo_token_prims [] 0 demo_env demo_loaded (Inr ''{}'') demo_match (\<lambda>_. respondWithError 404 []) demo_files =
     (Inr demo_router, demo_files)"
  "NewRouter demo_token_prims [] 0 demo_env demo_loaded (Inr ''{}'') demo_match (\<lambda>_. respondWithError 404 []) demo_json_files =
     (Inr demo_router, demo_json_files)"
  by (simp_all add: NewRouter_def NewFileKeyManager_def file_key_manager_def demo_loaded_def demo_config_def
      demo_server_config_def zero_key_file_def os_Stat_def demo_files_def demo_json_files_def op_defs
      demo_router_def demo_tokens_def)

definition demo_inputs :: "nat \<Rightarrow> inputs" where
  "demo_inputs i =
     \<lparr> in_world = (demo_world i)\<lparr> rw_lookup := \<lambda>_. Inr [[93, 184, 216, 34]] \<rparr>,
       in_admin = \<lparr> aw_rand = [], aw_now_ns = 0 \<rparr>, in_post = (\<lambda>url body. Answered 200 (Inr [])), in_unix_nano = 7,
       in_peer_order = id \<rparr>"

definition demo_process :: "server_state \<Rightarrow> process_state" where
  "demo_process st = \<lparr> pr_server = st, pr_files = demo_files \<rparr>"

end
