(* ===== verification/Liveness.thy ===== *)
theory Liveness
  imports Guarantees
begin

section \<open>A healthy server answers\<close>

text \<open>
  The theorems of \<open>Guarantees\<close> say what an answer means, whatever the database and the log do. This
  theory goes the other way: while neither back end refuses a statement, and the log accepts, a well-formed
  and authorised AddKey is answered with 200. \<open>works Q f d\<close> is total correctness of a call: it returns
  no error, and \<open>Q\<close> holds of the result and the handle.
\<close>

definition works :: "('a \<Rightarrow> 's \<Rightarrow> bool) \<Rightarrow> ('s, 'a) op \<Rightarrow> 's \<Rightarrow> bool" where
  "works Q f s \<longleftrightarrow> (case f s of (Inl e, s') \<Rightarrow> False | (Inr x, s') \<Rightarrow> Q x s')"

lemma works_return [intro]: "Q x s \<Longrightarrow> works Q (return_op x) s"
  by (simp add: works_def return_op_def)

lemma works_bind: "works (\<lambda>x. works Q (g x)) f s \<Longrightarrow> works Q (bind_op f g) s"
  by (auto simp: works_def bind_op_def split: prod.splits sum.splits)

lemma works_wrapping [simp]: "works Q (wrapping m f) s \<longleftrightarrow> works Q f s"
  by (auto simp: works_def wrapping_def split: prod.splits sum.splits)

lemma works_mono: "works P f s \<Longrightarrow> (\<And>x s'. P x s' \<Longrightarrow> Q x s') \<Longrightarrow> works Q f s"
  by (auto simp: works_def split: prod.splits sum.splits)

lemma works_seq:
  assumes "works P f s" "\<And>x s'. P x s' \<Longrightarrow> works Q (g x) s'"
  shows "works Q (bind_op f g) s" "works Q (bind_op (wrapping m f) g) s"
  using assms by (simp_all add: works_bind works_mono)

lemma works_closing:
  assumes "works (\<lambda>x. works (\<lambda>_. Q x) close) f s"
  shows "works Q (closing m close f) s"
  using assms by (fastforce simp: works_def closing_def split: prod.splits sum.splits)

lemma works_lift: "works Q (lift_op r) s \<longleftrightarrow> (\<exists>x. r = Inr x \<and> Q x s)"
  by (cases r) (auto simp: works_def lift_op_def)

lemma worksE: "works Q f s \<Longrightarrow> (\<And>x s'. f s = (Inr x, s') \<Longrightarrow> Q x s' \<Longrightarrow> P) \<Longrightarrow> P"
  by (auto simp: works_def split: prod.splits sum.splits)

subsection \<open>Both back ends at once\<close>

lemma on_db_bind: "on_db (bind_op f g) (bind_op f' g') = bind_op (on_db f f') (\<lambda>x. on_db (g x) (g' x))"
  by (rule ext) (auto simp: on_db_def bind_op_def split: database.splits prod.splits sum.splits)

lemma on_db_wrapping: "on_db (wrapping m f) (wrapping m f') = wrapping m (on_db f f')"
  by (rule ext) (auto simp: on_db_def wrapping_def split: database.splits prod.splits)

lemma on_db_return: "on_db (return_op x) (return_op x) = return_op x"
  by (rule ext) (auto simp: on_db_def return_op_def split: database.splits)

lemma on_db_each: "on_db (each_op f xs) (each_op f' xs) = each_op (\<lambda>x. on_db (f x) (f' x)) xs"
  by (induction xs) (simp_all add: on_db_return on_db_bind)

lemma on_db_closing: "on_db (closing m c f) (closing m c' f') = closing m (on_db c c') (on_db f f')"
  by (rule ext) (auto simp: on_db_def closing_def split: database.splits prod.splits sum.splits)

lemmas on_db_pushed = on_db_bind on_db_wrapping on_db_return on_db_each on_db_closing

subsection \<open>A driver that refuses nothing\<close>

fun healthy :: "database \<Rightarrow> bool" where
  "healthy (SQLiteDB s) \<longleftrightarrow> sqlite_faults s = []"
| "healthy (PostgresDB p) \<longleftrightarrow> pg_faults p = []"

fun aborted :: "database \<Rightarrow> bool" where
  "aborted (SQLiteDB s) \<longleftrightarrow> False"
| "aborted (PostgresDB p) \<longleftrightarrow> (case pg_tx p of None \<Rightarrow> False | Some w \<Rightarrow> pw_aborted w)"

text \<open>No transaction is open and the tables are \<open>t\<close>; one is open and its working copy is \<open>t\<close>.\<close>

definition idle :: "database \<Rightarrow> tables \<Rightarrow> bool" where
  "idle d t \<longleftrightarrow> healthy d \<and> db_pending d = None \<and> db_committed d = t"

definition working :: "database \<Rightarrow> tables \<Rightarrow> bool" where
  "working d t \<longleftrightarrow> healthy d \<and> \<not> aborted d \<and> db_pending d = Some t"

lemmas backend_defs = on_db_def sqlite_exec_def pg_exec_def sqlite_tx_exec_def pg_tx_exec_def sqlite_tick_def pg_tick_def
  sqlite_pending_def pg_pending_def sqlite_committed_def pg_committed_def

definition runs_to :: "'a stmt \<Rightarrow> tables \<Rightarrow> ('a \<Rightarrow> tables \<Rightarrow> bool) \<Rightarrow> bool" where
  "runs_to st t P \<longleftrightarrow> (\<forall>now q. case st now t q of (Inl e, _, _) \<Rightarrow> False | (Inr x, t', _) \<Rightarrow> P x t')"

lemma runs_toE:
  assumes "runs_to st t P"
  obtains x t' q' where "st now t q = (Inr x, t', q')" "P x t'"
proof -
  have "case st now t q of (Inl e, _, _) \<Rightarrow> False | (Inr x, t', _) \<Rightarrow> P x t'" using assms by (simp add: runs_to_def)
  then show ?thesis by (auto split: prod.splits sum.splits intro: that)
qed

lemma works_tx:
  assumes "working d t" "runs_to st t P"
  shows "works (\<lambda>x d'. \<exists>t'. working d' t' \<and> P x t') (on_db (sqlite_tx_exec st) (pg_tx_exec st)) d"
proof (cases d)
  case (SQLiteDB s)
  then obtain q where q: "sqlite_tx s = Some (t, q)" "sqlite_faults s = []"
    using assms(1) by (auto simp: working_def sqlite_pending_def)
  obtain x t' q' where "st (sqlite_clock s) t q = (Inr x, t', q')" "P x t'"
    using assms(2) by (rule runs_toE)
  then show ?thesis by (simp add: works_def SQLiteDB backend_defs q working_def)
next
  case (PostgresDB p)
  then obtain w where w: "pg_tx p = Some w" "pw_tables w = t" "\<not> pw_aborted w" "pg_faults p = []"
    using assms(1) by (auto simp: working_def pg_pending_def)
  obtain x t' q' where "st (pw_start w) t (pg_seq p) = (Inr x, t', q')" "P x t'"
    using assms(2) by (rule runs_toE)
  then show ?thesis by (simp add: works_def PostgresDB backend_defs w working_def)
qed

lemma works_query: "idle d t \<Longrightarrow> works (\<lambda>x d'. x = f t \<and> idle d' t) (on_db (sqlite_exec (query f)) (pg_exec (query f))) d"
  by (cases d) (auto simp: works_def idle_def backend_defs query_def)

lemma works_begin: "idle d t \<Longrightarrow> works (\<lambda>_ d'. working d' t) (BeginTx db_repo) d"
  by (cases d) (auto simp: works_def idle_def working_def backend_defs db_repo_def sqlite_BeginTx_def pg_BeginTx_def
      wrapping_def)

lemma works_commit: "working d t \<Longrightarrow> works (\<lambda>_ d'. idle d' t) (Commit db_repo) d"
  by (cases d) (auto simp: works_def idle_def working_def backend_defs db_repo_def sqlite_Commit_def pg_Commit_def)

lemma rollback_idle: "idle d t \<Longrightarrow> idle (snd (Rollback db_repo d)) t"
  by (cases d) (auto simp: idle_def backend_defs db_repo_def sqlite_Rollback_def pg_Rollback_def split: option.splits)

lemma works_with_tx:
  assumes "idle d t" "\<And>d'. working d' t \<Longrightarrow> works (\<lambda>_ d''. \<exists>t'. idle d'' t') body d'"
  shows "works (\<lambda>_ d''. \<exists>t'. idle d'' t') (with_tx db_repo body) d"
  unfolding with_tx_def
proof (rule works_bind, unfold works_wrapping, rule works_mono [OF works_begin [OF assms(1)]])
  fix d'
  assume "working d' t"
  from assms(2) [OF this] show "works (\<lambda>_ d''. \<exists>t'. idle d'' t')
      (\<lambda>s. case body s of (r, s1) \<Rightarrow> (r, snd (Rollback db_repo s1))) d'"
    by (auto simp: works_def split: prod.splits sum.splits intro: rollback_idle)
qed

subsection \<open>AddKey in the database\<close>

lemma works_get_or_create:
  assumes "working d t"
  shows "works (\<lambda>a d'. \<exists>t'. working d' t' \<and> a_id a \<in> a_id ` set (actors t') \<and>
      public_keys t' = public_keys t \<and> symmetric_keys t' = symmetric_keys t) (GetOrCreateActor db_repo actorID) d"
proof -
  have op: "GetOrCreateActor db_repo actorID =
      bind_op (wrapping (''failed to find actor '' @ actorID)
          (on_db (sqlite_tx_exec (query (find_actor actorID))) (pg_tx_exec (query (find_actor actorID)))))
        (\<lambda>found. case found of
           Some a \<Rightarrow> return_op a
         | None \<Rightarrow> wrapping (''failed to create actor '' @ actorID)
             (on_db (sqlite_tx_exec (stmt_insert_actor actorID)) (pg_tx_exec (stmt_insert_actor actorID))))"
    unfolding db_repo_def repo.simps sqlite_GetOrCreateActor_def pg_GetOrCreateActor_def on_db_bind on_db_wrapping
    by (auto intro!: arg_cong2 [where f = bind_op] simp: on_db_return on_db_wrapping split: option.splits)
  have look: "runs_to (query (find_actor actorID)) t (\<lambda>found t'. found = find_actor actorID t \<and> t' = t)"
    by (simp add: runs_to_def query_def)
  have insert: "runs_to (stmt_insert_actor actorID) t (\<lambda>a t'. a \<in> set (actors t') \<and>
      public_keys t' = public_keys t \<and> symmetric_keys t' = symmetric_keys t)" if "find_actor actorID t = None"
    using that by (simp add: runs_to_def stmt_insert_actor_def Let_def)
  show ?thesis
    unfolding op
  proof (rule works_bind, unfold works_wrapping, rule works_mono [OF works_tx [OF assms look]])
    fix found d'
    assume "\<exists>t'. working d' t' \<and> found = find_actor actorID t \<and> t' = t"
    then have d': "working d' t" and found: "found = find_actor actorID t" by auto
    show "works (\<lambda>a d'. \<exists>t'. working d' t' \<and> a_id a \<in> a_id ` set (actors t') \<and>
        public_keys t' = public_keys t \<and> symmetric_keys t' = symmetric_keys t)
      (case found of None \<Rightarrow> wrapping (''failed to create actor '' @ actorID)
          (on_db (sqlite_tx_exec (stmt_insert_actor actorID)) (pg_tx_exec (stmt_insert_actor actorID)))
        | Some a \<Rightarrow> return_op a) d'"
    proof (cases found)
      case None
      with found have "find_actor actorID t = None" by simp
      from works_tx [OF d' insert [OF this]] show ?thesis
        unfolding None option.case works_wrapping by (rule works_mono) auto
    next
      case (Some a)
      with found have "find (\<lambda>a. a_actor_id a = actorID) (actors t) = Some a" by (simp add: find_actor_def)
      note find_Some_D [OF this]
      with d' Some show ?thesis by auto
    qed
  qed
qed

lemma works_insert_key:
  assumes "working d t" "pk_key_id k \<notin> pk_key_id ` set (public_keys t)" "pk_actor_id k \<in> a_id ` set (actors t)"
  shows "works (\<lambda>k' d'. \<exists>t'. working d' t' \<and> symmetric_keys t' = symmetric_keys t) (InsertPublicKey db_repo k) d"
proof -
  have op: "InsertPublicKey db_repo k =
      bind_op (wrapping ''failed to insert new public key''
          (on_db (sqlite_tx_exec (stmt_insert_public_key k)) (pg_tx_exec (stmt_insert_public_key k))))
        (\<lambda>(i, createdAt). return_op (k\<lparr> pk_id := i, pk_created_at := createdAt \<rparr>))"
    unfolding db_repo_def repo.simps sqlite_InsertPublicKey_def pg_InsertPublicKey_def on_db_bind on_db_wrapping
    by (auto intro!: arg_cong2 [where f = bind_op] simp: on_db_return)
  have insert: "runs_to (stmt_insert_public_key k) t (\<lambda>x t'. symmetric_keys t' = symmetric_keys t)"
    using assms(2,3) by (auto simp: runs_to_def stmt_insert_public_key_def Let_def)
  show ?thesis
    unfolding op
    by (rule works_bind, unfold works_wrapping, rule works_mono [OF works_tx [OF assms(1) insert]]) auto
qed

text \<open>Rows for new pairs of root and attribute are taken.\<close>

definition insertable :: "string \<Rightarrow> (string \<times> 'a) list \<Rightarrow> tables \<Rightarrow> bool" where
  "insertable root keys t \<longleftrightarrow> distinct (map fst keys) \<and>
     (\<forall>s \<in> set (symmetric_keys t). sk_message_hash s = root \<longrightarrow> sk_attribute s \<notin> fst ` set keys)"

lemma works_each_key:
  "working d t \<Longrightarrow> insertable root keys t \<Longrightarrow>
   works (\<lambda>_ d'. \<exists>t'. working d' t')
     (each_op (\<lambda>(attribute, key). wrapping (''failed to insert symmetric key for attribute '' @ attribute)
         (on_db (sqlite_tx_exec (stmt_insert_symmetric_key root attribute key))
            (pg_tx_exec (stmt_insert_symmetric_key root attribute key)))) keys) d"
proof (induction keys arbitrary: d t)
  case Nil
  then show ?case by (auto simp: works_return)
next
  case (Cons ak keys)
  obtain a key where ak: "ak = (a, key)" by (cases ak)
  have insert: "runs_to (stmt_insert_symmetric_key root a key) t (\<lambda>_ t'. insertable root keys t')"
    using Cons.prems(2)
    by (auto simp: ak runs_to_def stmt_insert_symmetric_key_def insertable_def Let_def)
  show ?case
    unfolding ak each_op.simps split_conv
    by (rule works_bind, unfold works_wrapping, rule works_mono [OF works_tx [OF Cons.prems(1) insert]])
      (elim exE conjE, rule Cons.IH)
qed

lemma works_store:
  assumes "working d t" "insertable root keys t"
  shows "works (\<lambda>_ d'. \<exists>t'. working d' t') (store_if_any db_repo msg root keys) d"
proof (cases "keys = []")
  case False
  have op: "StoreSymmetricKeys db_repo root keys =
      bind_op (wrapping ''failed to prepare symmetric key statement''
          (on_db (sqlite_tx_exec (query (\<lambda>_. ()))) (pg_tx_exec (query (\<lambda>_. ())))))
        (\<lambda>_. closing ''failed to close symmetric key statement''
           (on_db (sqlite_tx_exec (query (\<lambda>_. ()))) (pg_tx_exec (query (\<lambda>_. ()))))
           (each_op (\<lambda>(attribute, key). wrapping (''failed to insert symmetric key for attribute '' @ attribute)
               (on_db (sqlite_tx_exec (stmt_insert_symmetric_key root attribute key))
                  (pg_tx_exec (stmt_insert_symmetric_key root attribute key)))) keys))"
    by (simp add: db_repo_def sqlite_StoreSymmetricKeys_def pg_StoreSymmetricKeys_def on_db_pushed case_prod_unfold)
  have skip: "runs_to (query (\<lambda>_. ())) t (\<lambda>_ t'. t' = t)" for t by (simp add: runs_to_def query_def)
  have close: "works (\<lambda>_ d'. \<exists>t'. working d' t') (on_db (sqlite_tx_exec (query (\<lambda>_. ()))) (pg_tx_exec (query (\<lambda>_. ())))) d'"
    if "\<exists>t'. working d' t'" for d'
  proof -
    from that obtain t' where "working d' t'" by blast
    show ?thesis by (rule works_mono [OF works_tx [OF \<open>working d' t'\<close> skip]]) auto
  qed
  have "works (\<lambda>_ d'. \<exists>t'. working d' t') (StoreSymmetricKeys db_repo root keys) d"
    unfolding op
  proof (rule works_bind, unfold works_wrapping, rule works_mono [OF works_tx [OF assms(1) skip]])
    fix d'
    assume "\<exists>t'. working d' t' \<and> t' = t"
    then have "working d' t" by simp
    then show "works (\<lambda>_ d'. \<exists>t'. working d' t')
        (closing ''failed to close symmetric key statement''
           (on_db (sqlite_tx_exec (query (\<lambda>_. ()))) (pg_tx_exec (query (\<lambda>_. ()))))
           (each_op (\<lambda>(attribute, key). wrapping (''failed to insert symmetric key for attribute '' @ attribute)
               (on_db (sqlite_tx_exec (stmt_insert_symmetric_key root attribute key))
                  (pg_tx_exec (stmt_insert_symmetric_key root attribute key)))) keys)) d'"
      by (intro works_closing works_mono [OF works_each_key [OF _ assms(2)]] close)
  qed
  with False show ?thesis by (simp add: store_if_any_def)
qed (use assms(1) in \<open>auto simp: store_if_any_def\<close>)

lemma works_ProcessAddKey:
  assumes "idle d t" "32 \<le> length rand" "raw_url_encode (take 32 rand) \<notin> pk_key_id ` set (public_keys t)"
    and "insertable root keys t"
  shows "works (\<lambda>_ d'. \<exists>t'. idle d' t') (ProcessAddKey db_repo rand m root keys) d"
proof -
  have "works (\<lambda>_ d'. \<exists>t'. idle d' t') (ProcessAddKey db_repo rand m root keys) d"
    unfolding ProcessAddKey_def
  proof (rule works_with_tx [OF assms(1)])
    fix d0
    assume d0: "working d0 t"
    show "works (\<lambda>_ d'. \<exists>t'. idle d' t')
       (bind_op (wrapping ''failed to get or create actor'' (GetOrCreateActor db_repo (ak_actor m))) (\<lambda>actor.
        bind_op (wrapping ''failed to generate key ID'' (lift_op (GenerateKeyID rand))) (\<lambda>keyID.
        bind_op (wrapping ''failed to insert public key''
                   (InsertPublicKey db_repo (new_public_key (a_id actor) keyID (ak_public_key m) root))) (\<lambda>insertedKey.
        bind_op (store_if_any db_repo ''failed to store symmetric keys'' root keys) (\<lambda>_.
        bind_op (wrapping ''failed to commit transaction'' (Commit db_repo)) (\<lambda>_.
        return_op insertedKey)))))) d0"
    proof (rule works_seq(2) [OF works_get_or_create [OF d0]])
      fix a d1
      assume "\<exists>t'. working d1 t' \<and> a_id a \<in> a_id ` set (actors t') \<and>
        public_keys t' = public_keys t \<and> symmetric_keys t' = symmetric_keys t"
      then obtain t1 where t1: "working d1 t1" "a_id a \<in> a_id ` set (actors t1)"
        "public_keys t1 = public_keys t" "symmetric_keys t1 = symmetric_keys t" by blast
      let ?k = "new_public_key (a_id a) (raw_url_encode (take 32 rand)) (ak_public_key m) root"
      have id: "GenerateKeyID rand = Inr (raw_url_encode (take 32 rand))" using assms(2) by (simp add: GenerateKeyID_Inr)
      have row: "pk_key_id ?k \<notin> pk_key_id ` set (public_keys t1)" "pk_actor_id ?k \<in> a_id ` set (actors t1)"
        using assms(3) t1 by (simp_all add: new_public_key_def)
      have rest: "works (\<lambda>_ d'. \<exists>t'. idle d' t')
          (bind_op (store_if_any db_repo ''failed to store symmetric keys'' root keys) (\<lambda>_.
           bind_op (wrapping ''failed to commit transaction'' (Commit db_repo)) (\<lambda>_. return_op k'))) d2"
        if "\<exists>t'. working d2 t' \<and> symmetric_keys t' = symmetric_keys t1" for k' d2
      proof -
        from that obtain t2 where t2: "working d2 t2" "insertable root keys t2"
          using assms(4) t1 by (auto simp: insertable_def)
        show ?thesis
        proof (rule works_seq(1) [OF works_store [OF t2]])
          fix u d3
          assume "\<exists>t'. working d3 t'"
          then obtain t3 where t3: "working d3 t3" by blast
          show "works (\<lambda>_ d'. \<exists>t'. idle d' t')
              (bind_op (wrapping ''failed to commit transaction'' (Commit db_repo)) (\<lambda>_. return_op k')) d3"
            by (rule works_seq(2) [OF works_commit [OF t3]]) auto
        qed
      qed
      show "works (\<lambda>_ d'. \<exists>t'. idle d' t')
         (bind_op (wrapping ''failed to generate key ID'' (lift_op (GenerateKeyID rand))) (\<lambda>keyID.
          bind_op (wrapping ''failed to insert public key''
                     (InsertPublicKey db_repo (new_public_key (a_id a) keyID (ak_public_key m) root))) (\<lambda>insertedKey.
          bind_op (store_if_any db_repo ''failed to store symmetric keys'' root keys) (\<lambda>_.
          bind_op (wrapping ''failed to commit transaction'' (Commit db_repo)) (\<lambda>_.
          return_op insertedKey))))) d1"
        by (rule works_seq(2) [where P = "\<lambda>x d'. x = raw_url_encode (take 32 rand) \<and> d' = d1"])
          (auto simp: works_lift id intro!: works_seq(2) [OF works_insert_key [OF t1(1) row] rest])
    qed
  qed
  then show ?thesis by simp
qed

subsection \<open>AddKey at the endpoint\<close>

lemma idle_list_keys: "idle d t \<Longrightarrow> works (\<lambda>ks d'. ks = active_keys a t \<and> idle d' t) (ListKeysForActor db_repo a) d"
  by (simp add: db_repo_def sqlite_ListKeysForActor_def pg_ListKeysForActor_def on_db_wrapping works_query)

lemma decode_symmetric_keys_all:
  assumes "\<forall>(a, s) \<in> set enc. raw_url_decode s \<noteq> None"
  shows "\<exists>ks. decode_symmetric_keys enc st = (Inr ks, st) \<and> map fst ks = map fst enc"
  using assms by (induction enc) (auto simp: then_do_def continue_def)

lemma add_key_signature_authorised:
  "add_key_authorised (sv_prims env) msg m t \<Longrightarrow>
   add_key_signature env msg m (active_keys (ak_actor m) t) st = (Inr (), st)"
  by (cases "active_keys (ak_actor m) t = []")
    (auto simp: add_key_authorised_def add_key_signature_def then_do_def try_or_def ensure_def signed_by_active_def
      signed_by_def valid_signature_iff)

lemma authorised_marshals:
  assumes "add_key_authorised P msg m t"
  shows "\<exists>body. marshal_signed (signed_part msg) = Inr body"
  using assms
  by (auto simp: add_key_authorised_def signed_by_active_def signed_by_def verify_Inr canonical_bytes_def
      split: sum.splits if_splits)

lemma add_key_answered:
  assumes "ready st" "healthy (ss_db st)" "rw_sigsum w = Answered 200 (Inr root)"
    and "\<not> is_activity_pub req" "decode_protocol (hr_body req) = Some msg"
    and "pm_context msg = PKDContextV1" "pm_action msg = ''AddKey''" "unmarshal_add_key (pm_message msg) = Inr m"
    and auth: "add_key_authorised (sv_prims env) msg m (tables_of st)"
    and sym: "\<forall>(a, s) \<in> set (pm_symmetric_keys msg). raw_url_decode s \<noteq> None"
      "insertable root (pm_symmetric_keys msg) (tables_of st)"
    and entropy: "32 \<le> length (rw_rand w)"
      "raw_url_encode (take 32 (rw_rand w)) \<notin> pk_key_id ` set (public_keys (tables_of st))"
  shows "rs_status (fst (post_protocol env w req st)) = 200"
proof -
  let ?t = "tables_of st"
  have "idle (ss_db st) ?t" using assms(1,2) by (simp add: idle_def ready_def tables_of_def)
  then obtain d1 where "ListKeysForActor db_repo (ak_actor m) (ss_db st) = (Inr (active_keys (ak_actor m) ?t), d1)"
    and d1: "idle d1 ?t"
    by (rule worksE [OF idle_list_keys]) simp
  then have list: "list_keys_or (ak_actor m) e st = (Inr (active_keys (ak_actor m) ?t), st\<lparr> ss_db := d1 \<rparr>)" for e
    by (simp add: list_keys_or_def call_or_def db_op_def)
  obtain body where body: "marshal_signed (signed_part msg) = Inr body"
    using authorised_marshals [OF auth] by blast
  let ?st2 = "st\<lparr> ss_db := d1, ss_log := ss_log st @ [(body, Inr root)] \<rparr>"
  have submit: "submit_to_log w msg (st\<lparr> ss_db := d1 \<rparr>) = (Inr root, ?st2)"
    using assms(3) body
    by (simp add: submit_to_log_def then_do_def try_or_def call_or_def submit_op_def SubmitMessage_def acknowledged_def)
  obtain ks where ks: "decode_symmetric_keys (pm_symmetric_keys msg) ?st2 = (Inr ks, ?st2)"
    "map fst ks = map fst (pm_symmetric_keys msg)"
    using decode_symmetric_keys_all [OF sym(1)] by blast
  have "insertable root ks ?t"
    using sym(2) ks(2) by (simp add: insertable_def flip: set_map)
  then obtain k d2 where "ProcessAddKey db_repo (rw_rand w) m root ks d1 = (Inr k, d2)"
    by (rule worksE [OF works_ProcessAddKey [OF d1 entropy]])
  then have add: "call_or (db_op (ProcessAddKey db_repo (rw_rand w) m root ks)) respond ?st2 = (Inr k, ?st2\<lparr> ss_db := d2 \<rparr>)"
    for respond
    by (simp add: call_or_def db_op_def)
  show ?thesis
    using assms(4-8)
    by (simp add: post_protocol_def handleProtocolMessage_def actionHandlers_def answer_def processAddKeyAction_def
        then_do_def [of _ _ st] then_do_def [of _ _ "st\<lparr> ss_db := d1 \<rparr>"] then_do_def [of _ _ ?st2]
        continue_def ensure_def try_or_def list add_key_signature_authorised [OF auth] submit ks(1) add)
qed

text \<open>C12. While the database refuses nothing and the log accepts, a well-formed AddKey is enrolled: if the
  message is signed as it must be, its symmetric keys decode and are new under the log's root, and 32
  random bytes give an identifier that is not in use, then the answer is 200, on either back end.\<close>

theorem add_key_succeeds:
  assumes "ready st" "healthy (ss_db st)" "rw_sigsum w = Answered 200 (Inr root)"
    and "\<not> is_activity_pub req" "decode_protocol (hr_body req) = Some msg"
    and "pm_context msg = PKDContextV1" "pm_action msg = ''AddKey''" "unmarshal_add_key (pm_message msg) = Inr m"
    and auth: "add_key_authorised (sv_prims env) msg m (tables_of st)"
    and sym: "\<forall>(a, s) \<in> set (pm_symmetric_keys msg). raw_url_decode s \<noteq> None"
      "insertable root (pm_symmetric_keys msg) (tables_of st)"
    and entropy: "32 \<le> length (rw_rand w)"
      "raw_url_encode (take 32 (rw_rand w)) \<notin> pk_key_id ` set (public_keys (tables_of st))"
  shows "rs_status (fst (post_protocol env w req st)) = 200"
  using assms by (rule add_key_answered)

end
