(* ===== verification/Concurrency.thy ===== *)
theory Concurrency
  imports Guarantees
begin

section \<open>Requests in flight at the same time\<close>

text \<open>
  The server runs each handler in its own goroutine; only the statements on the database are ordered. The
  handler of RevokeKey is taken apart at its effects: it reads the actor's keys and checks the signature, it
  submits to the log, it revokes in a transaction. Any number of such requests interleave at these points.
  A transaction is one point: SQLite has a single writer, and PostgreSQL locks the row to revoke.
\<close>

definition revoke_check :: "server_env \<Rightarrow> protocol_message \<Rightarrow> revoke_key_message step" where
  "revoke_check env msg =
     then_do (try_or (unmarshal_revoke_key (pm_message msg))
                (\<lambda>_. respondWithError 400 ''Invalid RevokeKey message format'')) (\<lambda>revokeMsg.
     then_do (list_keys_or (rk_actor revokeMsg) ''Failed to fetch existing keys'') (\<lambda>existingKeys.
     then_do (ensure (\<not> length existingKeys < 2)
                (respondWithError 400 ''Cannot use RevokeKey on the last remaining key'')) (\<lambda>_.
     then_do (try_or (DecodePublicKey (rk_public_key revokeMsg))
                (\<lambda>_. respondWithError 400 ''Invalid public key format in revocation message'')) (\<lambda>keyToRevoke.
     then_do (ensure (valid_signature (sv_prims env) msg (\<lambda>k. k = keyToRevoke) existingKeys)
                (respondWithError 401
                   ''Invalid signature: RevokeKey must be signed by another valid key for the actor'')) (\<lambda>_.
     continue revokeMsg)))))"

definition revoke_commit :: "protocol_message \<Rightarrow> revoke_key_message \<Rightarrow> string \<Rightarrow> response step" where
  "revoke_commit msg revokeMsg merkleRoot =
     then_do (decode_symmetric_keys (pm_symmetric_keys msg)) (\<lambda>decodedSymKeys.
     then_do (call_or (db_op (ProcessRevokeKey db_repo revokeMsg merkleRoot decodedSymKeys))
                (\<lambda>e. respondWithError 500 (''Failed to process RevokeKey in database: '' @ error_text e))) (\<lambda>_.
     continue (respondWithJSON 200 (fields_payload [(''status'', ''RevokeKey processed successfully'')]))))"

lemma then_do_assoc: "then_do (then_do f g) h = then_do f (\<lambda>x. then_do (g x) h)"
  by (auto simp: then_do_def fun_eq_iff split: prod.splits sum.splits)

lemma then_do_continue: "then_do (continue x) g = g x"
  by (simp add: then_do_def continue_def fun_eq_iff)

lemma processRevokeKeyAction_parts:
  "processRevokeKeyAction env w msg =
     then_do (revoke_check env msg) (\<lambda>m. then_do (submit_to_log w msg) (revoke_commit msg m))"
  by (simp add: processRevokeKeyAction_def revoke_check_def revoke_commit_def [abs_def] then_do_assoc then_do_continue)

subsection \<open>Interleaving\<close>

datatype phase = Arrived | Checked revoke_key_message | Submitted revoke_key_message string | Responded response

record flight =
  fl_message :: protocol_message
  fl_world :: request_world
  fl_phase :: phase

definition phase_of :: "('a \<Rightarrow> phase) \<Rightarrow> response + 'a \<Rightarrow> phase" where
  "phase_of next r = (case r of Inl resp \<Rightarrow> Responded resp | Inr x \<Rightarrow> next x)"

definition advance :: "server_env \<Rightarrow> flight \<Rightarrow> server_state \<Rightarrow> phase \<times> server_state" where
  "advance env f st =
     (case fl_phase f of
        Arrived \<Rightarrow> apfst (phase_of Checked) (revoke_check env (fl_message f) st)
      | Checked m \<Rightarrow> apfst (phase_of (Submitted m)) (submit_to_log (fl_world f) (fl_message f) st)
      | Submitted m root \<Rightarrow> apfst (phase_of Responded) (revoke_commit (fl_message f) m root st)
      | Responded r \<Rightarrow> (Responded r, st))"

inductive interleaved :: "server_env \<Rightarrow> flight list \<Rightarrow> server_state \<Rightarrow> flight list \<Rightarrow> server_state \<Rightarrow> bool"
  for env fs0 st0 where
  start: "interleaved env fs0 st0 fs0 st0"
| move: "interleaved env fs0 st0 (fs @ f # gs) st \<Longrightarrow> advance env f st = (p, st') \<Longrightarrow>
    interleaved env fs0 st0 (fs @ f\<lparr> fl_phase := p \<rparr> # gs) st'"

inductive_cases interleavedE: "interleaved env fs0 st0 fs st"

text \<open>One request alone runs through the handler.\<close>

lemma alone_is_sequential:
  assumes "answer (processRevokeKeyAction env w msg) st = (r, st')"
  shows "interleaved env [\<lparr> fl_message = msg, fl_world = w, fl_phase = Arrived \<rparr>] st
    [\<lparr> fl_message = msg, fl_world = w, fl_phase = Responded r \<rparr>] st'"
proof -
  let ?f = "\<lambda>p. \<lparr> fl_message = msg, fl_world = w, fl_phase = p \<rparr>"
  have go: "interleaved env [?f Arrived] st [?f p] s \<Longrightarrow> advance env (?f p) s = (p', s') \<Longrightarrow>
      interleaved env [?f Arrived] st [?f p'] s'" for p s p' s'
    using interleaved.move [of env "[?f Arrived]" st "[]" "?f p" "[]" s p' s'] by simp
  note start = interleaved.start [of env "[?f Arrived]" st]
  obtain x st1 where 1: "revoke_check env msg st = (x, st1)" by (cases "revoke_check env msg st")
  show ?thesis
  proof (cases x)
    case (Inl resp)
    with assms 1 have "r = resp" "st' = st1"
      by (simp_all add: processRevokeKeyAction_parts answer_def then_do_def)
    with go [OF start] 1 Inl show ?thesis by (auto simp: advance_def phase_of_def)
  next
    case (Inr m)
    from go [OF start, of "Checked m" st1] 1 Inr
    have c: "interleaved env [?f Arrived] st [?f (Checked m)] st1" by (simp add: advance_def phase_of_def)
    obtain y st2 where 2: "submit_to_log w msg st1 = (y, st2)" by (cases "submit_to_log w msg st1")
    show ?thesis
    proof (cases y)
      case (Inl resp)
      with assms 1 2 \<open>x = Inr m\<close> have "r = resp" "st' = st2"
        by (simp_all add: processRevokeKeyAction_parts answer_def then_do_def)
      with go [OF c] 2 Inl show ?thesis by (auto simp: advance_def phase_of_def)
    next
      case (Inr root)
      from go [OF c, of "Submitted m root" st2] 2 Inr
      have s: "interleaved env [?f Arrived] st [?f (Submitted m root)] st2" by (simp add: advance_def phase_of_def)
      obtain z st3 where 3: "revoke_commit msg m root st2 = (z, st3)" by (cases "revoke_commit msg m root st2")
      from assms 1 2 3 \<open>x = Inr m\<close> Inr have "z = Inl r \<or> z = Inr r" "st' = st3"
        by (auto simp: processRevokeKeyAction_parts answer_def then_do_def split: sum.splits)
      with go [OF s, of "Responded r" st3] 3 show ?thesis by (auto simp: advance_def phase_of_def)
    qed
  qed
qed

subsection \<open>What interleaving keeps\<close>

definition kept :: "server_state \<Rightarrow> server_state \<Rightarrow> bool" where
  "kept st st' \<longleftrightarrow> ready st' \<and> tables_of st' = tables_of st"

definition kept_refusing :: "server_state \<Rightarrow> response \<Rightarrow> server_state \<Rightarrow> bool" where
  "kept_refusing st r st' \<longleftrightarrow> kept st st' \<and> rs_status r \<noteq> 200"

lemma kept_intros:
  "same st st' \<Longrightarrow> kept st st'" "refused st r st' \<Longrightarrow> kept_refusing st r st'"
  "kept st st' \<Longrightarrow> code \<noteq> 200 \<Longrightarrow> kept_refusing st (respondWithError code m) st'"
  by (simp_all add: same_def refused_def kept_def kept_refusing_def)

lemma revoke_check_keeps:
  assumes "ready st"
  shows "yields (revoke_check env msg) st (kept_refusing st)
    (\<lambda>m st'. kept st st' \<and> unmarshal_revoke_key (pm_message msg) = Inr m)"
  unfolding revoke_check_def
  by (rule yields_then, rule yields_try, simp add: kept_intros(3) kept_def assms,
      rule yields_then, rule list_keys_step [OF same_refl [OF assms] kept_intros(2)], assumption,
      rule yields_then, rule yields_ensure, simp add: kept_intros,
      rule yields_then, rule yields_try, simp add: kept_intros,
      rule yields_then, rule yields_ensure, simp add: kept_intros,
      rule yields_continue, simp add: kept_intros)

lemma submit_keeps:
  assumes "ready st"
  shows "yields (submit_to_log w msg) st (kept_refusing st) (\<lambda>_. kept st)"
  by (rule submit_step [OF same_refl [OF assms] kept_intros(2)]) (simp_all add: kept_def)

lemma revoke_commit_revokes:
  assumes "ready st"
  shows "yields (revoke_commit msg m root) st (kept_refusing st)
    (\<lambda>r st'. rs_status r = 200 \<and> ready st' \<and> (\<exists>ks. revoke_spec m root ks (tables_of st) () (tables_of st')))"
  unfolding revoke_commit_def
proof (rule yields_then, rule decode_step)
  show "kept_refusing st (respondWithError 400 e) st" for e by (simp add: kept_refusing_def kept_def assms)
  fix ks
  show "yields (then_do (call_or (db_op (ProcessRevokeKey db_repo m root ks))
        (\<lambda>e. respondWithError 500 (''Failed to process RevokeKey in database: '' @ error_text e))) (\<lambda>_.
      continue (respondWithJSON 200 (fields_payload [(''status'', ''RevokeKey processed successfully'')])))) st
      (kept_refusing st) (\<lambda>r st'. rs_status r = 200 \<and> ready st' \<and> (\<exists>ks. revoke_spec m root ks (tables_of st) () (tables_of st')))"
    by (rule yields_then, rule yields_db [OF db.process_revoke_ok assms], simp add: kept_refusing_def kept_def,
        rule yields_continue) (auto simp: revoke_spec_def)
qed

subsection \<open>Counting keys\<close>

definition revokes_for :: "string \<Rightarrow> flight \<Rightarrow> bool" where
  "revokes_for a f \<longleftrightarrow>
     (case fl_phase f of Responded r \<Rightarrow> rs_status r = 200 | _ \<Rightarrow> False) \<and>
     (case unmarshal_revoke_key (pm_message (fl_message f)) of Inr m \<Rightarrow> rk_actor m = a | Inl _ \<Rightarrow> False)"

text \<open>A request past its check carries the payload of its message.\<close>

definition coherent :: "flight \<Rightarrow> bool" where
  "coherent f \<longleftrightarrow>
     (case fl_phase f of
        Checked m \<Rightarrow> unmarshal_revoke_key (pm_message (fl_message f)) = Inr m
      | Submitted m root \<Rightarrow> unmarshal_revoke_key (pm_message (fl_message f)) = Inr m
      | _ \<Rightarrow> True)"

lemma revoke_loses_one:
  assumes "wf_tables t" "revoke_spec m root ks t () t'"
  shows "length (active_keys a t) = length (active_keys a t') + (if a = rk_actor m then 1 else 0)"
proof -
  obtain k where k: "k \<in> set (active_keys (rk_actor m) t)"
    "\<And>c. mset (active_keys c t') = (if c = rk_actor m then mset (active_keys c t) - {#k#} else mset (active_keys c t))"
    using revoke_effect [OF assms] by metis
  show ?thesis
  proof (cases "a = rk_actor m")
    case True
    with k have "size (mset (active_keys a t')) = size (mset (active_keys a t)) - 1" "active_keys a t \<noteq> []"
      by (auto simp: size_Diff_singleton)
    with True show ?thesis by (cases "active_keys a t") auto
  next
    case False
    with k(2) [of a] have "mset (active_keys a t') = mset (active_keys a t)" by simp
    with False show ?thesis by (metis add.right_neutral size_mset)
  qed
qed

lemma advance_counts:
  assumes "ready st" "coherent f" "advance env f st = (p, st')"
  shows "ready st' \<and> coherent (f\<lparr> fl_phase := p \<rparr>) \<and>
    length (active_keys a (tables_of st)) + (if revokes_for a f then 1 else 0) =
    length (active_keys a (tables_of st')) + (if revokes_for a (f\<lparr> fl_phase := p \<rparr>) then 1 else 0)"
proof (cases "fl_phase f")
  case Arrived
  then show ?thesis
    using assms(3) revoke_check_keeps [OF assms(1), of env "fl_message f"]
    by (auto simp: advance_def yields_def phase_of_def coherent_def revokes_for_def kept_def kept_refusing_def
        split: prod.splits sum.splits)
next
  case (Checked m)
  then show ?thesis
    using assms submit_keeps [OF assms(1), of "fl_world f" "fl_message f"]
    by (auto simp: advance_def yields_def phase_of_def coherent_def revokes_for_def kept_def kept_refusing_def
        split: prod.splits sum.splits)
next
  case (Submitted m root)
  note out = revoke_commit_revokes [OF assms(1), of "fl_message f" m root]
  have m: "unmarshal_revoke_key (pm_message (fl_message f)) = Inr m" using assms(2) Submitted by (simp add: coherent_def)
  obtain r where r: "revoke_commit (fl_message f) m root st = (r, st')" "p = phase_of Responded r"
    using assms(3) Submitted by (cases "revoke_commit (fl_message f) m root st") (simp add: advance_def)
  show ?thesis
  proof (cases r)
    case (Inl e)
    with out r m Submitted show ?thesis
      by (simp add: yields_def phase_of_def coherent_def revokes_for_def kept_def kept_refusing_def)
  next
    case (Inr resp)
    with out r obtain ks where "rs_status resp = 200" "ready st'" "revoke_spec m root ks (tables_of st) () (tables_of st')"
      by (auto simp: yields_def)
    with revoke_loses_one [OF ready_wf [OF assms(1)] this(3), of a] Inr r m Submitted show ?thesis
      by (auto simp: phase_of_def coherent_def revokes_for_def)
  qed
next
  case (Responded r)
  then have "p = fl_phase f" "st' = st" using assms(3) by (auto simp: advance_def)
  then show ?thesis using assms(1,2) by simp
qed


subsection \<open>Given schedules\<close>

text \<open>The requests whose turn it is, by their index.\<close>

primrec run_schedule :: "server_env \<Rightarrow> nat list \<Rightarrow> flight list \<Rightarrow> server_state \<Rightarrow> flight list \<times> server_state" where
  "run_schedule env [] fs st = (fs, st)"
| "run_schedule env (i # is) fs st =
     (case advance env (fs ! i) st of (p, st') \<Rightarrow> run_schedule env is (fs[i := (fs ! i)\<lparr> fl_phase := p \<rparr>]) st')"

lemma interleaved_update:
  assumes "interleaved env fs0 st0 fs st" "i < length fs" "advance env (fs ! i) st = (p, st')"
  shows "interleaved env fs0 st0 (fs[i := (fs ! i)\<lparr> fl_phase := p \<rparr>]) st'"
proof -
  have "fs = take i fs @ (fs ! i) # drop (Suc i) fs" using assms(2) by (rule id_take_nth_drop)
  with assms(1) have "interleaved env fs0 st0 (take i fs @ (fs ! i) # drop (Suc i) fs) st" by simp
  from interleaved.move [OF this assms(3)] show ?thesis using assms(2) by (simp add: upd_conv_take_nth_drop)
qed

lemma run_schedule_interleaved:
  "interleaved env fs0 st0 fs st \<Longrightarrow> \<forall>i \<in> set is. i < length fs \<Longrightarrow> run_schedule env is fs st = (fs', st') \<Longrightarrow>
   interleaved env fs0 st0 fs' st'"
  by (induction "is" arbitrary: fs st) (auto split: prod.splits dest: interleaved_update)

end
