(* ===== verification/Envelope.thy ===== *)
theory Envelope
  imports JsonText Signing
begin

section \<open>Written envelopes are read back\<close>

text \<open>
  What \<^verbatim>\<open>json.Marshal\<close> makes of a protocol message whose payload is an object of strings, and what the
  protocol endpoint of any server decodes it to: the same message. The first part is about
  \<^verbatim>\<open>json.Marshal\<close> of a \<^verbatim>\<open>RawMessage\<close>, which compacts it: an object the program has written is compact already.
\<close>

subsection \<open>Written objects are compact\<close>

definition plain_char :: "char \<Rightarrow> bool" where
  "plain_char c \<longleftrightarrow> c \<notin> {CHR ''<'', CHR ''>'', CHR ''&'', CHR 0xE2}"

lemma separators_start: "take 3 (c # y) = line_separator \<or> take 3 (c # y) = paragraph_separator \<Longrightarrow> c = CHR 0xE2"
  by (auto simp: line_separator_def paragraph_separator_def)

declare compact.simps(2) [simp del]

lemma compact_char:
  assumes "plain_char c"
  shows "compact False False (c # y) =
      (if is_space c then compact (c = CHR 0x22) False y else c # compact (c = CHR 0x22) False y)"
    "compact True e (c # y) = c # compact (e \<or> c \<noteq> CHR 0x22) (\<not> e \<and> c = CHR 0x5C) y"
proof -
  have "c \<noteq> CHR ''<''" "c \<noteq> CHR ''>''" "c \<noteq> CHR ''&''" "take 3 (c # y) \<noteq> line_separator" "take 3 (c # y) \<noteq> paragraph_separator"
    using assms separators_start [of c y] by (auto simp: plain_char_def)
  then show "compact False False (c # y) =
      (if is_space c then compact (c = CHR 0x22) False y else c # compact (c = CHR 0x22) False y)"
    "compact True e (c # y) = c # compact (e \<or> c \<noteq> CHR 0x22) (\<not> e \<and> c = CHR 0x5C) y"
    by (simp_all add: compact.simps(2) Let_def)
qed

lemma plain_hex: "n < 16 \<Longrightarrow> plain_char (hex_digit n) \<and> hex_digit n \<noteq> CHR 0x22 \<and> hex_digit n \<noteq> CHR 0x5C"
proof -
  have "list_all (\<lambda>n. plain_char (hex_digit n) \<and> hex_digit n \<noteq> CHR 0x22 \<and> hex_digit n \<noteq> CHR 0x5C) [0..<16]"
    by code_simp
  then show "n < 16 \<Longrightarrow> plain_char (hex_digit n) \<and> hex_digit n \<noteq> CHR 0x22 \<and> hex_digit n \<noteq> CHR 0x5C"
    by (simp add: list_all_iff del: upt_rec_numeral)
qed

lemma plain_escapes: "plain_char (CHR 0x5C)" "plain_char (CHR 0x22)" "plain_char (CHR ''u'')"
  "plain_char (CHR ''b'')" "plain_char (CHR ''f'')" "plain_char (CHR ''n'')" "plain_char (CHR ''r'')" "plain_char (CHR ''t'')"
  by (simp_all add: plain_char_def)

lemma compact_unicode_escape:
  assumes "n < 65536"
  shows "compact True False (unicode_escape n @ y) = unicode_escape n @ compact True False y"
proof -
  have "n div 4096 < 16" "n div 256 mod 16 < 16" "n div 16 mod 16 < 16" "n mod 16 < 16"
    using assms by (simp_all add: less_mult_imp_div_less)
  note h = this [THEN plain_hex]
  show ?thesis by (simp add: unicode_escape_def compact_char plain_escapes h)
qed

lemma compact_ascii_escape:
  assumes "of_char c < (128 :: nat)"
  shows "compact True False (ascii_escape c @ y) = ascii_escape c @ compact True False y"
proof -
  have "plain_char c" if "c \<noteq> CHR ''<''" "c \<noteq> CHR ''>''" "c \<noteq> CHR ''&''"
    using that assms by (auto simp: plain_char_def)
  moreover have "(of_char c :: nat) < 65536" using assms by simp
  ultimately show ?thesis
    by (auto simp: ascii_escape_def compact_unicode_escape compact_char plain_escapes)
qed

lemma compact_tail_bytes:
  "list_all (\<lambda>c. cont_byte (of_char c)) u \<Longrightarrow> compact True False (u @ y) = u @ compact True False y"
proof (induction u)
  case (Cons c u)
  then have "plain_char c" "c \<noteq> CHR 0x22" "c \<noteq> CHR 0x5C"
    by (auto simp: plain_char_def cont_byte_def)
  with Cons show ?case by (simp add: compact_char)
qed simp

lemma utf8_len_tail:
  assumes "utf8_len (c # r) = Suc k"
  shows "list_all (\<lambda>c. cont_byte (of_char c)) (take k r)"
  using assms
  by (auto simp: utf8_len_def Let_def utf8_tail_def list_all_iff take_map min_def image_iff split: if_splits)

lemma compact_multi:
  assumes "utf8_len (c # r) = Suc k" "128 \<le> (of_char c :: nat)"
    and "take (Suc k) (c # r) \<noteq> line_separator" "take (Suc k) (c # r) \<noteq> paragraph_separator"
  shows "compact True False (take (Suc k) (c # r) @ y) = take (Suc k) (c # r) @ compact True False y"
proof -
  have t: "list_all (\<lambda>c. cont_byte (of_char c)) (take k r)" using assms(1) by (rule utf8_len_tail)
  have sep: "take 3 (c # (take k r @ y)) \<noteq> line_separator" "take 3 (c # (take k r @ y)) \<noteq> paragraph_separator"
  proof -
    have "Suc k = 3" if "c = CHR 0xE2"
      using assms(1) that by (auto simp: utf8_len_def Let_def utf8_lead_def split: if_splits)
    moreover have "Suc k \<le> length (c # r)" using utf8_len_prefix(1) [OF assms(1)] by simp
    ultimately have "take 3 (c # (take k r @ y)) = take (Suc k) (c # r)" if "c = CHR 0xE2"
      using that by (auto simp: min_def numeral_3_eq_3)
    with assms(3,4) separators_start [of c "take k r @ y"]
    show "take 3 (c # (take k r @ y)) \<noteq> line_separator" "take 3 (c # (take k r @ y)) \<noteq> paragraph_separator"
      by metis+
  qed
  have "c \<noteq> CHR ''<''" "c \<noteq> CHR ''>''" "c \<noteq> CHR ''&''" "c \<noteq> CHR 0x22" "c \<noteq> CHR 0x5C" using assms(2) by auto
  with sep compact_tail_bytes [OF t, of y] show ?thesis by (simp add: compact.simps(2) Let_def)
qed

lemma compact_json_escape:
  "compact True False (json_escape s @ CHR 0x22 # y) = json_escape s @ CHR 0x22 # compact False False y"
proof (induction s rule: measure_induct_rule [where f = length])
  case (less s)
  show ?case
  proof (cases s)
    case Nil
    then show ?thesis by (simp add: json_escape.simps compact_char plain_escapes)
  next
    case (Cons c r)
    have IH: "compact True False (json_escape u @ CHR 0x22 # y) = json_escape u @ CHR 0x22 # compact False False y"
      if "length u \<le> length r" for u
      using less.IH [of u] Cons that by auto
    show ?thesis
    proof (cases "of_char c < (128 :: nat)")
      case True
      then show ?thesis using IH [of r] Cons by (simp add: json_escape.simps compact_ascii_escape)
    next
      case False
      show ?thesis
      proof (cases "utf8_len (c # r)")
        case 0
        with False show ?thesis using IH [of r] Cons by (simp add: json_escape.simps compact_unicode_escape)
      next
        case (Suc k)
        with False show ?thesis
          using IH [of "drop k r"] Cons compact_multi [OF Suc]
          by (auto simp: json_escape.simps compact_unicode_escape Let_def)
      qed
    qed
  qed
qed

lemma compact_json_string: "compact False False (json_string s @ y) = json_string s @ compact False False y"
  by (simp add: json_string_def compact_char plain_escapes compact_json_escape)

lemma compact_punctuation:
  "compact False False (CHR '':'' # y) = CHR '':'' # compact False False y"
  "compact False False (CHR '','' # y) = CHR '','' # compact False False y"
  "compact False False (CHR ''{'' # y) = CHR ''{'' # compact False False y"
  "compact False False (CHR ''}'' # y) = CHR ''}'' # compact False False y"
  by (simp_all add: compact_char plain_char_def)

lemma compact_object_fields:
  "compact False False (object_fields (map (\<lambda>(k, v). (k, json_string v)) fs) @ CHR ''}'' # y) =
   object_fields (map (\<lambda>(k, v). (k, json_string v)) fs) @ CHR ''}'' # compact False False y"
proof (induction fs)
  case (Cons kv fs)
  obtain k v where "kv = (k, v)" by (cases kv)
  then show ?case
    using Cons by (cases fs) (auto simp: compact_json_string compact_punctuation)
qed (simp add: compact_punctuation)

text \<open>An object of string fields.\<close>

definition string_object :: "(string \<times> string) list \<Rightarrow> string" where
  "string_object fs = json_object (map (\<lambda>(k, v). (k, json_string v)) fs)"

lemma marshal_raw_strings:
  assumes "fs \<noteq> []"
  shows "marshal_raw (string_object fs) = Some (string_object fs)"
proof -
  have "compact False False (string_object fs) = string_object fs"
    unfolding string_object_def json_object_def
    using compact_object_fields [of fs "[]"] by (simp add: compact_punctuation)
  moreover have "json_parse (string_object fs) \<noteq> None"
    using json_parse_object [OF assms] by (simp add: string_object_def)
  ultimately show ?thesis
    by (auto simp: marshal_raw_def string_object_def json_object_def)
qed

subsection \<open>The envelope on the other side\<close>

lemma reads_as_mono: "reads_as n d t v \<Longrightarrow> n \<le> m \<Longrightarrow> reads_as m d t v"
  by (auto simp: reads_as_def)

definition string_values :: "(string \<times> string) list \<Rightarrow> (string \<times> string \<times> json) list" where
  "string_values fs = map (\<lambda>(k, v). (k, json_string v, JStr (to_valid_utf8 v))) fs"

lemma written_string_values [simp]: "json_object (written (string_values fs)) = string_object fs"
  by (simp add: written_def string_values_def string_object_def comp_def case_prod_unfold)

lemma string_values_size [simp]: "length (string_values fs) = length fs" "string_values fs = [] \<longleftrightarrow> fs = []"
  by (simp_all add: string_values_def)

lemma reads_as_strings:
  assumes "fs \<noteq> []" "0 < d"
  shows "reads_as (length fs + 2) d (string_object fs) (JObj (read_members (string_values fs)))"
proof -
  have "\<forall>(k, t, v) \<in> set (string_values fs). reads_as 1 (d - 1) t v"
    by (auto simp: string_values_def intro: reads_as_string [unfolded One_nat_def])
  from reads_as_object [OF _ this] show ?thesis using assms by simp
qed

text \<open>A message without key identifier and one-time password, and the members of its text with their values.\<close>

definition sent_message :: "string \<Rightarrow> (string \<times> string) list \<Rightarrow> string \<Rightarrow> (string \<times> string) list \<Rightarrow> protocol_message" where
  "sent_message action fs sig syms =
     \<lparr> pm_context = PKDContextV1, pm_action = action, pm_key_id = [], pm_message = string_object fs,
       pm_recent_merkle_root = [], pm_signature = sig, pm_symmetric_keys = syms, pm_otp = [] \<rparr>"

definition envelope_values ::
  "string \<Rightarrow> (string \<times> string) list \<Rightarrow> string \<Rightarrow> (string \<times> string) list \<Rightarrow> (string \<times> string \<times> json) list" where
  "envelope_values action fs sig syms =
     [(''!pkd-context'', json_string PKDContextV1, JStr PKDContextV1),
      (''action'', json_string action, JStr (to_valid_utf8 action)),
      (''message'', string_object fs, JObj (read_members (string_values fs))),
      (''recent-merkle-root'', json_string [], JStr []),
      (''signature'', json_string sig, JStr (to_valid_utf8 sig))] @
     (if syms = [] then []
      else [(''symmetric-keys'', string_object (sort_key fst syms), JObj (read_members (string_values (sort_key fst syms))))])"

lemma marshal_string_map_sorted: "marshal_string_map m = string_object (sort_key fst m)"
  by (simp add: marshal_string_map_def string_object_def)

lemma marshal_sent:
  "fs \<noteq> [] \<Longrightarrow> marshal_protocol (sent_message action fs sig syms) = Inr (json_object (written (envelope_values action fs sig syms)))"
  by (cases "syms = []")
    (simp_all add: marshal_protocol_def sent_message_def marshal_raw_strings omit_empty_def written_def envelope_values_def
      marshal_string_map_sorted)

lemma sort_key_nonempty: "syms \<noteq> [] \<Longrightarrow> sort_key f syms \<noteq> []"
  by (metis length_sort length_0_conv)

lemma envelope_reads:
  assumes "fs \<noteq> []"
  shows "\<forall>(k, t, v) \<in> set (envelope_values action fs sig syms).
    reads_as (length fs + length syms + 2) (max_depth - 1) t v"
proof -
  have str: "reads_as (length fs + length syms + 2) d (json_string s) (JStr (to_valid_utf8 s))" for d s
    by (rule reads_as_mono [OF reads_as_string]) simp
  have texts: "to_valid_utf8 PKDContextV1 = PKDContextV1" "to_valid_utf8 [] = []"
    by (rule to_valid_utf8_ascii, code_simp)+
  have obj: "reads_as (length fs + length syms + 2) (max_depth - 1) (string_object gs) (JObj (read_members (string_values gs)))"
    if "gs \<noteq> []" "length gs \<le> length fs + length syms" for gs
    by (rule reads_as_mono [OF reads_as_strings [OF that(1)]]) (use that(2) in \<open>simp_all add: max_depth_def\<close>)
  from str [of "max_depth - 1" PKDContextV1] str [of "max_depth - 1" "[]"] str obj [OF assms]
    obj [OF sort_key_nonempty, of syms fst]
  show ?thesis by (auto simp: envelope_values_def texts)
qed

text \<open>No name of the envelope is taken for another, up to the folding of case.\<close>

lemma envelope_names:
  "list_all (\<lambda>n. list_all (\<lambda>k. to_valid_utf8 k = k \<and> names_field n k = (n = k))
       [''!pkd-context'', ''action'', ''message'', ''recent-merkle-root'', ''signature'', ''symmetric-keys''])
     [''!pkd-context'', ''action'', ''key-id'', ''message'', ''recent-merkle-root'', ''signature'', ''otp'', ''symmetric-keys'']"
  by code_simp

text \<open>A map of strings is read back, if no two keys are the same.\<close>

definition map_text :: "(string \<times> string) list \<Rightarrow> bool" where
  "map_text m \<longleftrightarrow> distinct (map fst m) \<and> (\<forall>(k, v) \<in> set m. to_valid_utf8 k = k \<and> to_valid_utf8 v = v)"

lemma map_text_sorted: "map_text m \<Longrightarrow> map_text (sort_key fst m)"
  by (auto simp: map_text_def distinct_map)

lemma set_entry_new: "k \<notin> fst ` set m \<Longrightarrow> set_entry k v m = m @ [(k, v)]"
  by (induction m) auto

lemma set_entries_text: "map_text m \<Longrightarrow> fst ` set m \<inter> fst ` set acc = {} \<Longrightarrow>
  set_entries acc (read_members (string_values m)) = acc @ m"
proof (induction m arbitrary: acc)
  case (Cons kv m)
  obtain k v where kv: "kv = (k, v)" by (cases kv)
  with Cons.prems have "set_entry k v acc = acc @ [(k, v)]" by (intro set_entry_new) auto
  moreover have "map_text m" "fst ` set m \<inter> fst ` set (acc @ [(k, v)]) = {}"
    using Cons.prems by (auto simp: map_text_def kv)
  ultimately show ?case
    using Cons.IH [of "acc @ [(k, v)]"] Cons.prems(1) by (simp add: kv read_members_def string_values_def map_text_def)
qed (simp add: read_members_def string_values_def)

lemma string_or_null_JStr: "string_or_null (JStr s)"
  by (simp add: string_or_null_def)

lemma string_values_strings: "list_all (\<lambda>(_, _, e). string_or_null e) (read_members (string_values m))"
  by (auto simp: list_all_iff read_members_def string_values_def string_or_null_def)

lemma decode_sent:
  assumes "fs \<noteq> []" "to_valid_utf8 action = action" "to_valid_utf8 sig = sig" "map_text syms"
  shows "decode_protocol (json_object (written (envelope_values action fs sig syms))) =
    Some (sent_message action fs sig (sort_key fst syms))"
proof -
  let ?ev = "envelope_values action fs sig syms"
  have "length (string_object fs) + (if syms = [] then 0 else length (string_object (sort_key fst syms))) + 20
      \<le> length (json_object (written ?ev))"
    by (simp add: json_object_def written_def envelope_values_def json_string_def)
  moreover have "length gs \<le> length (string_object gs)" for gs
    using length_object_fields [of "map (\<lambda>(k, v). (k, json_string v)) gs"] by (simp add: string_object_def json_object_def)
  then have "length fs \<le> length (string_object fs)" "length syms \<le> length (string_object (sort_key fst syms))"
    by (metis length_sort)+
  ultimately have "Suc (length ?ev + (length fs + length syms + 2)) \<le> 2 * length (json_object (written ?ev)) + 2"
    by (auto simp: envelope_values_def split: if_splits)
  then have first: "json_first (json_object (written ?ev)) = Some (JObj (read_members ?ev))"
    by (intro json_object_written(2) [OF _ envelope_reads [OF assms(1)]]) (simp_all add: envelope_values_def)
  have syms: "set_entries [] (read_members (string_values (sort_key fst syms))) = sort_key fst syms"
    using set_entries_text [OF map_text_sorted [OF assms(4)], of "[]"] by simp
  show ?thesis
    unfolding decode_protocol_def first
    using envelope_names assms(2,3) string_values_strings
    by (cases "syms = []")
      (simp_all add: members_of_def read_members_def [of "_ # _"] envelope_values_def string_field_ok_def
        map_field_ok_def string_or_null_JStr sent_message_def syms)
qed

lemma base64_valid: "to_valid_utf8 (raw_url_encode b) = raw_url_encode b"
proof (rule to_valid_utf8_ascii, rule ballI)
  fix c
  assume "c \<in> set (raw_url_encode b)"
  moreover have "list_all (\<lambda>c. of_char c < (128 :: nat)) url_alphabet" by code_simp
  ultimately show "of_char c < (128 :: nat)" using raw_url_encode_chars [of b] by (auto simp: list_all_iff)
qed

end
