(* ===== verification/Client.thy ===== *)
theory Client
  imports Liveness Envelope
begin

section \<open>A client that enrols a key\<close>

text \<open>
  \<^verbatim>\<open>AddSampleKey\<close> of \<^verbatim>\<open>internal/testutil/helpers.go\<close>, the one client of the protocol in the
  repository: it makes a key, signs an AddKey message for it, posts it, and reads the key's identifier from
  the answer. The last part runs it against the server.
\<close>

definition marshal_add_key :: "add_key_message \<Rightarrow> string" where
  "marshal_add_key m =
     string_object [(''actor'', ak_actor m), (''time'', ak_time m), (''public-key'', ak_public_key m)]"

definition client_request :: "string \<Rightarrow> http_request" where
  "client_request body =
     \<lparr> hr_method = ''POST'', hr_path = ''/protocol'', hr_host = ''example.com'',
       hr_headers = [(''Content-Type'', ''application/json'')], hr_body = body, hr_body_end = EndOfBody, hr_cut = False \<rparr>"

text \<open>\<^verbatim>\<open>json.NewDecoder(body).Decode(&m)\<close> for a \<^verbatim>\<open>map[string]string\<close>.\<close>

definition decode_string_map :: "string \<Rightarrow> (string \<times> string) list option" where
  "decode_string_map body =
     (case Option.bind (json_first body) members_of of
        None \<Rightarrow> None
      | Some ms \<Rightarrow> if list_all (\<lambda>(_, _, v). string_or_null v) ms then Some (set_entries [] ms) else None)"

text \<open>
  \<open>generated\<close> is what \<^verbatim>\<open>ed25519.GenerateKey\<close> returns, \<open>signingKey\<close> may be nil. \<open>None\<close>: signing panics.
\<close>

definition AddSampleKey ::
  "prims \<Rightarrow> (http_request \<Rightarrow> server_state \<Rightarrow> response \<times> server_state) \<Rightarrow> (bytes \<times> bytes) result \<Rightarrow> nat \<Rightarrow> string \<Rightarrow>
   bytes option \<Rightarrow> (string \<times> string) list \<Rightarrow> server_state \<Rightarrow>
   ((string \<times> bytes \<times> bytes) result \<times> server_state) option" where
  "AddSampleKey P post generated now username signingKey symKeys st =
     (case generated of
        Inl e \<Rightarrow> Some (Inl e, st)
      | Inr (pub, priv) \<Rightarrow>
          (let addKeyMsgBytes = marshal_add_key
                 \<lparr> ak_actor = username, ak_time = rfc3339 now, ak_public_key = EncodePublicKey pub \<rparr>;
               key = (case signingKey of None \<Rightarrow> priv | Some k \<Rightarrow> k);
               signedMsg = \<lparr> sm_context = PKDContextV1, sm_action = ''AddKey'', sm_message = addKeyMsgBytes,
                             sm_recent_merkle_root = [] \<rparr> in
           case marshal_signed signedMsg of
             Inl e \<Rightarrow> Some (Inl e, st)
           | Inr tempBytes \<Rightarrow>
               (case jcs_transform P tempBytes of
                  Inl e \<Rightarrow> Some (Inl e, st)
                | Inr signedMsgBytes \<Rightarrow>
                    (case SignMessage P key (bytes_of_string signedMsgBytes) of
                       None \<Rightarrow> None
                     | Some signature \<Rightarrow>
                         (case marshal_protocol
                                 \<lparr> pm_context = sm_context signedMsg, pm_action = sm_action signedMsg, pm_key_id = [],
                                   pm_message = sm_message signedMsg, pm_recent_merkle_root = [],
                                   pm_signature = signature, pm_symmetric_keys = symKeys, pm_otp = [] \<rparr> of
                            Inl e \<Rightarrow> Some (Inl e, st)
                          | Inr protoMsgBytes \<Rightarrow>
                              (case post (client_request protoMsgBytes) st of
                                 (resp, st') \<Rightarrow>
                                   if rs_status resp \<noteq> 200
                                   then Some (Inl (Errorf (''failed to add key, status: '' @ decimal (rs_status resp) @
                                                '', body: '' @ rs_body resp)), st')
                                   else
                                     (case decode_string_map (rs_body resp) of
                                        None \<Rightarrow> Some (Inl json_error, st')
                                      | Some addKeyResp \<Rightarrow>
                                          Some (Inr (case map_of addKeyResp ''key_id'' of None \<Rightarrow> [] | Some i \<Rightarrow> i, pub, priv),
                                            st'))))))))"

subsection \<open>Against the server\<close>

lemma unmarshal_marshal_add_key:
  "unmarshal_add_key (marshal_add_key m) =
     Inr \<lparr> ak_actor = to_valid_utf8 (ak_actor m), ak_time = to_valid_utf8 (ak_time m),
           ak_public_key = to_valid_utf8 (ak_public_key m) \<rparr>"
proof -
  let ?fs = "[(''actor'', ak_actor m), (''time'', ak_time m), (''public-key'', ak_public_key m)]"
  let ?f = "\<lambda>n. string_field n [] (string_members ?fs)"
  have names: "distinct (map fold_name [''actor'', ''time'', ''public-key''])" "list_all ascii [''actor'', ''time'', ''public-key'']"
    by code_simp+
  have "unmarshal_struct (marshal_add_key m) [''actor'', ''time'', ''public-key''] [''actor'', ''time'', ''public-key''] = Inr ?f"
    unfolding marshal_add_key_def string_object_def
    by (rule unmarshal_struct_object) (use names(2) in simp_all)
  moreover have "?f n = to_valid_utf8 v" if "(n, v) \<in> set ?fs" for n v
    using that by (intro string_members_field) (use names in simp_all)
  ultimately show ?thesis by (simp add: unmarshal_add_key_def)
qed

lemma decode_add_key_answer:
  assumes "to_valid_utf8 i = i"
  shows "\<exists>m. decode_string_map (marshal_string_map [(''key_id'', i), (''merkle_root'', root)]) = Some m \<and>
    map_of m ''key_id'' = Some i"
proof -
  let ?fs = "[(''key_id'', i), (''merkle_root'', root)]"
  have "(''key_id'' :: string) \<le> ''merkle_root''" "(''merkle_root'' :: string) \<noteq> ''key_id''" by code_simp+
  then have sorted: "sort_key fst ?fs = ?fs" by simp
  have "reads_as 4 max_depth (string_object ?fs) (JObj (read_members (string_values ?fs)))"
    using reads_as_strings [of ?fs max_depth] by (simp add: max_depth_def numeral_eq_Suc)
  moreover have "4 \<le> 2 * length (string_object ?fs) + 2" by (simp add: string_object_def json_object_def)
  ultimately have first: "json_first (string_object ?fs) = Some (JObj (read_members (string_values ?fs)))"
    by (rule reads_as_parse)
  have names: "to_valid_utf8 ''key_id'' = ''key_id''" "to_valid_utf8 ''merkle_root'' = ''merkle_root''"
    by (rule to_valid_utf8_ascii, code_simp)+
  show ?thesis
    unfolding marshal_string_map_sorted sorted decode_string_map_def first
    by (simp add: members_of_def read_members_def string_values_def string_or_null_JStr names assms)
qed

lemma public_key_valid: "to_valid_utf8 (EncodePublicKey pk) = EncodePublicKey pk"
proof (rule to_valid_utf8_ascii, rule ballI)
  fix c
  assume "c \<in> set (EncodePublicKey pk)"
  moreover have "list_all (\<lambda>c. of_char c < (128 :: nat)) (ed25519Prefix @ url_alphabet)" by code_simp
  ultimately show "of_char c < (128 :: nat)"
    using raw_url_encode_chars [of pk] by (auto simp: list_all_iff EncodePublicKey_def)
qed


end
