(* ===== verification/Twins.thy ===== *)
theory Twins
  imports Guarantees
begin

section \<open>The two back ends side by side\<close>

text \<open>
  SQLite and PostgreSQL behind the same server: from the same tables and sequences, under the same
  refusals of the driver, and within one second, both give the same answers and end in the same tables. A
  failed call is the exception: a sequence of PostgreSQL does not fall back, so later identifiers differ.

  \<open>agree E A B f g\<close> relates two calls, or two handlers: from states in relation \<open>A\<close> both fail in the same way,
  in states in relation \<open>E\<close>, or both succeed with the same result, in states in relation \<open>B\<close>.
\<close>

definition matched ::
  "('e \<Rightarrow> 's \<Rightarrow> 't \<Rightarrow> bool) \<Rightarrow> ('s \<Rightarrow> 't \<Rightarrow> bool) \<Rightarrow> ('e + 'a) \<times> 's \<Rightarrow> ('e + 'a) \<times> 't \<Rightarrow> bool" where
  "matched E B x y \<longleftrightarrow>
     fst x = fst y \<and> (case fst x of Inl e \<Rightarrow> E e (snd x) (snd y) | Inr _ \<Rightarrow> B (snd x) (snd y))"

definition agree ::
  "('e \<Rightarrow> 's \<Rightarrow> 't \<Rightarrow> bool) \<Rightarrow> ('s \<Rightarrow> 't \<Rightarrow> bool) \<Rightarrow> ('s \<Rightarrow> 't \<Rightarrow> bool) \<Rightarrow>
   ('s \<Rightarrow> ('e + 'a) \<times> 's) \<Rightarrow> ('t \<Rightarrow> ('e + 'a) \<times> 't) \<Rightarrow> bool" where
  "agree E A B f g \<longleftrightarrow> (\<forall>s t. A s t \<longrightarrow> matched E B (f s) (g t))"

lemma agreeI: "(\<And>s t. A s t \<Longrightarrow> matched E B (f s) (g t)) \<Longrightarrow> agree E A B f g"
  by (simp add: agree_def)

lemma agreeD: "agree E A B f g \<Longrightarrow> A s t \<Longrightarrow> matched E B (f s) (g t)"
  by (simp add: agree_def)

lemma matched_fail: "E e s t \<Longrightarrow> matched E B (Inl e, s) (Inl e, t)"
  by (simp add: matched_def)

lemma matched_ok: "B s t \<Longrightarrow> matched E B (Inr x, s) (Inr x, t)"
  by (simp add: matched_def)

lemma matched_cases:
  assumes "matched E B (f s) (g t)"
  obtains (Error) e s' t' where "f s = (Inl e, s')" "g t = (Inl e, t')" "E e s' t'"
  | (Ok) x s' t' where "f s = (Inr x, s')" "g t = (Inr x, t')" "B s' t'"
  using assms by (cases "f s"; cases "g t") (auto simp: matched_def split: sum.splits)

subsection \<open>Calls\<close>

lemma agree_bind:
  assumes "agree E A B f g" "\<And>x. agree E B C (h x) (k x)"
  shows "agree E A C (bind_op f h) (bind_op g k)"
proof (rule agreeI)
  fix s t
  assume "A s t"
  with assms(1) have "matched E B (f s) (g t)" by (rule agreeD)
  then show "matched E C (bind_op f h s) (bind_op g k t)"
    by (cases rule: matched_cases) (auto simp: bind_op_def matched_def dest: agreeD [OF assms(2)])
qed

lemma agree_wrapping:
  "agree (\<lambda>_. E) A B f g \<Longrightarrow> agree (\<lambda>_. E) A B (wrapping m f) (wrapping m g)"
  by (rule agreeI, drule (1) agreeD, erule matched_cases) (simp_all add: wrapping_def matched_def)

lemma agree_return: "agree E A A (return_op x) (return_op x)"
  by (rule agreeI) (simp add: return_op_def matched_def)

lemma agree_fail: "(\<And>s t. A s t \<Longrightarrow> E s t) \<Longrightarrow> agree (\<lambda>_. E) A B (fail_op e) (fail_op e)"
  by (rule agreeI) (simp add: fail_op_def matched_def)

lemma agree_lift: "(\<And>s t. A s t \<Longrightarrow> E s t) \<Longrightarrow> agree (\<lambda>_. E) A A (lift_op r) (lift_op r)"
  by (rule agreeI) (simp add: lift_op_def matched_def split: sum.split)

lemma agree_reject: "(\<And>s t. A s t \<Longrightarrow> E s t) \<Longrightarrow> agree (\<lambda>_. E) A A (reject b e) (reject b e)"
  by (simp add: reject_def agree_fail agree_return)

lemma agree_option:
  "agree E A B f g \<Longrightarrow> (\<And>y. agree E A B (h y) (k y)) \<Longrightarrow>
   agree E A B (case x of None \<Rightarrow> f | Some y \<Rightarrow> h y) (case x of None \<Rightarrow> g | Some y \<Rightarrow> k y)"
  by (cases x) simp_all

lemma agree_if:
  "agree E A B f g \<Longrightarrow> agree E A B h k \<Longrightarrow> agree E A B (if b then f else h) (if b then g else k)"
  by simp

lemma agree_each:
  "(\<And>x. agree E A A (f x) (g x)) \<Longrightarrow> agree E A A (each_op f xs) (each_op g xs)"
proof (induction xs)
  case (Cons x xs)
  show ?case by (simp, rule agree_bind, rule Cons.prems, rule Cons.IH, rule Cons.prems)
qed (simp add: agree_return)

lemma agree_closing:
  assumes "agree (\<lambda>_. E) A A f g" "agree (\<lambda>_. E) A A c d"
    and "\<And>s t. E s t \<Longrightarrow> E (snd (c s)) (snd (d t))"
  shows "agree (\<lambda>_. E) A A (closing m c f) (closing m d g)"
proof (rule agreeI)
  fix s t
  assume "A s t"
  with assms(1) have "matched (\<lambda>_. E) A (f s) (g t)" by (rule agreeD)
  then show "matched (\<lambda>_. E) A (closing m c f s) (closing m d g t)"
  proof (cases rule: matched_cases)
    case (Error e s' t')
    then show ?thesis
      using assms(3) [of s' t'] by (auto simp: closing_def matched_def split: prod.split)
  next
    case (Ok x s' t')
    from agreeD [OF assms(2) Ok(3)] show ?thesis
      by (cases rule: matched_cases) (use Ok in \<open>simp_all add: closing_def matched_def\<close>)
  qed
qed

subsection \<open>Repositories that agree\<close>

text \<open>
  Two repositories with a relation of the handles outside a transaction, one inside, and one for what is
  left after an error. A client written over the interface then agrees as well.
\<close>

locale twin_repositories =
  fixes R1 :: "'s repo" and R2 :: "'t repo"
    and parted idle busy :: "'s \<Rightarrow> 't \<Rightarrow> bool"
  assumes idle_parted: "idle s t \<Longrightarrow> parted s t"
    and busy_parted: "busy s t \<Longrightarrow> parted s t"
    and twin_begin: "agree (\<lambda>_. parted) idle busy (BeginTx R1) (BeginTx R2)"
    and twin_commit: "agree (\<lambda>_. parted) busy idle (Commit R1) (Commit R2)"
    and rollback_parted: "parted s t \<Longrightarrow> parted (snd (Rollback R1 s)) (snd (Rollback R2 t))"
    and rollback_idle: "idle s t \<Longrightarrow> idle (snd (Rollback R1 s)) (snd (Rollback R2 t))"
    and twin_get_or_create: "agree (\<lambda>_. parted) busy busy (GetOrCreateActor R1 a) (GetOrCreateActor R2 a)"
    and twin_tx_find_actor: "agree (\<lambda>_. parted) busy busy (TxFindActorByActorID R1 a) (TxFindActorByActorID R2 a)"
    and twin_actor_exists: "agree (\<lambda>_. parted) busy busy (ActorExists R1 a) (ActorExists R2 a)"
    and twin_update_actor_id: "agree (\<lambda>_. parted) busy busy (UpdateActorID R1 a b) (UpdateActorID R2 a b)"
    and twin_insert_public_key: "agree (\<lambda>_. parted) busy busy (InsertPublicKey R1 k) (InsertPublicKey R2 k)"
    and twin_find_key_to_revoke: "agree (\<lambda>_. parted) busy busy (FindKeyToRevoke R1 a b) (FindKeyToRevoke R2 a b)"
    and twin_revoke_key: "agree (\<lambda>_. parted) busy busy (RevokeKey R1 i b) (RevokeKey R2 i b)"
    and twin_get_message_hashes: "agree (\<lambda>_. parted) busy busy (GetMessageHashesForActor R1 i) (GetMessageHashesForActor R2 i)"
    and twin_revoke_all_keys: "agree (\<lambda>_. parted) busy busy (RevokeAllKeysForActor R1 i b) (RevokeAllKeysForActor R2 i b)"
    and twin_insert_aux_data: "agree (\<lambda>_. parted) busy busy (InsertAuxData R1 d) (InsertAuxData R2 d)"
    and twin_revoke_aux_data: "agree (\<lambda>_. parted) busy busy (RevokeAuxData R1 a b c) (RevokeAuxData R2 a b c)"
    and twin_store_symmetric_keys: "agree (\<lambda>_. parted) busy busy (StoreSymmetricKeys R1 a ks) (StoreSymmetricKeys R2 a ks)"
    and twin_delete_symmetric_keys: "agree (\<lambda>_. parted) busy busy (DeleteSymmetricKeysByHashes R1 hs) (DeleteSymmetricKeysByHashes R2 hs)"
    and twin_set_fireproof: "agree (\<lambda>_. parted) idle idle (SetFireproof R1 a v) (SetFireproof R2 a v)"
    and twin_list_keys: "agree (\<lambda>_. parted) idle idle (ListKeysForActor R1 a) (ListKeysForActor R2 a)"
    and twin_store_message: "agree (\<lambda>_. parted) idle idle (StoreMessage R1 a b m) (StoreMessage R2 a b m)"
    and twin_get_totp: "agree (\<lambda>_. parted) idle idle (GetTOTPSecret R1 a) (GetTOTPSecret R2 a)"
begin

lemma twin_with_tx:
  assumes "agree (\<lambda>_. parted) busy idle f g"
  shows "agree (\<lambda>_. parted) idle idle (with_tx R1 f) (with_tx R2 g)"
  unfolding with_tx_def
proof (rule agree_bind [OF agree_wrapping [OF twin_begin]], rule agreeI)
  fix s t
  assume "busy s t"
  with assms have "matched (\<lambda>_. parted) idle (f s) (g t)" by (rule agreeD)
  then show "matched (\<lambda>_. parted) idle (case f s of (r, s1) \<Rightarrow> (r, snd (Rollback R1 s1)))
      (case g t of (r, s1) \<Rightarrow> (r, snd (Rollback R2 s1)))"
    by (cases rule: matched_cases) (auto simp: matched_def rollback_parted rollback_idle)
qed

lemma twin_store_if_any:
  "agree (\<lambda>_. parted) busy busy (store_if_any R1 m root ks) (store_if_any R2 m root ks)"
  by (simp add: store_if_any_def agree_return agree_wrapping twin_store_symmetric_keys)

lemma twin_local:
  "agree (\<lambda>_. parted) busy B (fail_op e) (fail_op e)" "agree (\<lambda>_. parted) busy busy (lift_op r) (lift_op r)"
  "agree (\<lambda>_. parted) busy busy (reject b e) (reject b e)"
  by (simp_all add: agree_fail agree_lift agree_reject busy_parted)

lemmas twin_calls =
  agree_bind agree_wrapping agree_option agree_if agree_return twin_local twin_commit twin_get_or_create twin_tx_find_actor twin_actor_exists
  twin_update_actor_id twin_insert_public_key twin_find_key_to_revoke twin_revoke_key twin_get_message_hashes
  twin_revoke_all_keys twin_insert_aux_data twin_revoke_aux_data twin_delete_symmetric_keys twin_store_if_any

lemma twin_add_key:
  "agree (\<lambda>_. parted) idle idle (ProcessAddKey R1 rand m root ks) (ProcessAddKey R2 rand m root ks)"
  unfolding ProcessAddKey_def by (rule twin_with_tx, (rule twin_calls)+)

lemma twin_revoke:
  "agree (\<lambda>_. parted) idle idle (ProcessRevokeKey R1 m root ks) (ProcessRevokeKey R2 m root ks)"
  unfolding ProcessRevokeKey_def by (rule twin_with_tx, (rule twin_calls)+)

lemma twin_move:
  "agree (\<lambda>_. parted) idle idle (ProcessMoveIdentity R1 m root) (ProcessMoveIdentity R2 m root)"
  unfolding ProcessMoveIdentity_def by (rule twin_with_tx, (rule twin_calls)+)

lemma twin_burn_down:
  "agree (\<lambda>_. parted) idle idle (ProcessBurnDown R1 a root) (ProcessBurnDown R2 a root)"
  unfolding ProcessBurnDown_def by (rule twin_with_tx, (rule twin_calls)+)

lemma twin_add_aux:
  "agree (\<lambda>_. parted) idle idle (ProcessAddAuxData R1 reg rand now m root) (ProcessAddAuxData R2 reg rand now m root)"
  unfolding ProcessAddAuxData_def
  by (rule agree_bind, rule agree_option, rule agree_return, rule agree_wrapping, rule agree_lift, erule idle_parted,
      rule twin_with_tx, (rule twin_calls)+)

lemma twin_revoke_aux:
  "agree (\<lambda>_. parted) idle idle (ProcessRevokeAuxData R1 m root) (ProcessRevokeAuxData R2 m root)"
  unfolding ProcessRevokeAuxData_def by (rule twin_with_tx, (rule twin_calls)+)

end

subsection \<open>SQLite and PostgreSQL\<close>

text \<open>
  Side by side: the same tables, and the same calls still to come, which the driver refuses or not, without
  a delay, so that \<^verbatim>\<open>CURRENT_TIMESTAMP\<close> and the beginning of a transaction are the same second. The handle of
  SQLite is in order, which makes the two statements that revoke auxiliary data the same.
\<close>

definition side_by_side :: "sqlite_db \<Rightarrow> pg_db \<Rightarrow> bool" where
  "side_by_side s p \<longleftrightarrow>
     sqlite_good s \<and> sqlite_tables s = pg_tables p \<and> sqlite_clock s = pg_clock p \<and>
     sqlite_faults s = pg_faults p \<and> (\<forall>(_, elapsed) \<in> set (pg_faults p). elapsed = 0)"

definition both_idle :: "sqlite_db \<Rightarrow> pg_db \<Rightarrow> bool" where
  "both_idle s p \<longleftrightarrow>
     side_by_side s p \<and> sqlite_tx s = None \<and> pg_tx p = None \<and> sqlite_seq s = pg_seq p"

definition both_busy :: "sqlite_db \<Rightarrow> pg_db \<Rightarrow> bool" where
  "both_busy s p \<longleftrightarrow>
     side_by_side s p \<and>
     (\<exists>t. sqlite_tx s = Some (t, pg_seq p) \<and>
        pg_tx p = Some \<lparr> pw_tables = t, pw_start = pg_clock p, pw_aborted = False \<rparr>)"

definition same_tables :: "sqlite_db \<Rightarrow> pg_db \<Rightarrow> bool" where
  "same_tables s p \<longleftrightarrow> sqlite_tables s = pg_tables p"

lemma both_same_tables: "both_idle s p \<Longrightarrow> same_tables s p" "both_busy s p \<Longrightarrow> same_tables s p"
  by (simp_all add: both_idle_def both_busy_def side_by_side_def same_tables_def)

text \<open>The next call is refused on both or on neither, and changes nothing else.\<close>

lemma tick_together:
  assumes "side_by_side s p"
  obtains fails s1 p1 where "sqlite_tick s = (fails, s1)" "pg_tick p = (fails, p1)" "side_by_side s1 p1"
    "sqlite_tx s1 = sqlite_tx s" "pg_tx p1 = pg_tx p" "sqlite_seq s1 = sqlite_seq s" "pg_seq p1 = pg_seq p"
    "sqlite_clock s1 = sqlite_clock s" "pg_clock p1 = pg_clock p"
    "sqlite_tables s1 = sqlite_tables s" "pg_tables p1 = pg_tables p"
proof (cases "pg_faults p")
  case Nil
  with assms show ?thesis
    by (intro that [of False s p]) (simp_all add: side_by_side_def sqlite_tick_def pg_tick_def)
next
  case (Cons c cs)
  obtain fails elapsed where c: "c = (fails, elapsed)" by (cases c)
  with assms Cons have "elapsed = 0" by (simp add: side_by_side_def)
  with assms Cons c show ?thesis
    by (intro that [of fails "s\<lparr> sqlite_faults := cs \<rparr>" "p\<lparr> pg_faults := cs \<rparr>"])
      (auto simp: side_by_side_def sqlite_tick_def pg_tick_def sqlite_good_def)
qed

lemma exec_together:
  assumes st: "stmt_ok P st"
  shows "agree (\<lambda>_. same_tables) both_idle both_idle (sqlite_exec st) (pg_exec st)"
proof (rule agreeI)
  fix s p
  assume a: "both_idle s p"
  then have "side_by_side s p" by (simp add: both_idle_def)
  then obtain fails s1 p1 where t: "sqlite_tick s = (fails, s1)" "pg_tick p = (fails, p1)"
    and s1: "side_by_side s1 p1" "sqlite_tx s1 = None" "pg_tx p1 = None" "sqlite_seq s1 = pg_seq p1"
    by (rule tick_together) (use a in \<open>simp add: both_idle_def\<close>)
  obtain x t1 q1 where e: "st (pg_clock p1) (pg_tables p1) (pg_seq p1) = (x, t1, q1)"
    by (cases "st (pg_clock p1) (pg_tables p1) (pg_seq p1)")
  have w: "wf_tables (pg_tables p1)" "numbered (pg_tables p1) (pg_seq p1)"
    using s1 by (auto simp: side_by_side_def sqlite_good_def)
  show "matched (\<lambda>_. same_tables) both_idle (sqlite_exec st s) (pg_exec st p)"
    using t s1 e stmt_okD [OF st w e]
    by (cases fails; cases x)
      (simp_all add: sqlite_exec_def pg_exec_def matched_def side_by_side_def same_tables_def both_idle_def sqlite_good_def)
qed

lemma tx_exec_together:
  assumes st: "stmt_ok P st" and eq: "\<And>now t q. wf_tables t \<Longrightarrow> st now t q = st' now t q"
  shows "agree (\<lambda>_. same_tables) both_busy both_busy (sqlite_tx_exec st) (pg_tx_exec st')"
proof (rule agreeI)
  fix s p
  assume a: "both_busy s p"
  then obtain t where tx: "side_by_side s p" "sqlite_tx s = Some (t, pg_seq p)"
      "pg_tx p = Some \<lparr> pw_tables = t, pw_start = pg_clock p, pw_aborted = False \<rparr>"
    by (auto simp: both_busy_def)
  from tx(1) obtain fails s1 p1 where k: "sqlite_tick s = (fails, s1)" "pg_tick p = (fails, p1)"
    and s1: "side_by_side s1 p1" "pg_seq p1 = pg_seq p" "sqlite_clock s1 = sqlite_clock s" "pg_clock p1 = pg_clock p"
      "sqlite_tables s1 = sqlite_tables s" "pg_tables p1 = pg_tables p"
    by (rule tick_together)
  obtain x t1 q1 where e: "st (pg_clock p) t (pg_seq p) = (x, t1, q1)"
    by (cases "st (pg_clock p) t (pg_seq p)")
  have w: "wf_tables t" "numbered t (pg_seq p)"
    using tx by (auto simp: side_by_side_def sqlite_good_def)
  have clock: "sqlite_clock s = pg_clock p" using tx(1) by (simp add: side_by_side_def)
  show "matched (\<lambda>_. same_tables) both_busy (sqlite_tx_exec st s) (pg_tx_exec st' p)"
    using tx k s1 e stmt_okD [OF st w e] clock eq [OF w(1), symmetric]
    by (cases fails; cases x)
      (simp_all add: sqlite_tx_exec_def pg_tx_exec_def matched_def side_by_side_def same_tables_def both_busy_def
        sqlite_good_def)
qed

subsection \<open>Their operations\<close>

lemma begin_together: "agree (\<lambda>_. same_tables) both_idle both_busy sqlite_BeginTx pg_BeginTx"
  unfolding sqlite_BeginTx_def pg_BeginTx_def
proof (rule agree_wrapping, rule agreeI)
  fix s p
  assume a: "both_idle s p"
  then have "side_by_side s p" by (simp add: both_idle_def)
  then obtain fails s1 p1 where k: "sqlite_tick s = (fails, s1)" "pg_tick p = (fails, p1)"
    and s1: "side_by_side s1 p1" "sqlite_tx s1 = None" "sqlite_seq s1 = pg_seq p1"
    by (rule tick_together) (use a in \<open>simp add: both_idle_def\<close>)
  then show "matched (\<lambda>_. same_tables) both_busy
      (case sqlite_tick s of (fails, s1) \<Rightarrow> if fails then (Inl driver_error, s1)
        else (Inr (), s1\<lparr> sqlite_tx := Some (sqlite_tables s1, sqlite_seq s1) \<rparr>))
      (case pg_tick p of (fails, s1) \<Rightarrow> if fails then (Inl driver_error, s1)
        else (Inr (), s1\<lparr> pg_tx :=
          Some \<lparr> pw_tables = pg_tables s1, pw_start = pg_clock s1, pw_aborted = False \<rparr> \<rparr>))"
    by (auto simp: matched_def side_by_side_def same_tables_def both_busy_def sqlite_good_def)
qed

lemma commit_together: "agree (\<lambda>_. same_tables) both_busy both_idle sqlite_Commit pg_Commit"
proof (rule agreeI)
  fix s p
  assume "both_busy s p"
  then obtain t where tx: "side_by_side s p" "sqlite_tx s = Some (t, pg_seq p)"
      "pg_tx p = Some \<lparr> pw_tables = t, pw_start = pg_clock p, pw_aborted = False \<rparr>"
    by (auto simp: both_busy_def)
  from tx(1) obtain fails s1 p1 where k: "sqlite_tick s = (fails, s1)" "pg_tick p = (fails, p1)"
    and s1: "side_by_side s1 p1" "pg_seq p1 = pg_seq p" "sqlite_tx s1 = sqlite_tx s"
    by (rule tick_together)
  with tx show "matched (\<lambda>_. same_tables) both_idle (sqlite_Commit s) (pg_Commit p)"
    by (auto simp: sqlite_Commit_def pg_Commit_def matched_def side_by_side_def same_tables_def both_idle_def
        sqlite_good_def)
qed

lemma rollback_together:
  "same_tables s p \<Longrightarrow> same_tables (snd (sqlite_Rollback s)) (snd (pg_Rollback p))"
  "both_idle s p \<Longrightarrow> both_idle (snd (sqlite_Rollback s)) (snd (pg_Rollback p))"
  by (auto simp: sqlite_Rollback_def pg_Rollback_def same_tables_def both_idle_def split: option.split)

lemma tx_exec_keeps_tables:
  "same_tables s p \<Longrightarrow> same_tables (snd (sqlite_tx_exec st s)) (snd (pg_tx_exec st' p))"
  by (auto simp: sqlite_tx_exec_def pg_tx_exec_def same_tables_def sqlite_tick_def pg_tick_def
      split: option.split prod.split list.split sum.split)

lemma local_together:
  "agree (\<lambda>_. same_tables) both_idle both_idle (fail_op e) (fail_op e)"
  "agree (\<lambda>_. same_tables) both_idle both_idle (lift_op r) (lift_op r)"
  by (simp_all add: agree_fail agree_lift both_same_tables)

lemmas together = agree_bind agree_wrapping agree_option agree_if agree_return local_together

lemma query_together:
  "agree (\<lambda>_. same_tables) both_idle both_idle (sqlite_exec (query f)) (pg_exec (query f))"
  "agree (\<lambda>_. same_tables) both_busy both_busy (sqlite_tx_exec (query f)) (pg_tx_exec (query f))"
  by (rule exec_together [OF query_ok], rule tx_exec_together [OF query_ok refl])

lemma revoke_aux_together:
  "agree (\<lambda>_. same_tables) both_busy both_busy (sqlite_tx_exec (stmt_revoke_aux_in a b c))
     (pg_tx_exec (stmt_revoke_aux_from a b c))"
  by (rule tx_exec_together [OF revoke_aux_in_ok], erule revoke_aux_in_eq_from)

lemmas statements_together =
  query_together
  exec_together [OF set_fireproof_ok] exec_together [OF insert_message_log_ok]
  tx_exec_together [OF insert_actor_ok refl] tx_exec_together [OF update_actor_id_ok refl]
  tx_exec_together [OF insert_public_key_ok refl] tx_exec_together [OF revoke_key_ok refl]
  tx_exec_together [OF revoke_all_keys_ok refl] tx_exec_together [OF insert_aux_data_ok refl]
  revoke_aux_together
  tx_exec_together [OF insert_symmetric_key_ok refl] tx_exec_together [OF delete_symmetric_keys_ok refl]

lemma conn_together:
  "agree (\<lambda>_. same_tables) both_idle both_idle (sqlite_SetFireproof a v) (pg_SetFireproof a v)"
  "agree (\<lambda>_. same_tables) both_idle both_idle (sqlite_ListKeysForActor a) (pg_ListKeysForActor a)"
  "agree (\<lambda>_. same_tables) both_idle both_idle (sqlite_StoreMessage a b m) (pg_StoreMessage a b m)"
  "agree (\<lambda>_. same_tables) both_idle both_idle (sqlite_GetTOTPSecret a) (pg_GetTOTPSecret a)"
  unfolding sqlite_SetFireproof_def pg_SetFireproof_def sqlite_ListKeysForActor_def pg_ListKeysForActor_def
    sqlite_StoreMessage_def pg_StoreMessage_def sqlite_GetTOTPSecret_def pg_GetTOTPSecret_def
  by ((rule together statements_together)+)

lemma row_together:
  "agree E A A f g \<Longrightarrow>
   agree E A A (bind_op f (\<lambda>(i, now). return_op (h i now))) (bind_op g (\<lambda>(i, now). return_op (h i now)))"
  by (rule agree_bind, assumption) (simp add: agree_return split: prod.split)

lemma tx_together:
  "agree (\<lambda>_. same_tables) both_busy both_busy (sqlite_GetOrCreateActor a) (pg_GetOrCreateActor a)"
  "agree (\<lambda>_. same_tables) both_busy both_busy (sqlite_TxFindActorByActorID a) (pg_TxFindActorByActorID a)"
  "agree (\<lambda>_. same_tables) both_busy both_busy (sqlite_ActorExists a) (pg_ActorExists a)"
  "agree (\<lambda>_. same_tables) both_busy both_busy (sqlite_UpdateActorID a b) (pg_UpdateActorID a b)"
  "agree (\<lambda>_. same_tables) both_busy both_busy (sqlite_InsertPublicKey k) (pg_InsertPublicKey k)"
  "agree (\<lambda>_. same_tables) both_busy both_busy (sqlite_FindKeyToRevoke a b) (pg_FindKeyToRevoke a b)"
  "agree (\<lambda>_. same_tables) both_busy both_busy (sqlite_RevokeKey i b) (pg_RevokeKey i b)"
  "agree (\<lambda>_. same_tables) both_busy both_busy (sqlite_GetMessageHashesForActor i) (pg_GetMessageHashesForActor i)"
  "agree (\<lambda>_. same_tables) both_busy both_busy (sqlite_RevokeAllKeysForActor i b) (pg_RevokeAllKeysForActor i b)"
  "agree (\<lambda>_. same_tables) both_busy both_busy (sqlite_InsertAuxData d) (pg_InsertAuxData d)"
  "agree (\<lambda>_. same_tables) both_busy both_busy (sqlite_RevokeAuxData a b c) (pg_RevokeAuxData a b c)"
  "agree (\<lambda>_. same_tables) both_busy both_busy (sqlite_DeleteSymmetricKeysByHashes hs) (pg_DeleteSymmetricKeysByHashes hs)"
  unfolding sqlite_GetOrCreateActor_def pg_GetOrCreateActor_def sqlite_TxFindActorByActorID_def
    pg_TxFindActorByActorID_def sqlite_ActorExists_def pg_ActorExists_def sqlite_UpdateActorID_def
    pg_UpdateActorID_def sqlite_InsertPublicKey_def pg_InsertPublicKey_def sqlite_FindKeyToRevoke_def
    pg_FindKeyToRevoke_def sqlite_RevokeKey_def pg_RevokeKey_def sqlite_GetMessageHashesForActor_def
    pg_GetMessageHashesForActor_def sqlite_RevokeAllKeysForActor_def pg_RevokeAllKeysForActor_def
    sqlite_InsertAuxData_def pg_InsertAuxData_def sqlite_RevokeAuxData_def pg_RevokeAuxData_def
    sqlite_DeleteSymmetricKeysByHashes_def pg_DeleteSymmetricKeysByHashes_def
  by ((rule row_together together statements_together)+)

lemma store_symmetric_keys_together:
  "agree (\<lambda>_. same_tables) both_busy both_busy (sqlite_StoreSymmetricKeys h ks) (pg_StoreSymmetricKeys h ks)"
  unfolding sqlite_StoreSymmetricKeys_def pg_StoreSymmetricKeys_def
proof (rule agree_bind [OF agree_wrapping [OF query_together(2)]], rule agree_closing)
  show "agree (\<lambda>_. same_tables) both_busy both_busy
    (each_op (\<lambda>(attribute, key). wrapping (''failed to insert symmetric key for attribute '' @ attribute)
       (sqlite_tx_exec (stmt_insert_symmetric_key h attribute key))) ks)
    (each_op (\<lambda>(attribute, key). wrapping (''failed to insert symmetric key for attribute '' @ attribute)
       (pg_tx_exec (stmt_insert_symmetric_key h attribute key))) ks)"
    by (rule agree_each) (auto intro: agree_wrapping statements_together)
qed (rule query_together, rule tx_exec_keeps_tables)

subsection \<open>Behind the interface\<close>

fun across :: "(sqlite_db \<Rightarrow> pg_db \<Rightarrow> bool) \<Rightarrow> database \<Rightarrow> database \<Rightarrow> bool" where
  "across Q (SQLiteDB s) (PostgresDB p) = Q s p"
| "across Q _ _ = False"

lemma acrossE: "across Q d d' \<Longrightarrow> (\<And>s p. d = SQLiteDB s \<Longrightarrow> d' = PostgresDB p \<Longrightarrow> Q s p \<Longrightarrow> thesis) \<Longrightarrow> thesis"
  by (cases d; cases d') simp_all

lemma across_mono: "across Q d d' \<Longrightarrow> (\<And>s p. Q s p \<Longrightarrow> Q' s p) \<Longrightarrow> across Q' d d'"
  by (auto elim!: acrossE)

lemma on_db_together:
  "agree (\<lambda>_. E) A B f g \<Longrightarrow> agree (\<lambda>_. across E) (across A) (across B) (on_db f g) (on_db f g)"
  by (rule agreeI, erule acrossE, drule (1) agreeD, erule matched_cases) (simp_all add: on_db_def matched_def)

interpretation twins: twin_repositories db_repo db_repo "across same_tables" "across both_idle" "across both_busy"
proof
  fix d d'
  show "across both_idle d d' \<Longrightarrow> across same_tables d d'" "across both_busy d d' \<Longrightarrow> across same_tables d d'"
    by (erule across_mono, erule both_same_tables)+
  show "across same_tables d d' \<Longrightarrow> across same_tables (snd (Rollback db_repo d)) (snd (Rollback db_repo d'))"
    "across both_idle d d' \<Longrightarrow> across both_idle (snd (Rollback db_repo d)) (snd (Rollback db_repo d'))"
    by (auto elim!: acrossE simp: db_repo_def on_db_def split: prod.split)
      (metis rollback_together snd_conv)+
qed (simp_all add: db_repo_def on_db_together begin_together commit_together tx_together conn_together
    store_symmetric_keys_together)

subsection \<open>Handlers\<close>

text \<open>
  Two servers in the same state but for the back end, and what a handler leaves: the same again, or, after
  an answer of 500, at least the same tables, log and cache.
\<close>

definition apart_from_db :: "(database \<Rightarrow> database \<Rightarrow> bool) \<Rightarrow> server_state \<Rightarrow> server_state \<Rightarrow> bool" where
  "apart_from_db Q st st' \<longleftrightarrow>
     Q (ss_db st) (ss_db st') \<and> ss_log st' = ss_log st \<and> ss_cache st' = ss_cache st"

definition twin_servers :: "server_state \<Rightarrow> server_state \<Rightarrow> bool" where
  "twin_servers = apart_from_db (across both_idle)"

definition twin_answered :: "response \<Rightarrow> server_state \<Rightarrow> server_state \<Rightarrow> bool" where
  "twin_answered r st st' \<longleftrightarrow>
     twin_servers st st' \<or> rs_status r = 500 \<and> apart_from_db (across same_tables) st st'"

lemma twin_servers_tables: "apart_from_db (across same_tables) st st' \<Longrightarrow> tables_of st' = tables_of st"
  by (auto simp: apart_from_db_def tables_of_def same_tables_def sqlite_committed_def pg_committed_def elim!: acrossE)

lemma twin_servers_weaken: "twin_servers st st' \<Longrightarrow> apart_from_db (across same_tables) st st'"
  by (auto simp: twin_servers_def apart_from_db_def intro: both_same_tables elim!: across_mono)

lemma agree_then:
  assumes "agree E A B f g" "\<And>x. agree E B C (h x) (k x)"
  shows "agree E A C (then_do f h) (then_do g k)"
proof (rule agreeI)
  fix st st'
  assume "A st st'"
  with assms(1) have "matched E B (f st) (g st')" by (rule agreeD)
  then show "matched E C (then_do f h st) (then_do g k st')"
    by (cases rule: matched_cases) (auto simp: then_do_def matched_def dest: agreeD [OF assms(2)])
qed

lemma agree_steps:
  "agree twin_answered twin_servers twin_servers (try_or r respond) (try_or r respond)"
  "agree twin_answered twin_servers twin_servers (ensure b resp) (ensure b resp)"
  "agree twin_answered twin_servers B (send resp) (send resp)"
  "agree twin_answered twin_servers twin_servers (continue x) (continue x)"
  by (simp_all add: agree_def matched_def try_or_def ensure_def send_def continue_def twin_answered_def
      split: sum.split)

lemma agree_db:
  assumes "agree (\<lambda>_. across same_tables) (across both_idle) (across both_idle) f g"
    and "\<And>e. rs_status (respond e) = 500"
  shows "agree twin_answered twin_servers twin_servers (call_or (db_op f) respond) (call_or (db_op g) respond)"
proof (rule agreeI)
  fix st st'
  assume a: "twin_servers st st'"
  then have "across both_idle (ss_db st) (ss_db st')" by (simp add: twin_servers_def apart_from_db_def)
  with assms(1) have "matched (\<lambda>_. across same_tables) (across both_idle) (f (ss_db st)) (g (ss_db st'))"
    by (rule agreeD)
  then show "matched twin_answered twin_servers (call_or (db_op f) respond st) (call_or (db_op g) respond st')"
    by (cases rule: matched_cases)
      (use a in \<open>simp_all add: call_or_def db_op_def matched_def twin_answered_def twin_servers_def apart_from_db_def assms(2)\<close>)
qed

lemma agree_submit:
  "agree twin_answered twin_servers twin_servers (submit_to_log w msg) (submit_to_log w msg)"
  unfolding submit_to_log_def
proof (rule agree_then [OF agree_steps(1)], rule agreeI)
  fix body st st'
  assume "twin_servers st st'"
  then show "matched twin_answered twin_servers
      (call_or (submit_op (rw_sigsum w) body) (\<lambda>_. respondWithError 500 ''Failed to submit message to SigSum'') st)
      (call_or (submit_op (rw_sigsum w) body) (\<lambda>_. respondWithError 500 ''Failed to submit message to SigSum'') st')"
    by (cases "SubmitMessage (rw_sigsum w)")
      (simp_all add: call_or_def submit_op_def matched_def twin_answered_def twin_servers_def apart_from_db_def)
qed

lemma agree_symmetric_keys:
  "agree twin_answered twin_servers twin_servers (decode_symmetric_keys ks) (decode_symmetric_keys ks)"
proof (induction ks)
  case (Cons k ks)
  then show ?case
    by (cases k) (auto simp: agree_steps intro!: agree_option agree_then agree_steps)
qed (simp add: agree_steps)

lemma agree_fetch:
  "agree twin_answered twin_servers twin_servers (call_or (fetchActorPublicKey env w keyID) (\<lambda>_. respondWithError 403 m))
     (call_or (fetchActorPublicKey env w keyID) (\<lambda>_. respondWithError 403 m))"
  by (rule agreeI)
    (auto simp: fetchActorPublicKey_def call_or_def matched_def twin_answered_def twin_servers_def apart_from_db_def
      split: option.split sum.split)

lemmas twin_steps =
  agree_then agree_steps agree_submit agree_symmetric_keys agree_fetch agree_option agree_if

lemma twin_database:
  "(\<And>e. rs_status (respond e) = 500) \<Longrightarrow>
   agree twin_answered twin_servers twin_servers (call_or (db_op (ListKeysForActor db_repo a)) respond)
     (call_or (db_op (ListKeysForActor db_repo a)) respond)"
  "(\<And>e. rs_status (respond e) = 500) \<Longrightarrow>
   agree twin_answered twin_servers twin_servers (call_or (db_op (SetFireproof db_repo a v)) respond)
     (call_or (db_op (SetFireproof db_repo a v)) respond)"
  "(\<And>e. rs_status (respond e) = 500) \<Longrightarrow>
   agree twin_answered twin_servers twin_servers (call_or (db_op (GetTOTPSecret db_repo a)) respond)
     (call_or (db_op (GetTOTPSecret db_repo a)) respond)"
  "(\<And>e. rs_status (respond e) = 500) \<Longrightarrow>
   agree twin_answered twin_servers twin_servers (call_or (db_op (StoreMessage db_repo a b m)) respond)
     (call_or (db_op (StoreMessage db_repo a b m)) respond)"
  by (rule agree_db, rule twins.twin_list_keys twins.twin_set_fireproof twins.twin_get_totp twins.twin_store_message, simp)+

lemma twin_service:
  "(\<And>e. rs_status (respond e) = 500) \<Longrightarrow>
   agree twin_answered twin_servers twin_servers (call_or (db_op (ProcessAddKey db_repo rand ak root ks)) respond)
     (call_or (db_op (ProcessAddKey db_repo rand ak root ks)) respond)"
  "(\<And>e. rs_status (respond e) = 500) \<Longrightarrow>
   agree twin_answered twin_servers twin_servers (call_or (db_op (ProcessRevokeKey db_repo rk root ks)) respond)
     (call_or (db_op (ProcessRevokeKey db_repo rk root ks)) respond)"
  "(\<And>e. rs_status (respond e) = 500) \<Longrightarrow>
   agree twin_answered twin_servers twin_servers (call_or (db_op (ProcessMoveIdentity db_repo mi root)) respond)
     (call_or (db_op (ProcessMoveIdentity db_repo mi root)) respond)"
  "(\<And>e. rs_status (respond e) = 500) \<Longrightarrow>
   agree twin_answered twin_servers twin_servers (call_or (db_op (ProcessBurnDown db_repo a root)) respond)
     (call_or (db_op (ProcessBurnDown db_repo a root)) respond)"
  "(\<And>e. rs_status (respond e) = 500) \<Longrightarrow>
   agree twin_answered twin_servers twin_servers (call_or (db_op (ProcessAddAuxData db_repo reg rand now aa root)) respond)
     (call_or (db_op (ProcessAddAuxData db_repo reg rand now aa root)) respond)"
  "(\<And>e. rs_status (respond e) = 500) \<Longrightarrow>
   agree twin_answered twin_servers twin_servers (call_or (db_op (ProcessRevokeAuxData db_repo ra root)) respond)
     (call_or (db_op (ProcessRevokeAuxData db_repo ra root)) respond)"
  by (rule agree_db, rule twins.twin_add_key twins.twin_revoke twins.twin_move twins.twin_burn_down twins.twin_add_aux
      twins.twin_revoke_aux, simp)+

lemma twin_signed_by_actor:
  "agree twin_answered twin_servers twin_servers (signed_by_actor env msg a m1 m2 m3) (signed_by_actor env msg a m1 m2 m3)"
  unfolding signed_by_actor_def list_keys_or_def
  by (rule twin_steps twin_database respondWithError_status)+

lemma twin_add_key_signature:
  "agree twin_answered twin_servers twin_servers (add_key_signature env msg m keys) (add_key_signature env msg m keys)"
  unfolding add_key_signature_def by (rule twin_steps)+

lemma twin_check_otp:
  "agree twin_answered twin_servers twin_servers (check_otp env w msg sealed) (check_otp env w msg sealed)"
  unfolding check_otp_def by (rule twin_steps)+

lemmas twin_handler_steps =
  twin_steps twin_database twin_service respondWithError_status twin_signed_by_actor twin_add_key_signature twin_check_otp

lemma twin_handlers:
  assumes "actionHandlers env w action = Some handler"
  shows "agree twin_answered twin_servers twin_servers (handler msg) (handler msg)"
proof -
  let ?agrees = "\<lambda>h. agree twin_answered twin_servers twin_servers (h env w msg) (h env w msg)"
  have "?agrees processAddKeyAction" "?agrees processRevokeKeyAction" "?agrees processMoveIdentityAction"
    "?agrees processBurnDownAction" "?agrees processFireproofAction" "?agrees processUndoFireproofAction"
    "?agrees processAddAuxDataAction" "?agrees processRevokeAuxDataAction" "?agrees processQueryAction"
    "?agrees processCheckpointAction"
    unfolding processAddKeyAction_def processRevokeKeyAction_def processMoveIdentityAction_def
      processBurnDownAction_def processFireproofAction_def processUndoFireproofAction_def
      processAddAuxDataAction_def processRevokeAuxDataAction_def processQueryAction_def
      processCheckpointAction_def list_keys_or_def
    by (rule twin_handler_steps)+
  with assms show ?thesis by (auto simp: actionHandlers_def split: if_splits)
qed

lemma twin_handle:
  "agree twin_answered twin_servers twin_servers (handleProtocolMessage env w req) (handleProtocolMessage env w req)"
proof -
  have http: "agree twin_answered twin_servers twin_servers (activity_pub_step env w req) (activity_pub_step env w req)"
    unfolding activity_pub_step_def check_http_signature_def Let_def
    by (cases "hr_body_end req") (simp_all only: body_end.case, (rule twin_steps)+)
  have act: "agree twin_answered twin_servers twin_servers
      (case actionHandlers env w (pm_action msg) of
         None \<Rightarrow> send (respondWithError 400 (''Unsupported action: '' @ pm_action msg)) | Some handler \<Rightarrow> handler msg)
      (case actionHandlers env w (pm_action msg) of
         None \<Rightarrow> send (respondWithError 400 (''Unsupported action: '' @ pm_action msg)) | Some handler \<Rightarrow> handler msg)"
    for msg
    by (cases "actionHandlers env w (pm_action msg)") (simp_all add: agree_steps twin_handlers)
  show ?thesis
    unfolding handleProtocolMessage_def by (rule http act twin_steps)+
qed

lemma twin_post:
  assumes "twin_servers st st'" "post_protocol env w req st = (r, st1)" "post_protocol env w req st' = (r', st1')"
  shows "r' = r \<and> twin_answered r st1 st1'"
proof -
  from assms(1) have "matched twin_answered twin_servers (handleProtocolMessage env w req st) (handleProtocolMessage env w req st')"
    by (rule agreeD [OF twin_handle])
  then show ?thesis
    using assms(2,3)
    by (cases rule: matched_cases) (auto simp: post_protocol_def answer_def twin_answered_def)
qed

subsection \<open>Sequences of requests\<close>

fun posts :: "server_env \<Rightarrow> (request_world \<times> http_request) list \<Rightarrow> server_state \<Rightarrow> response list \<times> server_state" where
  "posts env [] st = ([], st)"
| "posts env ((w, req) # reqs) st =
     (case post_protocol env w req st of (r, st1) \<Rightarrow>
        case posts env reqs st1 of (rs, st2) \<Rightarrow> (r # rs, st2))"

lemma posts_twins:
  assumes "twin_servers st st'" "posts env reqs st = (rs, st1)" "posts env reqs st' = (rs', st1')"
    and "\<forall>r \<in> set (butlast rs). rs_status r \<noteq> 500"
  shows "rs' = rs \<and> (twin_servers st1 st1' \<or> apart_from_db (across same_tables) st1 st1')"
  using assms
proof (induction reqs arbitrary: st st' rs rs')
  case Nil
  then show ?case by simp
next
  case (Cons c reqs)
  obtain w req where c: "c = (w, req)" by (cases c)
  obtain r a where p: "post_protocol env w req st = (r, a)" by (cases "post_protocol env w req st")
  obtain r' a' where p': "post_protocol env w req st' = (r', a')" by (cases "post_protocol env w req st'")
  obtain ts b where q: "posts env reqs a = (ts, b)" by (cases "posts env reqs a")
  obtain ts' b' where q': "posts env reqs a' = (ts', b')" by (cases "posts env reqs a'")
  from Cons.prems c p q p' q' have rs: "rs = r # ts" "st1 = b" "rs' = r' # ts'" "st1' = b'" by simp_all
  note one = twin_post [OF Cons.prems(1) p p']
  show ?case
  proof (cases "reqs = []")
    case True
    with q q' rs one show ?thesis by (auto simp: twin_answered_def)
  next
    case False
    with q have "ts \<noteq> []" by (cases reqs) (auto split: prod.splits)
    with Cons.prems(4) rs have ok: "rs_status r \<noteq> 500" "\<forall>r \<in> set (butlast ts). rs_status r \<noteq> 500" by auto
    with one have "twin_servers a a'" by (simp add: twin_answered_def)
    from Cons.IH [OF this _ _ ok(2)] q q' rs one show ?thesis by auto
  qed
qed


end
