(* ===== verification/Witnesses.thy ===== *)
theory Witnesses
  imports Demo Liveness Concurrency Client Twins
begin

section \<open>The theorems at work\<close>

text \<open>Each theorem that has hypotheses, applied at concrete inputs that meet them.\<close>

lemma demo_env_simps [simp]:
  "sv_prims demo_env = demo_prims" "sv_enc demo_env = demo_enc"
  by (simp_all add: demo_env_def)

lemma demo_ready:
  "ready demo_s0" "ready demo_s1" "ready demo_faulty" "ready demo_d0" "ready demo_f0" "ready demo_cached"
  by code_simp+

subsection \<open>Cryptography\<close>

lemma demo_ed25519: "ed25519_correct demo_prims (take 32)"
  by (simp add: ed25519_correct_def demo_prims_def)

lemma demo_lengths: "enc_lengths demo_enc"
  by (auto simp: enc_lengths_def demo_enc_def)

definition demo_message :: protocol_message where
  "demo_message =
     \<lparr> pm_context = PKDContextV1, pm_action = ''Query'', pm_key_id = [], pm_message = ''{}'',
       pm_recent_merkle_root = [], pm_signature = [], pm_symmetric_keys = [], pm_otp = [] \<rparr>"

lemma demo_canonical: "\<exists>m. canonical_bytes demo_prims (signed_part demo_message) = Inr m"
proof -
  have "(case canonical_bytes demo_prims (signed_part demo_message) of Inr _ \<Rightarrow> True | Inl _ \<Rightarrow> False)"
    by code_simp
  then show ?thesis by (auto split: sum.splits)
qed

theorem sign_then_verify_witness:
  "\<exists>sig. VerifyMessageSignature demo_prims (demo_message\<lparr> pm_signature := sig \<rparr>) (replicate 32 1) = Inr ()"
proof -
  obtain m where "canonical_bytes demo_prims (signed_part demo_message) = Inr m"
    using demo_canonical by blast
  from sign_then_verify [OF demo_ed25519 _ this, of "replicate 64 1"]
  show ?thesis by (auto simp: SignMessage_def)
qed

definition demo_attribute :: "bytes result" where
  "demo_attribute = EncryptAttribute demo_enc (replicate 32 9) [97] [1, 2, 3] [4] [5]"

lemma demo_attribute_made: "\<exists>ct. demo_attribute = Inr ct"
proof -
  have "(case demo_attribute of Inr _ \<Rightarrow> True | Inl _ \<Rightarrow> False)" by code_simp
  then show ?thesis by (auto split: sum.splits)
qed

theorem keystream_never_repeats_witness:
  "\<exists>c. aes_ctr demo_enc (replicate 32 0) (replicate 16 255) (replicate 20 7) = Inr c \<and> length c = 20 \<and>
     counter_block (of_nat (be_value (replicate 16 255) + 0 div 16)) \<noteq>
     counter_block (of_nat (be_value (replicate 16 255) + 16 div 16))"
proof -
  obtain c where c: "aes_ctr demo_enc (replicate 32 0) (replicate 16 255) (replicate 20 7) = Inr c"
    by (simp add: aes_ctr_def)
  note k = keystream_never_repeats [OF demo_lengths c]
  have "\<forall>i < length (replicate 20 7 :: bytes). \<forall>j < length (replicate 20 7 :: bytes).
      length (replicate 20 7 :: bytes) \<le> 2 ^ 132 \<longrightarrow> i div 16 \<noteq> j div 16 \<longrightarrow>
      counter_block (of_nat (be_value (replicate 16 255) + i div 16)) \<noteq>
      counter_block (of_nat (be_value (replicate 16 255) + j div 16))"
    by (rule conjunct2 [OF conjunct2 [OF k]])
  from this [rule_format, of 0 16] c k show ?thesis by simp
qed

theorem attribute_roundtrip_witness:
  "\<exists>ct. demo_attribute = Inr ct \<and> DecryptAttribute demo_enc [97] ct [4] [5] = Inr [1, 2, 3]"
proof -
  obtain ct where "demo_attribute = Inr ct" using demo_attribute_made by blast
  with attribute_roundtrip [OF demo_lengths this [unfolded demo_attribute_def]] show ?thesis by blast
qed

theorem commitment_binding_witness:
  "commit_input [1] [2] [3] = commit_input [1] [2] [3] \<and> ([1] :: bytes) = [1] \<and> ([2] :: bytes) = [2]"
  using commitment_binding [of "[1]" "[2]" "[3]" "[1]" "[2]" "[3]"] by simp

definition demo_ciphertext :: bytes where
  "demo_ciphertext = (case demo_attribute of Inr ct \<Rightarrow> ct | Inl _ \<Rightarrow> [])"

lemma demo_decrypted: "DecryptAttribute demo_enc [97] demo_ciphertext [4] [5] = Inr [1, 2, 3]"
  by code_simp

theorem decryption_sound_witness:
  "97 \<le> length demo_ciphertext \<and> hd demo_ciphertext = 1"
  using decryption_sound [OF demo_decrypted] by blast

subsection \<open>Outbound requests\<close>


theorem ValidateURL_link_local_witness:
  "ValidateURL (\<lambda>_. Inr \<lparr> pu_scheme = ''http'', pu_hostname = ''metadata'', pu_text = [] \<rparr>)
     (\<lambda>_. Inr [[169, 254, 169, 254]]) ''http://metadata'' False =
   Inr \<lparr> pu_scheme = ''http'', pu_hostname = ''metadata'', pu_text = [] \<rparr>"
  by (rule ValidateURL_link_local [where a = "[169, 254, 169, 254]"])
    (simp_all add: forbiddenTlds_def has_suffix_def)

subsection \<open>The endpoint\<close>

theorem post_atomic_witness:
  "\<exists>r. post_protocol demo_env (demo_world 1) demo_add demo_faulty = (r, demo_failed) \<and>
     rs_status r = 500 \<and> ready demo_failed \<and> tables_of demo_failed = tables_of demo_faulty"
proof (rule demo_okE [OF demo_fault_run])
  fix r msg
  assume p: "post_protocol demo_env (demo_world 1) demo_add demo_faulty = (r, demo_failed)" "rs_status r = 500"
  from post_atomic [OF demo_ready(3) p(1)] p show ?thesis by auto
qed

theorem post_logged_witness:
  "\<exists>r msg body root. post_protocol demo_env (demo_world 2) demo_move demo_s1 = (r, demo_s2) \<and>
     decode_protocol (hr_body demo_move) = Some msg \<and> marshal_signed (signed_part msg) = Inr body \<and>
     ss_log demo_s2 = ss_log demo_s1 @ [(body, Inr root)]"
proof (rule demo_okE [OF demo_move_run])
  fix r msg
  assume p: "post_protocol demo_env (demo_world 2) demo_move demo_s1 = (r, demo_s2)"
    "decode_protocol (hr_body demo_move) = Some msg" "pm_action msg = ''MoveIdentity''"
  have "tables_of demo_s2 \<noteq> tables_of demo_s1" by code_simp
  from post_logged [OF demo_ready(2) p(1) this] p show ?thesis by auto
qed

theorem post_refines_directory_witness:
  "\<exists>r msg. post_protocol demo_env (demo_world 2) demo_move demo_s1 = (r, demo_s2) \<and>
     decode_protocol (hr_body demo_move) = Some msg \<and>
     dir_step demo_prims msg (tables_of demo_s1) (directory (tables_of demo_s1)) (directory (tables_of demo_s2))"
proof (rule demo_okE [OF demo_move_run])
  fix r msg
  assume p: "post_protocol demo_env (demo_world 2) demo_move demo_s1 = (r, demo_s2)"
    "decode_protocol (hr_body demo_move) = Some msg"
  have "directory (tables_of demo_s2) ''bob'' \<noteq> directory (tables_of demo_s1) ''bob''"
    unfolding directory_def by code_simp
  then have "directory (tables_of demo_s2) \<noteq> directory (tables_of demo_s1)" by metis
  with post_refines_directory [OF demo_ready(2) p(1)] p show ?thesis by auto
qed

theorem new_key_authentic_witness:
  "\<exists>r msg pk. post_protocol demo_env (demo_world 1) demo_add demo_s0 = (r, demo_s1) \<and>
     decode_protocol (hr_body demo_add) = Some msg \<and>
     DecodePublicKey ''ed25519:AAAAAAAAAAAAAAAAAAAAAAAAAAAAAAAAAAAAAAAAAAA'' = Inr pk \<and>
     VerifyMessageSignature demo_prims msg pk = Inr ()"
proof (rule demo_okE [OF demo_add_run])
  fix r msg
  assume p: "post_protocol demo_env (demo_world 1) demo_add demo_s0 = (r, demo_s1)"
    "decode_protocol (hr_body demo_add) = Some msg"
  have new: "''ed25519:AAAAAAAAAAAAAAAAAAAAAAAAAAAAAAAAAAAAAAAAAAA'' \<in># directory (tables_of demo_s1) ''alice''"
    unfolding directory_def by code_simp
  have none: "active_keys a (tables_of demo_s0) = []" for a
    by (simp add: active_keys_def tables_of_def demo_s0_def demo_state_def sqlite_committed_def empty_tables_def)
  then have "''ed25519:AAAAAAAAAAAAAAAAAAAAAAAAAAAAAAAAAAAAAAAAAAA'' \<notin># directory (tables_of demo_s0) ''alice''"
    by (simp add: directory_def)
  from new_key_authentic [OF demo_ready(1) p(1) new this] p none show ?thesis
    by (auto simp: signed_by_active_def directory_def)
qed

theorem revoke_keeps_signer_witness:
  "\<exists>r msg m. post_protocol demo_env (demo_world 3) demo_revoke demo_d0 = (r, demo_d1) \<and> rs_status r = 200 \<and>
     decode_protocol (hr_body demo_revoke) = Some msg \<and> unmarshal_revoke_key (pm_message msg) = Inr m \<and>
     signed_by_active demo_prims msg (rk_actor m) (tables_of demo_d1)"
proof (rule demo_okE [OF demo_revoke_run])
  fix r msg
  assume p: "post_protocol demo_env (demo_world 3) demo_revoke demo_d0 = (r, demo_d1)" "rs_status r = 200"
    "decode_protocol (hr_body demo_revoke) = Some msg" "pm_action msg = ''RevokeKey''"
  from revoke_keeps_signer [OF demo_ready(4) p] p show ?thesis by auto
qed


theorem add_key_answer_witness:
  "\<exists>r m k. post_protocol demo_env (demo_world 1) demo_add demo_s0 = (r, demo_s1) \<and> rs_status r = 200 \<and>
     public_keys (tables_of demo_s1) = public_keys (tables_of demo_s0) @ [k] \<and> length (pk_key_id k) = 43 \<and>
     rs_body r = marshal_string_map [(''key_id'', pk_key_id k), (''merkle_root'', pk_merkle_root k)]"
proof (rule demo_okE [OF demo_add_run])
  fix r msg
  assume p: "post_protocol demo_env (demo_world 1) demo_add demo_s0 = (r, demo_s1)" "rs_status r = 200"
    "decode_protocol (hr_body demo_add) = Some msg" "pm_action msg = ''AddKey''"
  from add_key_answer [OF demo_ready(1) p] p show ?thesis by blast
qed

theorem add_key_succeeds_witness:
  "rs_status (fst (post_protocol demo_env (demo_world 1) demo_add demo_s0)) = 200"
proof (rule demo_okE [OF demo_add_run])
  fix r msg
  assume p: "decode_protocol (hr_body demo_add) = Some msg" "pm_action msg = ''AddKey''"
  have run: "case decode_protocol (hr_body demo_add) of None \<Rightarrow> False | Some msg \<Rightarrow>
      pm_context msg = PKDContextV1 \<and> pm_symmetric_keys msg = [] \<and>
      (case unmarshal_add_key (pm_message msg) of Inl _ \<Rightarrow> False | Inr m \<Rightarrow>
         (case DecodePublicKey (ak_public_key m) of Inl _ \<Rightarrow> False
          | Inr pk \<Rightarrow> VerifyMessageSignature demo_prims msg pk = Inr ()))"
    by code_simp
  then obtain m pk where m: "pm_context msg = PKDContextV1" "pm_symmetric_keys msg = []"
    "unmarshal_add_key (pm_message msg) = Inr m" "DecodePublicKey (ak_public_key m) = Inr pk"
    "VerifyMessageSignature demo_prims msg pk = Inr ()"
    by (auto simp: p(1) split: sum.splits)
  have empty: "tables_of demo_s0 = empty_tables" by code_simp
  have "active_keys (ak_actor m) (tables_of demo_s0) = []" by (simp add: empty active_keys_def empty_tables_def)
  with m have auth: "add_key_authorised (sv_prims demo_env) msg m (tables_of demo_s0)"
    by (simp add: add_key_authorised_def)
  have "\<not> is_activity_pub demo_add" "healthy (ss_db demo_s0)" by code_simp+
  moreover have "insertable ''root1'' (pm_symmetric_keys msg) (tables_of demo_s0)"
    by (simp add: m insertable_def empty empty_tables_def)
  moreover have "rw_sigsum (demo_world 1) = Answered 200 (Inr ''root1'')" "32 \<le> length (rw_rand (demo_world 1))"
    by code_simp+
  moreover have "\<forall>(a, s) \<in> set (pm_symmetric_keys msg). raw_url_decode s \<noteq> None" by (simp add: m)
  moreover have "raw_url_encode (take 32 (rw_rand (demo_world 1))) \<notin> pk_key_id ` set (public_keys (tables_of demo_s0))"
    by (simp add: empty empty_tables_def)
  ultimately show ?thesis
    using add_key_succeeds [OF demo_ready(1) _ _ _ p(1) m(1) p(2) m(3) auth] by blast
qed


theorem burn_down_erases_witness:
  "\<exists>r msg m. post_protocol demo_env (demo_world 4) demo_burn demo_f0 = (r, demo_f1) \<and> rs_status r = 200 \<and>
     decode_protocol (hr_body demo_burn) = Some msg \<and> unmarshal_burn_down (pm_message msg) = Inr m \<and>
     active_keys (bd_actor m) (tables_of demo_f1) = []"
proof (rule demo_okE [OF demo_burn_run])
  fix r msg
  assume p: "post_protocol demo_env (demo_world 4) demo_burn demo_f0 = (r, demo_f1)" "rs_status r = 200"
    "decode_protocol (hr_body demo_burn) = Some msg" "pm_action msg = ''BurnDown''"
  from burn_down_erases [OF demo_ready(5) p] p show ?thesis by blast
qed

theorem move_identity_moves_witness:
  "\<exists>r msg m. post_protocol demo_env (demo_world 2) demo_move demo_s1 = (r, demo_s2) \<and> rs_status r = 200 \<and>
     decode_protocol (hr_body demo_move) = Some msg \<and> unmarshal_move_identity (pm_message msg) = Inr m \<and>
     active_keys (mi_new_actor m) (tables_of demo_s2) = active_keys (mi_old_actor m) (tables_of demo_s1)"
proof (rule demo_okE [OF demo_move_run])
  fix r msg
  assume p: "post_protocol demo_env (demo_world 2) demo_move demo_s1 = (r, demo_s2)" "rs_status r = 200"
    "decode_protocol (hr_body demo_move) = Some msg" "pm_action msg = ''MoveIdentity''"
  from move_identity_moves [OF demo_ready(2) p] p show ?thesis by blast
qed

theorem activity_pub_verified_witness:
  "\<exists>r. post_protocol demo_env (demo_world 6) demo_query demo_cached = (r, demo_cached) \<and> rs_status r = 200 \<and>
     http_verified demo_env (demo_world 6) demo_query demo_cached"
proof (rule demo_okE [OF demo_query_run])
  fix r msg
  assume p: "post_protocol demo_env (demo_world 6) demo_query demo_cached = (r, demo_cached)" "rs_status r = 200"
  have "is_activity_pub demo_query" by code_simp
  from activity_pub_verified [OF demo_ready(6) p this] p show ?thesis by blast
qed

theorem checkpoint_from_peer_witness:
  "\<exists>r msg m pk. post_protocol demo_env (demo_world 5) demo_checkpoint demo_s0 = (r, demo_checkpoint_stored) \<and>
     rs_status r = 200 \<and> decode_protocol (hr_body demo_checkpoint) = Some msg \<and>
     unmarshal_checkpoint (pm_message msg) = Inr m \<and>
     getDirectoryPublicKey (sv_peers demo_env) (cp_from_directory m) = Inr pk \<and>
     VerifyMessageSignature demo_prims msg pk = Inr ()"
proof (rule demo_okE [OF demo_checkpoint_run])
  fix r msg
  assume p: "post_protocol demo_env (demo_world 5) demo_checkpoint demo_s0 = (r, demo_checkpoint_stored)"
    "rs_status r = 200" "decode_protocol (hr_body demo_checkpoint) = Some msg" "pm_action msg = ''Checkpoint''"
  from checkpoint_from_peer [OF demo_ready(1) p] p show ?thesis by auto
qed

subsection \<open>A run against expectation\<close>

text \<open>Fireproof protects nobody: an actor that has set the flag loses all keys to a BurnDown that some
  other actor of the directory, named as operator and not enrolled for one-time passwords, has signed.\<close>

theorem fireproof_burned:
  "actor_fireproof ''alice'' (tables_of demo_f0) \<and> active_keys ''alice'' (tables_of demo_f0) \<noteq> [] \<and>
   totp_of ''mallory'' (tables_of demo_f0) = None \<and>
   (\<exists>r. post_protocol demo_env (demo_world 4) demo_burn demo_f0 = (r, demo_f1) \<and> rs_status r = 200) \<and>
   active_keys ''alice'' (tables_of demo_f1) = []"
proof (rule demo_okE [OF demo_burn_run])
  fix r msg
  assume p: "post_protocol demo_env (demo_world 4) demo_burn demo_f0 = (r, demo_f1)" "rs_status r = 200"
  have "actor_fireproof ''alice'' (tables_of demo_f0)" by code_simp
  moreover have "active_keys ''alice'' (tables_of demo_f0) \<noteq> []" by code_simp
  moreover have "totp_of ''mallory'' (tables_of demo_f0) = None" by code_simp
  moreover have "active_keys ''alice'' (tables_of demo_f1) = []" by code_simp
  ultimately show ?thesis using p by blast
qed

text \<open>Two keys, each of which asks for the other's revocation.\<close>

definition demo_pair0 :: server_state where
  "demo_pair0 = demo_state
      [\<lparr> a_id = 1, a_actor_id = ''alice'', a_is_fireproof = False, a_created_at = 0, a_updated_at = 0 \<rparr>]
      [\<lparr> pk_id = 1, pk_actor_id = 1, pk_key_id = ''k1'',
           pk_public_key = ''ed25519:AAAAAAAAAAAAAAAAAAAAAAAAAAAAAAAAAAAAAAAAAAA'',
           pk_created_at = 0, pk_merkle_root = ''r1'', pk_revoked_at = None, pk_revoke_root = None,
           pk_inclusion_proof = [] \<rparr>,
         \<lparr> pk_id = 2, pk_actor_id = 1, pk_key_id = ''k2'',
           pk_public_key = ''ed25519:AQEBAQEBAQEBAQEBAQEBAQEBAQEBAQEBAQEBAQEBAQE'',
           pk_created_at = 0, pk_merkle_root = ''r2'', pk_revoked_at = None, pk_revoke_root = None,
           pk_inclusion_proof = [] \<rparr>]
      1 2
      []"

definition demo_revocation :: "string \<Rightarrow> string \<Rightarrow> nat \<Rightarrow> flight" where
  "demo_revocation key sig i =
     \<lparr> fl_message =
         \<lparr> pm_context = PKDContextV1, pm_action = ''RevokeKey'', pm_key_id = [],
           pm_message = ''{\"actor\":\"alice\",\"time\":\"1\",\"public-key\":\"ed25519:'' @ key @ ''\"}'',
           pm_recent_merkle_root = [], pm_signature = sig, pm_symmetric_keys = [], pm_otp = [] \<rparr>,
       fl_world = demo_world i, fl_phase = Arrived \<rparr>"

definition demo_flights :: "flight list" where
  "demo_flights =
     [demo_revocation ''AAAAAAAAAAAAAAAAAAAAAAAAAAAAAAAAAAAAAAAAAAA'' ''AQEBAQEBAQEBAQEBAQEBAQEBAQEBAQEBAQEBAQEBAQHe'' 1,
      demo_revocation ''AQEBAQEBAQEBAQEBAQEBAQEBAQEBAQEBAQEBAQEBAQE'' ''AAAAAAAAAAAAAAAAAAAAAAAAAAAAAAAAAAAAAAAAAADe'' 2]"

lemma demo_race_run:
  "case run_schedule demo_env [0, 1, 0, 0, 1, 1] demo_flights demo_pair0 of (fs, st) \<Rightarrow>
     list_all (revokes_for ''alice'') fs \<and> length fs = 2 \<and> active_keys ''alice'' (tables_of st) = []"
  by code_simp

lemma demo_flights_arrived: "\<forall>f \<in> set demo_flights. fl_phase f = Arrived" "length demo_flights = 2"
  by (simp_all add: demo_flights_def demo_revocation_def)

lemma demo_raced:
  obtains fs st where "interleaved demo_env demo_flights demo_pair0 fs st" "list_all (revokes_for ''alice'') fs"
    "length fs = 2" "active_keys ''alice'' (tables_of st) = []"
proof -
  obtain fs st where run: "run_schedule demo_env [0, 1, 0, 0, 1, 1] demo_flights demo_pair0 = (fs, st)"
    by (cases "run_schedule demo_env [0, 1, 0, 0, 1, 1] demo_flights demo_pair0")
  have "interleaved demo_env demo_flights demo_pair0 fs st"
    by (rule run_schedule_interleaved [OF interleaved.start _ run]) (simp add: demo_flights_arrived)
  with demo_race_run [unfolded run split_conv] that show ?thesis by blast
qed



subsection \<open>Two back ends\<close>

definition demo_pg0 :: server_state where
  "demo_pg0 =
     demo_s0\<lparr> ss_db := PostgresDB
       \<lparr> pg_tables = empty_tables, pg_seq = zero_sequences, pg_tx = None, pg_clock = 0, pg_faults = [] \<rparr> \<rparr>"


end
