(* ===== verification/Cli.thy ===== *)
theory Cli
  imports Server
begin

section \<open>The command line\<close>

text \<open>
  \<^verbatim>\<open>cmd/\<close>, the program \<^verbatim>\<open>pkd-admin\<close>: \<^verbatim>\<open>keygen\<close>, \<^verbatim>\<open>token mint\<close> and
  \<^verbatim>\<open>actor crypto-shred\<close>, and how their results fit the server. The flags are arguments; printing
  is left out. A configuration file is, as viper presents it, a map from dotted names to strings, with
  the empty string for a name that is not set.
\<close>

lemma encode_nonempty: "raw_url_encode b = [] \<longleftrightarrow> b = []"
proof -
  have "raw_url_encode [] = []" by code_simp
  then show ?thesis using raw_url.enc_eq_iff [of b "[]"] by simp
qed

subsection \<open>Generating the server's keys\<close>

type_synonym settings = "string \<Rightarrow> string"

text \<open>The files viper can read; a write that fails is taken to leave its file as it was.\<close>

type_synonym setting_files = "string \<Rightarrow> settings option"

datatype write_result = Written | FileNotFound | WriteFailed go_error

record keygen_env =
  ke_generate_key :: "bytes \<Rightarrow> bytes result"
  ke_write_as :: "string \<Rightarrow> unit result"
  ke_write_config :: "string \<Rightarrow> write_result"

record keygen_flags =
  kg_config :: string
  kg_force :: bool
  kg_driver :: string
  kg_dsn :: string
  kg_key_file :: string

datatype keygen_exit = Generated | NotGenerated go_error | ExitOne string

definition no_settings :: settings where
  "no_settings = (\<lambda>_. [])"

definition new_config :: "keygen_flags \<Rightarrow> settings \<Rightarrow> settings" where
  "new_config fl cfg =
     cfg(''server.key_file.path'' := kg_key_file fl, ''database.driver'' := kg_driver fl,
         ''database.dsn'' := (if kg_driver fl = ''sqlite'' then ''pkd.db'' else kg_dsn fl))"

definition new_keys :: "bytes \<Rightarrow> bytes \<Rightarrow> settings" where
  "new_keys privKey hpkeSecretKey =
     no_settings(''server.private_key'' := EncodePrivateKey privKey,
       ''server.hpke_secret_key'' := raw_url_encode hpkeSecretKey)"

definition write_new_config :: "keygen_env \<Rightarrow> keygen_flags \<Rightarrow> settings \<Rightarrow> setting_files \<Rightarrow> keygen_exit \<times> setting_files" where
  "write_new_config env fl cfg files =
     (let files' = files(kg_config fl \<mapsto> cfg) in
      case ke_write_config env (kg_config fl) of
        Written \<Rightarrow> (Generated, files')
      | FileNotFound \<Rightarrow>
          (case ke_write_as env (kg_config fl) of
             Inl e \<Rightarrow> (ExitOne (''Error writing config file: '' @ error_text e), files)
           | Inr _ \<Rightarrow> (Generated, files'))
      | WriteFailed e \<Rightarrow> (ExitOne (''Error writing config file: '' @ error_text e), files))"

text \<open>The entropy gives the seed of the signing key, then the 32 bytes of the HPKE key.\<close>

definition keygen :: "keygen_env \<Rightarrow> keygen_flags \<Rightarrow> bytes \<Rightarrow> bytes \<Rightarrow> setting_files \<Rightarrow> keygen_exit \<times> setting_files" where
  "keygen env fl edRand hpkeRand files =
     (let cfg = (case files (kg_config fl) of None \<Rightarrow> no_settings | Some c \<Rightarrow> c);
          privKeyExists = cfg ''server.private_key'' \<noteq> [];
          hpkeKeyExists = cfg ''server.hpke_secret_key'' \<noteq> [] in
      if (privKeyExists \<or> hpkeKeyExists) \<and> \<not> kg_force fl
      then (ExitOne (''Error: keys already exist in '' @ kg_config fl @ ''. Use --force to overwrite.''), files)
      else
        (case ke_generate_key env edRand of
           Inl e \<Rightarrow> (NotGenerated e, files)
         | Inr privKey \<Rightarrow>
             (case read_full 32 hpkeRand of
                None \<Rightarrow> (NotGenerated entropy_error, files)
              | Some hpkeSecretKey \<Rightarrow>
                  (case ke_write_as env (kg_key_file fl) of
                     Inl e \<Rightarrow> (ExitOne (''Error writing key file: '' @ error_text e), files)
                   | Inr _ \<Rightarrow>
                       write_new_config env fl (new_config fl cfg)
                         (files(kg_key_file fl \<mapsto> new_keys privKey hpkeSecretKey))))))"

lemma write_new_config_done:
  "write_new_config env fl cfg files = (Generated, files') \<Longrightarrow> files' = files(kg_config fl \<mapsto> cfg)"
  by (auto simp: write_new_config_def Let_def split: write_result.splits sum.splits)

lemma keygen_done:
  assumes "keygen env fl r1 r2 files = (Generated, files')"
  obtains privKey cfg where "ke_generate_key env r1 = Inr privKey" "32 \<le> length r2"
    "files' = files(kg_key_file fl \<mapsto> new_keys privKey (take 32 r2), kg_config fl \<mapsto> new_config fl cfg)"
    "cfg = (case files (kg_config fl) of None \<Rightarrow> no_settings | Some c \<Rightarrow> c)"
    "kg_force fl \<or> cfg ''server.private_key'' = [] \<and> cfg ''server.hpke_secret_key'' = []"
  using assms
  by (auto simp: keygen_def Let_def read_full_def split: if_splits sum.splits option.splits
      dest!: write_new_config_done)

text \<open>C34. What \<^verbatim>\<open>keygen\<close> has written is what the server starts with: reading the key file it names,
  \<^verbatim>\<open>LoadAndValidate\<close> succeeds, and the signing key is the generated one, the HPKE pair the one of the
  generated seed.\<close>

theorem keygen_configures:
  assumes "keygen env fl edRand hpkeRand files = (Generated, files')" "kg_key_file fl \<noteq> kg_config fl"
    and "ke_generate_key env edRand = Inr privKey" "length privKey = 64"
    and read: "ce_key_file cenv (kg_key_file fl) = (case files' (kg_key_file fl) of None \<Rightarrow> Inl e | Some s \<Rightarrow> Inr s)"
    and load: "ce_load cenv path = Inr cfg" "files' (kg_config fl) = Some s"
      "kf_path (sc_key_file (cfg_server cfg)) = s ''server.key_file.path''" "kg_key_file fl \<noteq> []"
    and derive: "ce_derive cenv (take 32 hpkeRand) = Some (pk, sk)"
  shows "\<exists>cfg'. LoadAndValidate cenv path = Some (Inr cfg') \<and>
    sc_signing_key (cfg_server cfg') = privKey \<and> sc_hpke_private_key (cfg_server cfg') = Some sk \<and>
    sc_private_key (cfg_server cfg') = EncodePrivateKey privKey"
proof -
  obtain c where n: "32 \<le> length hpkeRand"
    and f: "files' = files(kg_key_file fl \<mapsto> new_keys privKey (take 32 hpkeRand), kg_config fl \<mapsto> new_config fl c)"
    using assms(3) by (rule_tac keygen_done [OF assms(1)]) auto
  have s: "s ''server.key_file.path'' = kg_key_file fl" using f load(2) by (auto simp: new_config_def)
  have k: "ce_key_file cenv (kg_key_file fl) = Inr (new_keys privKey (take 32 hpkeRand))"
    using read f assms(2) by simp
  have "raw_url_encode (take 32 hpkeRand) \<noteq> []" "raw_url_encode privKey \<noteq> []"
    using n assms(4) by (auto simp: encode_nonempty)
  then show ?thesis
    using load(1,3,4) s k derive assms(4)
    by (simp add: LoadAndValidate_def load_key_file_def decode_keys_def new_keys_def no_settings_def
        EncodePrivateKey_def DecodeSecretKey_def)
qed

text \<open>The guard against overwriting looks only into the configuration file, where \<^verbatim>\<open>keygen\<close> itself puts
  no keys: after a first run, a second one without \<^verbatim>\<open>--force\<close> goes through and replaces the keys.\<close>

theorem keygen_overwrites:
  assumes "keygen env fl r1 r2 (\<lambda>_. None) = (Generated, files1)" "kg_key_file fl \<noteq> kg_config fl" "\<not> kg_force fl"
    and "ke_generate_key env r3 = Inr privKey" "32 \<le> length r4"
  shows "\<exists>files2. keygen env fl r3 r4 files1 = (Generated, files2) \<and>
    files2 (kg_key_file fl) = Some (new_keys privKey (take 32 r4))"
proof -
  obtain c where f: "files1 (kg_config fl) = Some (new_config fl c)" and c: "c = no_settings"
    by (rule keygen_done [OF assms(1)]) auto
  have none: "new_config fl c ''server.private_key'' = []" "new_config fl c ''server.hpke_secret_key'' = []"
    by (simp_all add: new_config_def c no_settings_def)
  have key: "ke_write_as env (kg_key_file fl) = Inr ()"
    and conf: "ke_write_config env (kg_config fl) = Written \<or>
      ke_write_config env (kg_config fl) = FileNotFound \<and> ke_write_as env (kg_config fl) = Inr ()"
    using assms(1)
    by (auto simp: keygen_def write_new_config_def Let_def split: if_splits sum.splits option.splits write_result.splits)
  show ?thesis
    using assms(2-5) none f key conf
    by (auto simp: keygen_def write_new_config_def Let_def read_full_def)
qed

subsection \<open>The repository of a command\<close>

text \<open>The results of opening either database; without a driver it is PostgreSQL.\<close>

definition cli_repository :: "sqlite_db result \<Rightarrow> pg_db result \<Rightarrow> config \<Rightarrow> database result" where
  "cli_repository sqlite postgres cfg =
     (let driver = dc_driver (cfg_database cfg) in
      if driver = ''sqlite'' then map_sum id SQLiteDB sqlite
      else if driver = ''postgres'' \<or> driver = [] then map_sum id PostgresDB postgres
      else Inl (Errorf (''unsupported database driver: '' @ driver)))"

text \<open>Unlike the administrator's endpoint, the command reports an actor that does not exist.\<close>

definition actorCryptoShred ::
  "config result \<Rightarrow> sqlite_db result \<Rightarrow> pg_db result \<Rightarrow> nat \<Rightarrow> string \<Rightarrow> unit result \<times> database option" where
  "actorCryptoShred loaded sqlite postgres unixNano actorID =
     (case loaded of
        Inl e \<Rightarrow> (Inl e, None)
      | Inr cfg \<Rightarrow>
          (case cli_repository sqlite postgres cfg of
             Inl e \<Rightarrow> (Inl e, None)
           | Inr repo \<Rightarrow>
               (case CryptoShred db_repo unixNano actorID repo of (r, repo') \<Rightarrow> (r, Some repo'))))"

lemma actorCryptoShred_effect:
  assumes "actorCryptoShred (Inr cfg) sqlite postgres nano a = (r, Some d')" "cli_repository sqlite postgres cfg = Inr d"
    and "db_good d" "db_pending d = None"
  shows "db_good d' \<and> db_pending d' = None \<and>
    (case r of Inl _ \<Rightarrow> db_committed d' = db_committed d
     | Inr _ \<Rightarrow> \<exists>root. burn_spec a root (db_committed d) () (db_committed d'))"
proof -
  have "CryptoShred db_repo nano a d = (r, d')"
    using assms(1,2) by (auto simp: actorCryptoShred_def split: prod.splits)
  then show ?thesis
    using conn_okD [OF db.burn_down_ok assms(3,4)] unfolding CryptoShred_def by (fastforce split: sum.splits)
qed

subsection \<open>Minting tokens\<close>

definition mint_key_manager :: "config \<Rightarrow> string \<Rightarrow> string \<Rightarrow> key_manager" where
  "mint_key_manager cfg keyFile password =
     (let kf = sc_key_file (cfg_server cfg) in
      \<lparr> km_path = keyFile, km_password = bytes_of_string password, km_time = kf_argon2id_time kf,
        km_memory = kf_argon2id_memory kf, km_threads = kf_argon2id_threads kf \<rparr>)"

definition tokenMint ::
  "token_prims \<Rightarrow> config result \<Rightarrow> sqlite_db result \<Rightarrow> pg_db result \<Rightarrow> string \<Rightarrow> string \<Rightarrow> bytes \<Rightarrow>
   token_entropy \<Rightarrow> token_entropy \<Rightarrow> int \<Rightarrow> nat \<Rightarrow> (files, string \<times> string) op" where
  "tokenMint T loaded sqlite postgres keyFile password rand e1 e2 zone now =
     bind_op (lift_op loaded) (\<lambda>cfg.
     bind_op (lift_op (cli_repository sqlite postgres cfg)) (\<lambda>repo.
     bind_op (NewFileKeyManager T rand (mint_key_manager cfg keyFile password)) (\<lambda>keyManager fs.
     (NewPair T fs (NewPasetoTokenService keyManager cfg zone) e1 e2 now, fs))))"

lemma NewFileKeyManager_exists:
  assumes "NewFileKeyManager T rand km fs = (Inr km', fs')"
  shows "NewFileKeyManager T rand2 km fs' = (Inr km, fs')"
proof -
  have "km_path km \<noteq> []" using assms by (rule NewFileKeyManager_path)
  moreover have "\<exists>c cs. fs_content fs' (km_path km) = Some (c # cs)" "\<not> fs_refused fs' (km_path km)"
    if "generateAndSaveKey T rand km fs = (Inr (), fs')"
    using that
    by (auto simp: generateAndSaveKey_def os_WriteFile_def fail_op_def Let_def read_full_def neq_Nil_conv [symmetric]
        encode_nonempty
        split: option.splits sum.splits if_splits)
  ultimately show ?thesis
    using assms
    by (auto simp: NewFileKeyManager_def os_Stat_def op_defs split: option.splits sum.splits prod.splits if_splits)
qed

lemma validateToken_manager:
  "ts_key_manager s = ts_key_manager s' \<Longrightarrow> validateToken T fs s n t ty = validateToken T fs s' n t ty"
  by (simp add: validateToken_def)

text \<open>C33. A token minted on the command line opens the administrator's routes of a server that uses the same
  key file, password and parameters, for fifteen minutes, wherever and under whatever host name it was
  minted.\<close>

theorem minted_token_admits:
  assumes "paseto_correct T"
    and mint: "tokenMint T (Inr cfg) sqlite postgres keyFile password rand e1 e2 zone now fs = (Inr (access, refresh), fs1)"
    and router: "NewRouter T rand2 zone2 env scfg public match unmatched fs1 = (Inr R, fs2)"
    and same_key: "file_key_manager scfg (kf_password (sc_key_file (cfg_server scfg))) = mint_key_manager cfg keyFile password"
    and req: "header_get req ''Authorization'' = ''Bearer '' @ access" "CHR '' '' \<notin> set access"
      "header_get req ''X-PKD-Key-Password'' = []"
    and time: "\<bar>zone\<bar> < 1440" "0 \<le> int (now + 900) + 60 * zone"
      "fst (civil_from_days (nat (int (now + 900) + 60 * zone) div 86400)) < 10000"
      "aw_now_ns aw \<le> int (now + 900) * 1000000000"
  shows "\<exists>claims. authMiddleware T (ro_config R) (ro_tokens R) aw req fs2 = (Inr claims, fs2)"
proof -
  let ?km = "mint_key_manager cfg keyFile password"
  obtain km' where km: "NewFileKeyManager T rand ?km fs = (Inr km', fs1)"
    and pair: "NewPair T fs1 (NewPasetoTokenService km' cfg zone) e1 e2 now = Inr (access, refresh)"
    using mint by (auto simp: tokenMint_def op_defs split: sum.splits prod.splits)
  note km' = NewFileKeyManager_same [OF km]
  have R: "ro_tokens R = NewPasetoTokenService ?km scfg zone2" "ro_config R = scfg" "fs2 = fs1"
    using router NewFileKeyManager_exists [OF km, of rand2] unfolding NewRouter_def same_key
    by (auto simp: op_defs)
  have tok: "newToken T fs1 (NewPasetoTokenService ?km cfg zone) (te_uuid e1) (te_nonce e1) access_claims now 900 = Inr access"
    using pair unfolding km' by (auto simp: NewPair_def newAccessToken_def split: sum.splits)
  have "expressible (NewPasetoTokenService ?km cfg zone) (now + 900)"
    using time(1-3) by (simp add: expressible_def NewPasetoTokenService_def)
  from issued_token [OF assms(1) this tok, of "aw_now_ns aw" "''access''"] obtain jti where
    "validateToken T fs1 (NewPasetoTokenService ?km cfg zone) (aw_now_ns aw) access ''access'' =
       token_verdict (NewPasetoTokenService ?km cfg zone) now 900 jti access_values True (aw_now_ns aw)" by auto
  then have "ValidateAccessToken T fs1 (NewPasetoTokenService ?km scfg zone2) (aw_now_ns aw) access =
      Inr (read_members (claim_values (NewPasetoTokenService ?km cfg zone) now 900 jti @ access_values))"
    using time(4) validateToken_manager [of "NewPasetoTokenService ?km scfg zone2" "NewPasetoTokenService ?km cfg zone"]
    by (simp add: ValidateAccessToken_def token_verdict_def NewPasetoTokenService_def)
  moreover have "ToLower ''Bearer'' = ''bearer''" by code_simp
  then have "bearer_token req = Inr access"
    using req(1,2) split_on_append [of "CHR '' ''" "''Bearer''" access] split_on_none [of "CHR '' ''" access]
    by (simp add: bearer_token_def)
  ultimately show ?thesis
    using req(3) by (simp add: R authMiddleware_def request_claims_def claims_read)
qed

end
