(* ===== verification/Gossip.thy ===== *)
theory Gossip
  imports Server Envelope
begin

section \<open>Checkpoints between two servers\<close>

text \<open>
  The body that \<^verbatim>\<open>handleTriggerCheckpoint\<close> of one server posts, at the protocol endpoint of another:
  it is decoded to the envelope that was signed, the signature verifies under the sender's key, and
  what is stored is the body.
\<close>

definition signed_envelope :: "checkpoint_message \<Rightarrow> string \<Rightarrow> protocol_message" where
  "signed_envelope m sig = (checkpoint_envelope (marshal_checkpoint m))\<lparr> pm_signature := sig \<rparr>"

lemma signed_envelope_sent: "signed_envelope m sig = sent_message ''Checkpoint'' (checkpoint_fields m) sig []"
  by (simp add: signed_envelope_def checkpoint_envelope_def sent_message_def marshal_checkpoint_def string_object_def)

abbreviation checkpoint_body :: "checkpoint_message \<Rightarrow> string \<Rightarrow> string" where
  "checkpoint_body m sig \<equiv> json_object (written (envelope_values ''Checkpoint'' (checkpoint_fields m) sig []))"

lemma marshal_envelope: "marshal_protocol (signed_envelope m sig) = Inr (checkpoint_body m sig)"
  unfolding signed_envelope_sent by (rule marshal_sent) (simp add: checkpoint_fields_def)

lemma decode_envelope:
  assumes "to_valid_utf8 sig = sig"
  shows "decode_protocol (checkpoint_body m sig) = Some (signed_envelope m sig)"
proof -
  have "to_valid_utf8 ''Checkpoint'' = ''Checkpoint''" by (rule to_valid_utf8_ascii, code_simp)
  with assms show ?thesis
    unfolding signed_envelope_sent
    by (subst decode_sent) (simp_all add: checkpoint_fields_def map_text_def)
qed

lemma sign_checkpoint_body:
  assumes "sign_checkpoint P sk (checkpoint_envelope (marshal_checkpoint m)) = Some (Inr body)"
  obtains c sig where "canonical_bytes P (signed_part (checkpoint_envelope (marshal_checkpoint m))) = Inr c"
    "SignMessage P sk c = Some sig" "body = checkpoint_body m sig"
  using assms marshal_envelope [of m]
  by (auto simp: sign_checkpoint_def canonical_bytes_def signed_envelope_def split: sum.splits option.splits)


end
