(* ===== verification/Startup.thy ===== *)
theory Startup
  imports Server Scheduler
begin

section \<open>Starting the server\<close>

text \<open>
  \<^verbatim>\<open>server/main.go\<close>: the configuration, the database, the service with its validators, the router and
  the scheduler, in this order; whatever fails ends the process with a message. A state the process
  listens in is a state in which the theorems about \<open>serving\<close> and \<open>scheduled\<close> begin.
\<close>

text \<open>
  The configuration as viper gives it, the databases behind each data source name, the answers of the drivers
  and of the network, the libraries, and the patterns of the router.
\<close>

record startup_env =
  su_config :: config_env
  su_connect :: "string \<Rightarrow> string \<Rightarrow> unit result"
  su_pragma :: "unit result"
  su_ping :: "unit result"
  su_listen :: "string \<Rightarrow> unit result"
  su_sqlite :: "string \<Rightarrow> sqlite_db"
  su_postgres :: "string \<Rightarrow> pg_db"
  su_prims :: prims
  su_enc :: enc_prims
  su_parse_age :: "string \<Rightarrow> unit result"
  su_parse_ssh :: "string \<Rightarrow> unit result"
  su_url_parse :: "string \<Rightarrow> parsed_url result"
  su_token_prims :: token_prims
  su_rand :: bytes
  su_zone :: int
  su_public_json :: "string result"
  su_match :: "string \<Rightarrow> string \<Rightarrow> (string \<times> (string \<Rightarrow> string)) option"
  su_unmatched :: "http_request \<Rightarrow> response"

text \<open>An empty data source name is a database in memory.\<close>

definition NewSQLiteRepository :: "startup_env \<Rightarrow> string \<Rightarrow> sqlite_db result" where
  "NewSQLiteRepository S dsn =
     (let dsn' = (if dsn = [] then '':memory:'' else dsn) in
      case wrap_error ''failed to connect to sqlite'' (su_connect S ''sqlite3'' dsn') of
        Inl e \<Rightarrow> Inl e
      | Inr _ \<Rightarrow>
          (case wrap_error ''failed to enable foreign keys'' (su_pragma S) of
             Inl e \<Rightarrow> Inl e
           | Inr _ \<Rightarrow> Inr (su_sqlite S dsn')))"

definition NewPostgresRepository :: "startup_env \<Rightarrow> string \<Rightarrow> pg_db result" where
  "NewPostgresRepository S dsn =
     (case wrap_error ''failed to connect to postgres'' (su_connect S ''pgx'' dsn) of
        Inl e \<Rightarrow> Inl e
      | Inr _ \<Rightarrow> Inr (su_postgres S dsn))"

text \<open>The switch over the driver; \<open>None\<close>: it is not supported. The server refuses an unset driver.\<close>

definition open_repository :: "startup_env \<Rightarrow> database_config \<Rightarrow> database result option" where
  "open_repository S dc =
     (if dc_driver dc = ''sqlite'' then Some (map_sum id SQLiteDB (NewSQLiteRepository S (dc_dsn dc)))
      else if dc_driver dc = ''postgres'' then Some (map_sum id PostgresDB (NewPostgresRepository S (dc_dsn dc)))
      else None)"

definition enabled_validators :: "startup_env \<Rightarrow> aux_registry" where
  "enabled_validators S = NewPKDService [AgeValidator (su_parse_age S), SSHValidator (su_parse_ssh S)]"

text \<open>\<open>Crashed\<close>: a panic, in the derivation of the HPKE keys or in \<^verbatim>\<open>time.NewTicker\<close>.\<close>

datatype startup = Crashed | Fatal string | Listening string router process_state scheduler

definition serve_with :: "startup_env \<Rightarrow> config \<Rightarrow> database \<Rightarrow> files \<Rightarrow> startup" where
  "serve_with S cfg repo fs =
     (case NewRouter (su_token_prims S) (su_rand S) (su_zone S)
             (router_env (su_prims S) (su_enc S) (enabled_validators S) (su_url_parse S) cfg) cfg (su_public_json S)
             (su_match S) (su_unmatched S) fs of
        (Inl e, _) \<Rightarrow> Fatal (''Failed to create key manager: '' @ error_text e)
      | (Inr R, fs') \<Rightarrow>
          (let sched = Start cfg NewScheduler;
               addr = sc_host (cfg_server cfg) @ '':'' @ decimal_int (sc_port (cfg_server cfg)) in
           if sd_crashed sched then Crashed
           else
             (case su_listen S addr of
                Inl e \<Rightarrow> Fatal (''Server failed to start: '' @ error_text e)
              | Inr _ \<Rightarrow>
                  Listening addr R
                    \<lparr> pr_server = \<lparr> ss_db = repo, ss_log = [], ss_cache = [] \<rparr>, pr_files = fs' \<rparr> sched)))"

definition main :: "startup_env \<Rightarrow> files \<Rightarrow> startup" where
  "main S fs =
     (case LoadAndValidate (su_config S) [] of
        None \<Rightarrow> Crashed
      | Some (Inl e) \<Rightarrow> Fatal (''Failed to load configuration: '' @ error_text e)
      | Some (Inr cfg) \<Rightarrow>
          (case open_repository S (cfg_database cfg) of
             None \<Rightarrow> Fatal (''Unsupported database driver: '' @ dc_driver (cfg_database cfg))
           | Some (Inl e) \<Rightarrow> Fatal (''Failed to connect to the database: '' @ error_text e)
           | Some (Inr repo) \<Rightarrow>
               (case su_ping S of
                  Inl e \<Rightarrow> Fatal (''Failed to ping the database: '' @ error_text e)
                | Inr _ \<Rightarrow> serve_with S cfg repo fs)))"

lemma main_listening:
  assumes "main S fs = Listening addr R ps sched"
  obtains cfg repo where "LoadAndValidate (su_config S) [] = Some (Inr cfg)"
    "open_repository S (cfg_database cfg) = Some (Inr repo)" "serve_with S cfg repo fs = Listening addr R ps sched"
  using assms by (auto simp: main_def split: option.splits sum.splits)

lemma serve_with_listening:
  assumes "serve_with S cfg repo fs = Listening addr R ps sched"
  shows "ro_config R = cfg" "sv_peers (ro_env R) = map (\<lambda>(u, p). (u, pc_public_key p)) (cfg_peers cfg)"
    "sv_hpke_private (ro_env R) = sc_hpke_private_key (cfg_server cfg)" "sv_registry (ro_env R) = enabled_validators S"
    "ss_db (pr_server ps) = repo" "sched = Start cfg NewScheduler" "\<not> sd_crashed sched"
  using assms
  by (auto simp: serve_with_def NewRouter_def router_env_def op_defs Let_def
      split: sum.splits prod.splits if_splits)

lemma Start_scheduled: "scheduled P cfg (Start cfg NewScheduler)"
  by (rule scheduled.step [OF scheduled.new sched_step.start]) (simp_all add: NewScheduler_def)

text \<open>Once started, a scheduler of a validated configuration keeps running.\<close>

lemma started_run:
  assumes "sched_run P cfg n s s'" "LoadAndValidate cenv path = Some (Inr cfg)"
    and "sd_started s" "\<not> sd_crashed s" "scheduled P cfg s"
  shows "scheduled P cfg s' \<and> sd_started s' \<and> \<not> sd_crashed s'"
  using assms(1,3-5)
proof (induction rule: sched_run.induct)
  case (one_step s s' n s'')
  have never: "triggerCheckpoint P cfg now latest \<noteq> Panicked" for now latest
    using trigger_never_sends [OF assms(2)] by (metis trigger_outcome.distinct(3))
  have "scheduled P cfg s'" using one_step.prems(3) one_step.hyps(1) by (rule scheduled.step)
  moreover from one_step.hyps(1) one_step.prems(1,2) have "sd_started s' \<and> \<not> sd_crashed s'"
    by (auto simp: Stop_fields never elim!: sched_stepE)
  ultimately show ?case using one_step.IH by blast
qed simp


end
