(* ===== verification/ApiTypes.thy ===== *)
theory ApiTypes
  imports Routes
begin

section \<open>The documented answers\<close>

text \<open>
  \<^verbatim>\<open>internal/protocol/api.go\<close>: the objects the specification prescribes for the REST routes, each as a
  record with the text \<^verbatim>\<open>json.Marshal\<close> makes of it. None of them is used by a handler, and the last
  part shows what that means. Raw messages and the members of an open map are given as texts; an empty
  slice is taken to be nil. The three requests are not decoded anywhere and have no more than their fields.
\<close>

text \<open>A raw message behind a pointer, and a map that is left out when empty.\<close>

definition raw_or_null :: "string option \<Rightarrow> string option" where
  "raw_or_null m = (case m of None \<Rightarrow> Some ''null'' | Some raw \<Rightarrow> marshal_raw raw)"

definition rewrapped_member :: "(string \<times> string) list \<Rightarrow> (string \<times> string) list" where
  "rewrapped_member keys = (if keys = [] then [] else [(''rewrapped-keys'', json_object keys)])"

subsection \<open>Objects within answers\<close>

record PublicKeyObject =
  apk_created :: string
  apk_key_id :: string
  apk_inclusion_proof :: "string list"
  apk_merkle_root :: string
  apk_public_key :: string

definition marshal_PublicKeyObject :: "PublicKeyObject \<Rightarrow> string" where
  "marshal_PublicKeyObject r =
     json_object
       [(''created'', json_string (apk_created r)),
        (''key-id'', json_string (apk_key_id r)),
        (''inclusion-proof'', json_slice json_string (apk_inclusion_proof r)),
        (''merkle-root'', json_string (apk_merkle_root r)),
        (''public-key'', json_string (apk_public_key r))]"

record AuxiliaryInfo =
  aif_aux_id :: string
  aif_aux_type :: string
  aif_created :: string

definition marshal_AuxiliaryInfo :: "AuxiliaryInfo \<Rightarrow> string" where
  "marshal_AuxiliaryInfo r =
     json_object
       [(''aux-id'', json_string (aif_aux_id r)),
        (''aux-type'', json_string (aif_aux_type r)),
        (''created'', json_string (aif_created r))]"

record HistoryRecord =
  hrc_created :: string
  hrc_encrypted_message :: string
  hrc_message :: "string option"
  hrc_merkle_root :: string
  hrc_rewrapped_keys :: "(string \<times> string) list"

definition marshal_HistoryRecord :: "HistoryRecord \<Rightarrow> string option" where
  "marshal_HistoryRecord r =
     map_option (\<lambda>msg. json_object ([(''created'', json_string (hrc_created r)),
          (''encrypted-message'', json_string (hrc_encrypted_message r)),
          (''message'', msg),
          (''merkle-root'', json_string (hrc_merkle_root r))] @
         rewrapped_member (hrc_rewrapped_keys r)))
       (raw_or_null (hrc_message r))"

record ExtensionObject =
  ext_id :: string
  ext_version :: string
  ext_ref :: string

definition marshal_ExtensionObject :: "ExtensionObject \<Rightarrow> string" where
  "marshal_ExtensionObject r =
     json_object
       [(''id'', json_string (ext_id r)),
        (''version'', json_string (ext_version r)),
        (''ref'', json_string (ext_ref r))]"

record ReplicaObject =
  rep_id :: string
  rep_ref :: string

definition marshal_ReplicaObject :: "ReplicaObject \<Rightarrow> string" where
  "marshal_ReplicaObject r =
     json_object
       [(''id'', json_string (rep_id r)),
        (''ref'', json_string (rep_ref r))]"

subsection \<open>Answers\<close>

record ActorInfoResponse =
  air_pkd_context :: string
  air_actor_id :: string
  air_count_aux :: int
  air_count_keys :: int

definition marshal_ActorInfoResponse :: "ActorInfoResponse \<Rightarrow> string" where
  "marshal_ActorInfoResponse r =
     json_object
       [(''!pkd-context'', json_string (air_pkd_context r)),
        (''actor-id'', json_string (air_actor_id r)),
        (''count-aux'', decimal_int (air_count_aux r)),
        (''count-keys'', decimal_int (air_count_keys r))]"

record ActorKeysResponse =
  akr_pkd_context :: string
  akr_actor_id :: string
  akr_public_keys :: "PublicKeyObject list"

definition marshal_ActorKeysResponse :: "ActorKeysResponse \<Rightarrow> string" where
  "marshal_ActorKeysResponse r =
     json_object
       [(''!pkd-context'', json_string (akr_pkd_context r)),
        (''actor-id'', json_string (akr_actor_id r)),
        (''public-keys'', json_slice marshal_PublicKeyObject (akr_public_keys r))]"

record KeyInfoResponse =
  kir_pkd_context :: string
  kir_actor_id :: string
  kir_created :: string
  kir_inclusion_proof :: "string list"
  kir_key_id :: string
  kir_merkle_root :: string
  kir_public_key :: string
  kir_revoked :: "string option"
  kir_revoke_root :: "string option"

definition marshal_KeyInfoResponse :: "KeyInfoResponse \<Rightarrow> string" where
  "marshal_KeyInfoResponse r =
     json_object
       [(''!pkd-context'', json_string (kir_pkd_context r)),
        (''actor-id'', json_string (kir_actor_id r)),
        (''created'', json_string (kir_created r)),
        (''inclusion-proof'', json_slice json_string (kir_inclusion_proof r)),
        (''key-id'', json_string (kir_key_id r)),
        (''merkle-root'', json_string (kir_merkle_root r)),
        (''public-key'', json_string (kir_public_key r)),
        (''revoked'', json_or_null json_string (kir_revoked r)),
        (''revoke-root'', json_or_null json_string (kir_revoke_root r))]"

record ActorAuxiliaryResponse =
  aar_pkd_context :: string
  aar_actor_id :: string
  aar_auxiliary :: "AuxiliaryInfo list"

definition marshal_ActorAuxiliaryResponse :: "ActorAuxiliaryResponse \<Rightarrow> string" where
  "marshal_ActorAuxiliaryResponse r =
     json_object
       [(''!pkd-context'', json_string (aar_pkd_context r)),
        (''actor-id'', json_string (aar_actor_id r)),
        (''auxiliary'', json_slice marshal_AuxiliaryInfo (aar_auxiliary r))]"

record AuxiliaryDataInfoResponse =
  adr_pkd_context :: string
  adr_actor_id :: string
  adr_aux_data :: string
  adr_aux_id :: string
  adr_aux_type :: string
  adr_created :: string
  adr_inclusion_proof :: "string list"
  adr_merkle_root :: string
  adr_revoked :: "string option"
  adr_revoke_root :: "string option"

definition marshal_AuxiliaryDataInfoResponse :: "AuxiliaryDataInfoResponse \<Rightarrow> string" where
  "marshal_AuxiliaryDataInfoResponse r =
     json_object
       [(''!pkd-context'', json_string (adr_pkd_context r)),
        (''actor-id'', json_string (adr_actor_id r)),
        (''aux-data'', json_string (adr_aux_data r)),
        (''aux-id'', json_string (adr_aux_id r)),
        (''aux-type'', json_string (adr_aux_type r)),
        (''created'', json_string (adr_created r)),
        (''inclusion-proof'', json_slice json_string (adr_inclusion_proof r)),
        (''merkle-root'', json_string (adr_merkle_root r)),
        (''revoked'', json_or_null json_string (adr_revoked r)),
        (''revoke-root'', json_or_null json_string (adr_revoke_root r))]"

record HistoryResponse =
  hr0_pkd_context :: string
  hr0_current_time :: string
  hr0_created :: string
  hr0_merkle_root :: string

definition marshal_HistoryResponse :: "HistoryResponse \<Rightarrow> string" where
  "marshal_HistoryResponse r =
     json_object
       [(''!pkd-context'', json_string (hr0_pkd_context r)),
        (''current-time'', json_string (hr0_current_time r)),
        (''created'', json_string (hr0_created r)),
        (''merkle-root'', json_string (hr0_merkle_root r))]"

record HistorySinceResponse =
  hsr_pkd_context :: string
  hsr_current_time :: string
  hsr_records :: "HistoryRecord list"

definition marshal_HistorySinceResponse :: "HistorySinceResponse \<Rightarrow> string option" where
  "marshal_HistorySinceResponse r =
     map_option (\<lambda>records. json_object
         [(''!pkd-context'', json_string (hsr_pkd_context r)),
          (''current-time'', json_string (hsr_current_time r)),
          (''records'', json_slice id records)])
       (those (map marshal_HistoryRecord (hsr_records r)))"

record HistoryViewResponse =
  hvr_pkd_context :: string
  hvr_created :: string
  hvr_encrypted_message :: string
  hvr_inclusion_proof :: "string list"
  hvr_message :: "string option"
  hvr_merkle_root :: string
  hvr_rewrapped_keys :: "(string \<times> string) list"

definition marshal_HistoryViewResponse :: "HistoryViewResponse \<Rightarrow> string option" where
  "marshal_HistoryViewResponse r =
     map_option (\<lambda>msg. json_object ([(''!pkd-context'', json_string (hvr_pkd_context r)),
          (''created'', json_string (hvr_created r)),
          (''encrypted-message'', json_string (hvr_encrypted_message r)),
          (''inclusion-proof'', json_slice json_string (hvr_inclusion_proof r)),
          (''message'', msg),
          (''merkle-root'', json_string (hvr_merkle_root r))] @
         rewrapped_member (hvr_rewrapped_keys r)))
       (raw_or_null (hvr_message r))"

record ExtensionsResponse =
  exr_pkd_context :: string
  exr_time :: string
  exr_extensions :: "ExtensionObject list"

definition marshal_ExtensionsResponse :: "ExtensionsResponse \<Rightarrow> string" where
  "marshal_ExtensionsResponse r =
     json_object
       [(''!pkd-context'', json_string (exr_pkd_context r)),
        (''time'', json_string (exr_time r)),
        (''extensions'', json_slice marshal_ExtensionObject (exr_extensions r))]"

record ReplicasResponse =
  rpr_pkd_context :: string
  rpr_time :: string
  rpr_replicas :: "ReplicaObject list"

definition marshal_ReplicasResponse :: "ReplicasResponse \<Rightarrow> string" where
  "marshal_ReplicasResponse r =
     json_object
       [(''!pkd-context'', json_string (rpr_pkd_context r)),
        (''time'', json_string (rpr_time r)),
        (''replicas'', json_slice marshal_ReplicaObject (rpr_replicas r))]"

record ServerPublicKeyResponse =
  spr_pkd_context :: string
  spr_current_time :: string
  spr_hpke_ciphersuite :: string
  spr_hpke_public_key :: string

definition marshal_ServerPublicKeyResponse :: "ServerPublicKeyResponse \<Rightarrow> string" where
  "marshal_ServerPublicKeyResponse r =
     json_object
       [(''!pkd-context'', json_string (spr_pkd_context r)),
        (''current-time'', json_string (spr_current_time r)),
        (''hpke-ciphersuite'', json_string (spr_hpke_ciphersuite r)),
        (''hpke-public-key'', json_string (spr_hpke_public_key r))]"

record RevokeResponse =
  rvr_pkd_context :: string
  rvr_time :: string

definition marshal_RevokeResponse :: "RevokeResponse \<Rightarrow> string" where
  "marshal_RevokeResponse r =
     json_object
       [(''!pkd-context'', json_string (rvr_pkd_context r)),
        (''time'', json_string (rvr_time r))]"

record TOTPDisenrollRequest =
  tdr_actor_id :: string
  tdr_key_id :: string
  tdr_otp :: string

record TOTPEnrollRequest =
  ter_actor_id :: string
  ter_key_id :: string
  ter_otp_current :: string
  ter_otp_previous :: string
  ter_totp_secret :: string

record TOTPRotateRequest =
  trr_actor_id :: string
  trr_key_id :: string
  trr_new_otp_current :: string
  trr_new_otp_previous :: string
  trr_new_totp_secret :: string
  trr_old_otp :: string

record TOTPGenericResponse =
  tgr_pkd_context :: string
  tgr_success :: bool
  tgr_time :: string

definition marshal_TOTPGenericResponse :: "TOTPGenericResponse \<Rightarrow> string" where
  "marshal_TOTPGenericResponse r =
     json_object
       [(''!pkd-context'', json_string (tgr_pkd_context r)),
        (''success'', json_bool (tgr_success r)),
        (''time'', json_string (tgr_time r))]"

subsection \<open>What the routes answer instead\<close>

text \<open>The texts that the specification allows as the answer of a route; the rest has none here.\<close>

fun documented :: "endpoint \<Rightarrow> string \<Rightarrow> bool" where
  "documented ActorInfo s \<longleftrightarrow> (\<exists>r. s = marshal_ActorInfoResponse r)"
| "documented ActorKeys s \<longleftrightarrow> (\<exists>r. s = marshal_ActorKeysResponse r)"
| "documented KeyInfo s \<longleftrightarrow> (\<exists>r. s = marshal_KeyInfoResponse r)"
| "documented ActorAuxiliary s \<longleftrightarrow> (\<exists>r. s = marshal_ActorAuxiliaryResponse r)"
| "documented AuxiliaryDataInfo s \<longleftrightarrow> (\<exists>r. s = marshal_AuxiliaryDataInfoResponse r)"
| "documented History s \<longleftrightarrow> (\<exists>r. s = marshal_HistoryResponse r)"
| "documented HistorySince s \<longleftrightarrow> (\<exists>r. Some s = marshal_HistorySinceResponse r)"
| "documented HistoryView s \<longleftrightarrow> (\<exists>r. Some s = marshal_HistoryViewResponse r)"
| "documented Extensions s \<longleftrightarrow> (\<exists>r. s = marshal_ExtensionsResponse r)"
| "documented Replicas s \<longleftrightarrow> (\<exists>r. s = marshal_ReplicasResponse r)"
| "documented ServerPublicKey s \<longleftrightarrow> (\<exists>r. s = marshal_ServerPublicKeyResponse r)"
| "documented Revoke s \<longleftrightarrow> (\<exists>r. s = marshal_RevokeResponse r)"
| "documented TotpEnroll s \<longleftrightarrow> (\<exists>r. s = marshal_TOTPGenericResponse r)"
| "documented TotpDisenroll s \<longleftrightarrow> (\<exists>r. s = marshal_TOTPGenericResponse r)"
| "documented TotpRotate s \<longleftrightarrow> (\<exists>r. s = marshal_TOTPGenericResponse r)"
| "documented _ s \<longleftrightarrow> False"

lemma json_object_start:
  assumes "ascii_escape c = [c]" "(of_char c :: nat) < 128"
  shows "\<exists>rest. json_object ((c # k, v) # fs) = CHR ''{'' # CHR 0x22 # c # rest"
  using assms by (cases fs) (simp_all add: json_object_def json_string_def json_escape.simps(2))

definition context_first :: "string \<Rightarrow> bool" where
  "context_first s \<longleftrightarrow> (\<exists>rest. s = CHR ''{'' # CHR 0x22 # CHR ''!'' # rest)"

lemma context_first_object:
  assumes "ascii_escape c = [c]" "(of_char c :: nat) < 128"
  shows "context_first (json_object ((c # k, v) # fs)) \<longleftrightarrow> c = CHR ''!''"
    "context_first (json_object ((c # k, v) # fs) @ t) \<longleftrightarrow> c = CHR ''!''"
  using json_object_start [OF assms, of k v fs] by (auto simp: context_first_def)

lemmas marshal_answer_defs =
  marshal_ActorInfoResponse_def marshal_ActorKeysResponse_def marshal_KeyInfoResponse_def
  marshal_ActorAuxiliaryResponse_def marshal_AuxiliaryDataInfoResponse_def marshal_HistoryResponse_def
  marshal_HistorySinceResponse_def marshal_HistoryViewResponse_def marshal_ExtensionsResponse_def
  marshal_ReplicasResponse_def marshal_ServerPublicKeyResponse_def marshal_RevokeResponse_def
  marshal_TOTPGenericResponse_def

lemma documented_start: "documented e s \<Longrightarrow> context_first s"
  by (cases e) (auto simp: marshal_answer_defs context_first_object ascii_escape_def map_option_case split: option.splits)

definition off_record :: "response \<Rightarrow> bool" where
  "off_record r \<longleftrightarrow> \<not> context_first (rs_body r)"

lemma off_record_error: "off_record (respondWithError code m)"
  by (simp add: off_record_def respondWithError_def problem_detail_def context_first_object ascii_escape_def)

lemma off_record_json: "off_record (respondWithJSON code (Inr b)) \<longleftrightarrow> \<not> context_first b"
  by (simp add: respondWithJSON_def off_record_def)

lemma off_record_slice: "\<not> context_first (json_slice f xs)"
  by (simp add: json_slice_def context_first_def)

lemma off_record_read:
  assumes "\<And>x st'. yields (g x) st' (\<lambda>r _. off_record r) (\<lambda>r _. off_record r)"
  shows "yields (then_do (call_or f (\<lambda>_. respondWithError code m)) g) st (\<lambda>r _. off_record r) (\<lambda>r _. off_record r)"
proof (rule yields_then)
  show "yields (call_or f (\<lambda>_. respondWithError code m)) st (\<lambda>r _. off_record r)
      (\<lambda>x st'. yields (g x) st' (\<lambda>r _. off_record r) (\<lambda>r _. off_record r))"
    using assms by (auto simp: yields_def [of "call_or f _"] call_or_def off_record_error split: prod.splits sum.splits)
qed

lemma off_record_bodies:
  "\<not> context_first (marshal_actor a)" "\<not> context_first (marshal_public_key k)" "\<not> context_first (marshal_auxiliary_data d)"
  by (simp_all add: marshal_actor_def marshal_public_key_def marshal_auxiliary_data_def context_first_object ascii_escape_def)

lemma off_record_key: "off_record (respondWithJSON code (map_sum id (\<lambda>key. json_object [(''public_key'', key)]) public))"
proof (cases public)
  case (Inl e)
  then show ?thesis by (simp add: respondWithJSON_def off_record_error)
next
  case (Inr key)
  then show ?thesis by (simp add: off_record_json context_first_object ascii_escape_def)
qed

text \<open>
  No answer of a REST route is the object the specification prescribes for the route, whatever its
  fields, the state of the server and its faults.
\<close>

theorem no_documented_answer:
  assumes "e \<notin> {ProtocolMessage, TriggerCheckpoint, ShredActor}"
    and "answer (endpoint_handler R i req param e) st = (r, st')"
  shows "\<not> documented e (rs_body r)"
proof (cases "e = WellKnownPKD")
  case False
  let ?O = "\<lambda>r _. off_record r"
  have "yields (endpoint_handler R i req param e) st ?O ?O"
    using assms(1) False
    by (cases e)
      (auto simp: endpoint_handler_def Let_def handleGetActorInfo_def handleGetActorKeys_def handleGetKeyInfo_def
        handleGetActorAuxiliary_def handleGetAuxiliaryDataInfo_def handleGetServerPublicKey_def handleGetExtensions_def
        handleGetReplicas_def off_record_json off_record_slice off_record_bodies off_record_key off_record_error
        placeholder_def off_record_def [of "\<lparr> rs_status = _, rs_content_type = _, rs_body = _ \<rparr>"] context_first_def [of "[]"]
        intro!: off_record_read yields_send yields_continue split: option.split)
  then show ?thesis using answer_yields [OF _ assms(2)] documented_start by (auto simp: off_record_def)
qed simp

end
