(* ===== verification/Answers.thy ===== *)
theory Answers
  imports Server
begin

section \<open>The form of the answers\<close>

text \<open>
  A small language of types for JSON values, and a proof that what the server sends has the type of its route:
  every answer of a registered route is one JSON value, of the shape its successful answers have, or a problem
  document. \<open>json_text m t v\<close> says that the text \<open>t\<close> is the value \<open>v\<close>, nested \<open>m\<close> deep, wherever in a document
  it stands.
\<close>

subsection \<open>Shapes\<close>

datatype shape =
    Text
  | Number
  | Truth
  | Nullable shape
  | Items shape
  | Fields "(string \<times> shape) list"
  | Either shape shape

fun has_shape :: "shape \<Rightarrow> json \<Rightarrow> bool" and fields_shape :: "(string \<times> shape) list \<Rightarrow> jmember list \<Rightarrow> bool" where
  "has_shape Text (JStr s) = True"
| "has_shape Number (JNum s) = True"
| "has_shape Truth (JBool b) = True"
| "has_shape (Nullable sh) v = (v = JNull \<or> has_shape sh v)"
| "has_shape (Items sh) (JArr vs) = list_all (has_shape sh) vs"
| "has_shape (Fields fs) (JObj ms) = fields_shape fs ms"
| "has_shape (Either a b) v = (has_shape a v \<or> has_shape b v)"
| "has_shape _ _ = False"
| "fields_shape [] ms = (ms = [])"
| "fields_shape ((name, sh) # fs) ms =
     (case ms of [] \<Rightarrow> False | (k, _, v) # ms' \<Rightarrow> k = name \<and> has_shape sh v \<and> fields_shape fs ms')"

subsection \<open>Texts\<close>

definition json_text :: "nat \<Rightarrow> string \<Rightarrow> json \<Rightarrow> bool" where
  "json_text m t v \<longleftrightarrow> (\<forall>d n. int m \<le> d \<longrightarrow> length t \<le> n \<longrightarrow> reads_to n d t v)"

definition shaped :: "nat \<Rightarrow> string \<Rightarrow> shape \<Rightarrow> bool" where
  "shaped m t sh \<longleftrightarrow> (\<exists>v. json_text m t v \<and> has_shape sh v)"

lemma shaped_deeper: "shaped m t sh \<Longrightarrow> m \<le> m' \<Longrightarrow> shaped m' t sh"
  unfolding shaped_def json_text_def by (meson of_nat_le_iff order_trans)

lemma json_text_reads: "(\<And>d. reads_as 1 d t v) \<Longrightarrow> json_text 0 t v"
proof -
  assume a: "\<And>d. reads_as 1 d t v"
  from a [of 0] obtain c r where "t = c # r" by (auto simp: reads_as_def)
  then have "1 \<le> n" if "length t \<le> n" for n using that by simp
  with a show ?thesis
    by (auto simp: json_text_def reads_to_def reads_as_def)
qed

lemma shaped_string: "shaped 0 (json_string s) Text"
  using json_text_reads [OF reads_as_string] by (auto simp: shaped_def intro: exI [of _ "JStr (to_valid_utf8 s)"])

lemma reads_as_literals: "reads_as 1 d ''true'' (JBool True)" "reads_as 1 d ''false'' (JBool False)" "reads_as 1 d ''null'' JNull"
proof -
  have ns: "is_space (CHR ''t'') = False" "is_space (CHR ''f'') = False" "is_space (CHR ''n'') = False"
    by (simp_all add: is_space_def)
  have "jvalue (Suc k) d (''false'' @ y) = Some (JBool False, y)" "jvalue (Suc k) d (''null'' @ y) = Some (JNull, y)" for k y
    using ns by (simp_all add: literal_at_def)
  then have "jvalue k d (''false'' @ y) = Some (JBool False, y)" "jvalue k d (''null'' @ y) = Some (JNull, y)"
    if "1 \<le> k" for k y using that by (cases k; simp)+
  then show "reads_as 1 d ''false'' (JBool False)" "reads_as 1 d ''null'' JNull"
    using ns by (auto simp: reads_as_def)
qed (rule reads_as_true)

lemma shaped_literals: "shaped 0 (json_bool b) Truth" "shaped 0 ''null'' (Nullable sh)"
  using json_text_reads [OF reads_as_literals(1)] json_text_reads [OF reads_as_literals(2)]
    json_text_reads [OF reads_as_literals(3)]
  by (cases b; force simp: shaped_def json_bool_def)+

lemma shaped_nullable: "shaped m t sh \<Longrightarrow> shaped m t (Nullable sh)"
  by (auto simp: shaped_def)

lemma shaped_or_null: "(\<And>y. x = Some y \<Longrightarrow> shaped 0 (f y) sh) \<Longrightarrow> shaped 0 (json_or_null f x) (Nullable sh)"
  by (cases x) (simp_all add: json_or_null_def shaped_literals shaped_nullable)

subsection \<open>Numbers\<close>

lemma decimal_digits: "decimal n \<noteq> [] \<and> (\<forall>c \<in> set (decimal n). is_digit c) \<and> (10 \<le> n \<longrightarrow> hd (decimal n) \<noteq> CHR ''0'')"
proof (induction n rule: decimal.induct)
  case (1 n)
  have digit: "is_digit (char_of (48 + k))" if "k < 10" for k :: nat
    using that by (simp add: is_digit_def)
  show ?case
  proof (cases "n < 10")
    case True
    then show ?thesis using digit [of n] by (simp add: decimal_small)
  next
    case False
    have "hd (decimal (n div 10)) \<noteq> CHR ''0''"
    proof (cases "10 \<le> n div 10")
      case small: False
      with False obtain k where k: "n div 10 = k" "0 < k" "k < 10" by (metis div_greater_zero_iff not_le zero_less_numeral)
      have "(of_char (char_of (48 + k)) :: nat) \<noteq> of_char (CHR ''0'')" using k(2,3) by simp
      then have "char_of (48 + k) \<noteq> CHR ''0''" by metis
      with k show ?thesis by (simp add: decimal_small)
    qed (use 1 False in auto)
    with 1 False digit [of "n mod 10"] show ?thesis by (auto simp: decimal_step)
  qed
qed

lemma digits_of_all:
  "\<forall>c \<in> set ds. is_digit c \<Longrightarrow> \<not> is_digit c \<Longrightarrow> digits_of (ds @ c # y) = (ds, c # y)"
  by (induction ds) auto

lemma not_digit: "delimiter c \<Longrightarrow> \<not> is_digit c"
  by (auto simp: delimiter_def is_digit_def)

lemma jnumber_decimal:
  assumes "delimiter c"
  shows "jnumber (decimal n @ c # y) = Some (decimal n, c # y)"
proof -
  obtain h r where h: "decimal n = h # r" using decimal_digits [of n] by (cases "decimal n") auto
  have digits: "\<forall>c \<in> set (h # r). is_digit c" using decimal_digits [of n] h by auto
  then have "is_digit h" by simp
  then have minus: "h \<noteq> CHR ''-''" by (auto simp: is_digit_def)
  have zero: "r = []" if "h = CHR ''0''"
  proof -
    from that h decimal_digits [of n] have "n < 10" by (metis list.sel(1) not_le)
    with h show ?thesis by (simp add: decimal_small)
  qed
  have int: "num_int (decimal n @ c # y) = Some (decimal n, c # y)"
    using digits_of_all [OF digits not_digit [OF assms], of y] zero digits h
    by (auto simp: num_int_def)
  have "num_frac (c # y) = Some ([], c # y)" "num_exp (c # y) = Some ([], c # y)"
    using assms by (auto simp: num_frac_def num_exp_def delimiter_def)
  with int minus h show ?thesis by (simp add: jnumber_def)
qed

lemma shaped_number: "shaped 0 (decimal n) Number"
proof -
  obtain h r where h: "decimal n = h # r" "is_digit h"
    using decimal_digits [of n] by (cases "decimal n") auto
  have ns: "\<not> is_space h" using h(2) by (auto simp: is_digit_def is_space_def)
  have other: "h \<notin> {CHR 0x22, CHR ''{'', CHR ''['', CHR ''t'', CHR ''f'', CHR ''n''}"
    using h(2) by (auto simp: is_digit_def)
  have "jvalue (Suc k) d (decimal n @ c # y) = Some (JNum (decimal n), c # y)" if "delimiter c" for k d c y
    using jnumber_decimal [OF that, of n y] ns other h(1) by simp
  then have "jvalue k d (decimal n @ c # y) = Some (JNum (decimal n), c # y)" if "delimiter c" "length (decimal n) \<le> k" for k d c y
    using that h(1) by (cases k) auto
  then have "json_text 0 (decimal n) (JNum (decimal n))"
    using h(1) ns by (auto simp: json_text_def reads_to_def)
  then show ?thesis by (force simp: shaped_def)
qed

subsection \<open>Objects and arrays\<close>

definition fits :: "nat \<Rightarrow> string \<times> string \<Rightarrow> string \<times> shape \<Rightarrow> bool" where
  "fits m f g \<longleftrightarrow> to_valid_utf8 (fst f) = fst g \<and> shaped m (snd f) (snd g)"

lemma members_fit:
  "list_all2 (fits m) fs shs \<Longrightarrow>
   \<exists>ws. written ws = fs \<and> (\<forall>(k, t, v) \<in> set ws. json_text m t v) \<and> fields_shape shs (read_members ws)"
proof (induction fs shs rule: list_all2_induct)
  case Nil
  show ?case by (intro exI [of _ "[]"]) (simp add: written_def read_members_def)
next
  case (Cons f fs g gs)
  then obtain ws where ws: "written ws = fs" "\<forall>(k, t, v) \<in> set ws. json_text m t v" "fields_shape gs (read_members ws)"
    by blast
  from Cons(1) obtain v where v: "json_text m (snd f) v" "has_shape (snd g) v" "to_valid_utf8 (fst f) = fst g"
    by (auto simp: fits_def shaped_def)
  show ?case
    by (intro exI [of _ "(fst f, snd f, v) # ws"]; cases g) (use ws v in \<open>auto simp: written_def read_members_def\<close>)
qed

lemma length_member: "(k, t) \<in> set fs \<Longrightarrow> length t + length fs \<le> length (object_fields fs)"
proof (induction fs rule: object_fields.induct)
  case (3 k' t' r rs)
  have "length (r # rs) \<le> length (object_fields (r # rs))" by (rule length_object_fields)
  with 3 show ?case by (auto simp: json_string_def)
qed (auto simp: json_string_def)

lemma object_reads:
  assumes "list_all2 (fits m) fs shs" "fs \<noteq> []"
  shows "\<exists>v. has_shape (Fields shs) v \<and>
    (\<forall>d n. int (Suc m) \<le> d \<longrightarrow> length (json_object fs) \<le> n \<longrightarrow> reads_as n d (json_object fs) v)"
proof -
  from members_fit [OF assms(1)] obtain ws where ws: "written ws = fs"
    "\<forall>(k, t, v) \<in> set ws. json_text m t v" "fields_shape shs (read_members ws)" by blast
  let ?n = "length (object_fields fs) - length fs"
  have "reads_as n d (json_object fs) (JObj (read_members ws))"
    if n: "int (Suc m) \<le> d" "length (json_object fs) \<le> n" for d n
  proof -
    have "reads_to ?n (d - 1) t v" if "(k, t, v) \<in> set ws" for k t v
    proof -
      from that ws(1) have "(k, t) \<in> set fs" by (force simp: written_def)
      from length_member [OF this] ws(2) that n(1) show ?thesis by (fastforce simp: json_text_def)
    qed
    then have "reads_as (Suc (length ws + ?n)) (d - 1 + 1) (json_object (written ws)) (JObj (read_members ws))"
      using assms(2) ws(1) n(1) by (intro reads_to_object) (auto simp: written_def)
    moreover have "Suc (length ws + ?n) \<le> n"
      using n(2) length_object_fields [of fs] ws(1) by (auto simp: json_object_def written_def)
    ultimately show ?thesis using ws(1) by (auto simp: reads_as_def)
  qed
  with ws(3) show ?thesis by (metis has_shape.simps(6))
qed

lemma shaped_object: "list_all2 (fits m) fs shs \<Longrightarrow> fs \<noteq> [] \<Longrightarrow> shaped (Suc m) (json_object fs) (Fields shs)"
  unfolding shaped_def json_text_def by (drule (1) object_reads) (blast intro: reads_as_to)

lemma jelements_comma:
  assumes "xs \<noteq> []" "\<forall>x \<in> set xs. reads_to n d (f x) (g x)" "length xs + n \<le> k"
  shows "jelements k d (comma_separated (map f xs) @ CHR '']'' # y) = Some (map g xs, y)"
  using assms
proof (induction xs arbitrary: k)
  case (Cons x xs)
  then obtain k' where k: "k = Suc k'" "length xs + n \<le> k'" by (cases k) auto
  from Cons.prems(2) have v: "jvalue k' d (f x @ c # y') = Some (g x, c # y')" if "delimiter c" for c y'
    using that k(2) by (auto simp: reads_to_def)
  have bracket: "delimiter CHR '',''" "delimiter CHR '']''" "\<not> is_space CHR '']''" by (simp_all add: delimiter_def is_space_def)
  show ?case
  proof (cases xs)
    case Nil
    then show ?thesis using v [OF bracket(2), of y] bracket(3) k(1) by simp
  next
    case (Cons x' xs')
    have "jelements k' d (comma_separated (map f xs) @ CHR '']'' # y) = Some (map g xs, y)"
      using Cons.prems k(2) Cons by (intro Cons.IH) auto
    then show ?thesis using v [OF bracket(1)] k(1) Cons by simp
  qed
qed simp

lemma length_element: "x \<in> set xs \<Longrightarrow> length x + length xs \<le> Suc (length (comma_separated xs))"
proof (induction xs rule: comma_separated.induct)
  case (3 x y xs)
  have "length zs \<le> Suc (length (comma_separated zs))" for zs
    by (induction zs rule: comma_separated.induct) auto
  from 3 this [of "y # xs"] show ?case by auto
qed auto

lemma shaped_items:
  assumes "xs \<noteq> []" "\<forall>x \<in> set xs. shaped m (f x) sh"
  shows "shaped (Suc m) (''['' @ comma_separated (map f xs) @ '']'') (Items sh)"
    and "\<exists>v. has_shape (Items sh) v \<and>
      (\<forall>d n. int (Suc m) \<le> d \<longrightarrow> length (''['' @ comma_separated (map f xs) @ '']'') \<le> n \<longrightarrow>
         reads_as n d (''['' @ comma_separated (map f xs) @ '']'') v)"
proof -
  from assms(2) have "\<forall>x \<in> set xs. \<exists>v. json_text m (f x) v \<and> has_shape sh v" by (simp add: shaped_def)
  then obtain g where g: "\<forall>x \<in> set xs. json_text m (f x) (g x) \<and> has_shape sh (g x)" by metis
  let ?t = "comma_separated (map f xs)"
  let ?n = "Suc (length ?t) - length xs"
  have len: "length (f x) + length xs \<le> Suc (length ?t)" if "x \<in> set xs" for x
    using length_element [of "f x" "map f xs"] that by simp
  obtain c r where t: "?t = c # r" "\<not> is_space c" "c \<noteq> CHR '']''"
  proof -
    obtain x xs' where xs: "xs = x # xs'" using assms(1) by (cases xs) auto
    with g have j: "json_text m (f x) (g x)" by simp
    then have to: "reads_to (length (f x)) (int m) (f x) (g x)" by (simp add: json_text_def)
    then obtain c r where c: "f x = c # r" "\<not> is_space c" by (auto simp: reads_to_def)
    moreover have "jvalue (length (f x)) (int m) (f x @ '']'') = Some (g x, '']'')"
      using to by (simp add: reads_to_def delimiter_def)
    then have "c \<noteq> CHR '']''" using c by (auto simp: jnumber_def num_int_def is_digit_def)
    ultimately show ?thesis using that xs by (cases xs') auto
  qed
  have reads: "reads_as n d (''['' @ ?t @ '']'') (JArr (map g xs))"
    if n: "int (Suc m) \<le> d" "length (''['' @ ?t @ '']'') \<le> n" for d n
  proof -
    have el: "\<forall>x \<in> set xs. reads_to ?n (d - 1) (f x) (g x)"
      using g n(1) len by (fastforce simp: json_text_def)
    have "jvalue k d (''['' @ ?t @ '']'' @ y) = Some (JArr (map g xs), y)" if k: "n \<le> k" for k y
    proof -
      have le: "length xs + ?n \<le> k - 1" and suc: "k = Suc (k - 1)"
        using k n(2) len [of "hd xs"] assms(1) by (auto simp: Suc_le_eq)
      have "jvalue (Suc (k - 1)) d (''['' @ ?t @ '']'' @ y) = Some (JArr (map g xs), y)"
        using jelements_comma [OF assms(1) el le, of y] n(1) t by (simp add: is_space_def del: jelements.simps)
      with suc show ?thesis by simp
    qed
    then show ?thesis by (auto simp: reads_as_def is_space_def)
  qed
  have sh: "has_shape (Items sh) (JArr (map g xs))" using g by (auto simp: list_all_iff)
  with reads show "\<exists>v. has_shape (Items sh) v \<and>
      (\<forall>d n. int (Suc m) \<le> d \<longrightarrow> length (''['' @ ?t @ '']'') \<le> n \<longrightarrow> reads_as n d (''['' @ ?t @ '']'') v)"
    by blast
  then show "shaped (Suc m) (''['' @ ?t @ '']'') (Items sh)"
    unfolding shaped_def json_text_def by (blast intro: reads_as_to)
qed

text \<open>
  At the top of a document: the text, and the text with the line feed \<^verbatim>\<open>json.Encoder\<close> adds.
\<close>

definition document :: "string \<Rightarrow> shape \<Rightarrow> bool" where
  "document t sh \<longleftrightarrow> (\<exists>v. json_parse t = Some v \<and> json_parse (t @ newline) = Some v \<and> has_shape sh v)"

lemma line_feed: "newline = [CHR 0x0A]"
  by code_simp

lemma documentI:
  assumes "\<exists>v. has_shape sh v \<and> (\<forall>d n. int m \<le> d \<longrightarrow> length t \<le> n \<longrightarrow> reads_as n d t v)" "m \<le> 10000"
  shows "document t sh"
proof -
  from assms(1) obtain v where v: "has_shape sh v" "\<And>d n. int m \<le> d \<Longrightarrow> length t \<le> n \<Longrightarrow> reads_as n d t v" by blast
  have "reads_as (length t) max_depth t v" using assms(2) by (intro v(2)) (simp_all add: max_depth_def)
  then have "jvalue k max_depth (t @ y) = Some (v, y)" if "length t \<le> k" for k y
    using that by (simp add: reads_as_def)
  from this [of "2 * length t + 2" "[]"] this [of "2 * length (t @ newline) + 2" newline]
  have "json_parse t = Some v" "json_parse (t @ newline) = Some v"
    by (simp_all add: json_parse_def line_feed is_space_def del: jvalue.simps)
  with v(1) show ?thesis by (auto simp: document_def)
qed

lemma document_object: "list_all2 (fits m) fs shs \<Longrightarrow> fs \<noteq> [] \<Longrightarrow> m < 10000 \<Longrightarrow> document (json_object fs) (Fields shs)"
  by (rule documentI [OF object_reads]) (assumption, assumption, linarith)

lemma document_slice:
  assumes "\<And>x. x \<in> set xs \<Longrightarrow> shaped m (f x) sh" "m < 10000"
  shows "document (json_slice f xs) (Nullable (Items sh))"
proof (cases "xs = []")
  case True
  have "reads_as n d ''null'' JNull" if "4 \<le> n" for n d
    using reads_as_literals(3) [of d] that by (auto simp: reads_as_def)
  then show ?thesis
    unfolding True by (intro documentI [of _ 0]) (auto simp: json_slice_def)
next
  case False
  from shaped_items(2) [OF this, of m f sh] assms obtain v where "has_shape (Items sh) v \<and>
      (\<forall>d n. int (Suc m) \<le> d \<longrightarrow> length (''['' @ comma_separated (map f xs) @ '']'') \<le> n \<longrightarrow>
         reads_as n d (''['' @ comma_separated (map f xs) @ '']'') v)" by blast
  then show ?thesis
    using False assms(2) by (intro documentI [of _ "Suc m"]) (auto simp: json_slice_def)
qed

lemma document_either: "document t a \<Longrightarrow> document t (Either a b)" "document t b \<Longrightarrow> document t (Either a b)"
  by (auto simp: document_def)

lemma document_nullable: "document t sh \<Longrightarrow> document t (Nullable sh)"
  by (auto simp: document_def)

lemma shaped_empty_object: "shaped (Suc m) ''{}'' (Fields [])"
proof -
  have "jvalue (Suc k) d (''{}'' @ y) = Some (JObj [], y)" if "0 < d" for k d y
    using that by simp
  then have "jvalue k d (''{}'' @ y) = Some (JObj [], y)" if "0 < d" "2 \<le> k" for k d y
    using that by (cases k) simp_all
  then have "json_text (Suc m) ''{}'' (JObj [])"
    by (auto simp: json_text_def reads_to_def)
  then show ?thesis by (auto simp: shaped_def)
qed

subsection \<open>What the server writes\<close>

definition time_shape :: shape where "time_shape = Text"

definition key_fields :: "(string \<times> shape) list" where
  "key_fields =
     [(''id'', Number), (''actor_id'', Number), (''key_id'', Text), (''public_key'', Text), (''created_at'', time_shape),
      (''merkle_root'', Text), (''revoked_at'', Nullable time_shape), (''revoke_root'', Nullable Text)]"

definition key_shape :: shape where
  "key_shape = Either (Fields key_fields) (Fields (key_fields @ [(''inclusion_proof'', Items Text)]))"

definition actor_shape :: shape where
  "actor_shape =
     Fields [(''ID'', Number), (''ActorID'', Text), (''IsFireproof'', Truth), (''CreatedAt'', time_shape), (''UpdatedAt'', time_shape)]"

definition aux_shape :: shape where
  "aux_shape =
     Fields [(''ID'', Number), (''ActorID'', Number), (''AuxID'', Text), (''AuxType'', Text), (''AuxData'', Text),
       (''CreatedAt'', time_shape), (''MerkleRoot'', Text), (''RevokedAt'', Nullable time_shape), (''RevokeRoot'', Nullable Text)]"

definition problem_shape :: shape where
  "problem_shape = Fields [(''type'', Text), (''title'', Text), (''status'', Number), (''detail'', Text)]"

lemma fits_name: "list_all (\<lambda>c. of_char c < (128 :: nat)) k \<Longrightarrow> shaped m t sh \<Longrightarrow> fits m (k, t) (k, sh)"
  by (simp add: fits_def list_all_iff to_valid_utf8_ascii)

lemmas written_shapes =
  shaped_string shaped_number shaped_literals shaped_or_null [OF shaped_string]

lemma shaped_time: "shaped 0 (json_time t) time_shape" "shaped 0 (json_or_null json_time x) (Nullable time_shape)"
  by (simp_all add: json_time_def time_shape_def shaped_string shaped_or_null)

lemma marshal_actor_shape: "document (marshal_actor a) actor_shape"
  unfolding marshal_actor_def actor_shape_def
  by (rule document_object [of 0])
    (simp_all add: fits_name written_shapes shaped_time)

lemma marshal_aux_shape:
  "shaped 1 (marshal_auxiliary_data d) aux_shape" "document (marshal_auxiliary_data d) aux_shape"
proof -
  let ?fs = "[(''ID'', decimal (ad_id d)), (''ActorID'', decimal (ad_actor_id d)),
        (''AuxID'', json_string (ad_aux_id d)), (''AuxType'', json_string (ad_aux_type d)),
        (''AuxData'', json_string (ad_aux_data d)), (''CreatedAt'', json_time (ad_created_at d)),
        (''MerkleRoot'', json_string (ad_merkle_root d)),
        (''RevokedAt'', json_or_null json_time (ad_revoked_at d)),
        (''RevokeRoot'', json_or_null json_string (ad_revoke_root d))]"
  obtain shs where shs: "aux_shape = Fields shs" by (simp add: aux_shape_def)
  then have "list_all2 (fits 0) ?fs shs"
    by (auto simp: aux_shape_def fits_name written_shapes shaped_time)
  then show "shaped 1 (marshal_auxiliary_data d) aux_shape" "document (marshal_auxiliary_data d) aux_shape"
    using shaped_object [of 0 ?fs shs] document_object [of 0 ?fs shs] by (simp_all add: marshal_auxiliary_data_def shs)
qed

lemma marshal_key_shape:
  "shaped 2 (marshal_public_key k) key_shape" "document (marshal_public_key k) key_shape"
proof -
  let ?fs = "[(''id'', decimal (pk_id k)), (''actor_id'', decimal (pk_actor_id k)),
         (''key_id'', json_string (pk_key_id k)), (''public_key'', json_string (pk_public_key k)),
         (''created_at'', json_time (pk_created_at k)), (''merkle_root'', json_string (pk_merkle_root k)),
         (''revoked_at'', json_or_null json_time (pk_revoked_at k)),
         (''revoke_root'', json_or_null json_string (pk_revoke_root k))]"
  let ?proof = "pk_inclusion_proof k"
  have fs: "list_all2 (fits 1) ?fs key_fields"
    by (simp add: key_fields_def fits_name shaped_deeper [OF shaped_string] shaped_deeper [OF shaped_number]
        shaped_deeper [OF shaped_time(1)] shaped_deeper [OF shaped_time(2)]
        shaped_deeper [OF shaped_or_null [OF shaped_string]])
  have "shaped 2 (marshal_public_key k) key_shape \<and> document (marshal_public_key k) key_shape"
  proof (cases "?proof = []")
    case True
    then have t: "marshal_public_key k = json_object ?fs" by (simp add: marshal_public_key_def)
    from shaped_object [OF fs] document_object [OF fs] show ?thesis
      unfolding t key_shape_def by (auto simp: shaped_def numeral_2_eq_2 intro: document_either)
  next
    case False
    then have t: "marshal_public_key k = json_object (?fs @ [(''inclusion_proof'', json_slice json_string ?proof)])"
      by (simp add: marshal_public_key_def)
    have "shaped 1 (json_slice json_string ?proof) (Items Text)"
      using shaped_items(1) [OF False, of 0 json_string Text] False by (simp add: json_slice_def shaped_string)
    then have "fits 1 (''inclusion_proof'', json_slice json_string ?proof) (''inclusion_proof'', Items Text)"
      by (simp add: fits_name)
    with fs have "list_all2 (fits 1) (?fs @ [(''inclusion_proof'', json_slice json_string ?proof)])
        (key_fields @ [(''inclusion_proof'', Items Text)])"
      by (intro list_all2_appendI) auto
    from shaped_object [OF this] document_object [OF this] show ?thesis
      unfolding t key_shape_def by (auto simp: shaped_def numeral_2_eq_2 intro: document_either)
  qed
  then show "shaped 2 (marshal_public_key k) key_shape" "document (marshal_public_key k) key_shape" by blast+
qed

definition text_fields :: "string list \<Rightarrow> shape" where
  "text_fields names = Fields (map (\<lambda>k. (k, Text)) names)"

lemma document_string_map:
  assumes "m \<noteq> []" "list_all (\<lambda>(k, _). list_all (\<lambda>c. of_char c < (128 :: nat)) k) m"
  shows "document (marshal_string_map m) (text_fields (map fst (sort_key fst m)))"
proof -
  have "list_all2 (fits 0) (map (\<lambda>(k, v). (k, json_string v)) ms) (map (\<lambda>k. (k, Text)) (map fst ms))"
    if "list_all (\<lambda>(k, _). list_all (\<lambda>c. of_char c < (128 :: nat)) k) ms" for ms :: "(string \<times> string) list"
    using that by (induction ms) (auto simp: fits_name shaped_string)
  moreover have "list_all (\<lambda>(k, _). list_all (\<lambda>c. of_char c < (128 :: nat)) k) (sort_key fst m)"
    using assms(2) by (simp add: list_all_iff)
  moreover have "sort_key fst m \<noteq> []" using assms(1) by (metis length_sort length_0_conv)
  ultimately show ?thesis
    unfolding marshal_string_map_def text_fields_def by (intro document_object [of 0]) (simp, simp, linarith)
qed

subsection \<open>Responses and handlers\<close>

definition body_has :: "shape \<Rightarrow> response \<Rightarrow> bool" where
  "body_has sh r \<longleftrightarrow> (\<exists>v. json_parse (rs_body r) = Some v \<and> has_shape sh v)"

definition problem :: "response \<Rightarrow> bool" where
  "problem r \<longleftrightarrow>
     rs_status r \<noteq> 200 \<and> rs_content_type r = ''application/problem+json'' \<and> body_has problem_shape r"

definition typed :: "shape \<Rightarrow> response \<Rightarrow> bool" where
  "typed sh r \<longleftrightarrow> rs_status r = 200 \<and> rs_content_type r = ''application/json'' \<and> body_has sh r"

lemma problem_error: "code \<noteq> 200 \<Longrightarrow> problem (respondWithError code m)"
proof -
  have "document (problem_detail code m) problem_shape"
    unfolding problem_detail_def problem_shape_def
    by (rule document_object [of 0]) (simp_all add: fits_name written_shapes)
  then show "code \<noteq> 200 \<Longrightarrow> problem (respondWithError code m)"
    by (auto simp: problem_def respondWithError_def body_has_def document_def)
qed

lemma typed_json: "document t sh \<Longrightarrow> typed sh (respondWithJSON 200 (Inr t))"
  by (auto simp: typed_def respondWithJSON_def body_has_def document_def)

text \<open>\<open>panics\<close>: whether the handler may panic.\<close>

definition ends :: "bool \<Rightarrow> ('a \<Rightarrow> bool) \<Rightarrow> 'a step \<Rightarrow> bool" where
  "ends panics T f \<longleftrightarrow> (\<forall>st. case fst (f st) of Inl r \<Rightarrow> problem r \<or> panics \<and> r = recovered | Inr x \<Rightarrow> T x)"

lemma ends_then: "ends panics (\<lambda>_. True) f \<Longrightarrow> (\<And>x. ends panics T (g x)) \<Longrightarrow> ends panics T (then_do f g)"
proof -
  assume f: "ends panics (\<lambda>_. True) f" and g: "\<And>x. ends panics T (g x)"
  have "case fst (then_do f g st) of Inl r \<Rightarrow> problem r \<or> panics \<and> r = recovered | Inr x \<Rightarrow> T x" for st
  proof (cases "f st")
    case (Pair y st')
    with f [unfolded ends_def, rule_format, of st] g [unfolded ends_def, rule_format] show ?thesis
      by (cases y) (simp_all add: then_do_def)
  qed
  then show ?thesis by (simp add: ends_def)
qed

lemma ends_steps:
  "(\<And>e. problem (respond e)) \<Longrightarrow> ends panics (\<lambda>_. True) (try_or r respond)"
  "(\<And>e. problem (respond e)) \<Longrightarrow> ends panics (\<lambda>_. True) (call_or f respond)"
  "problem resp \<Longrightarrow> ends panics (\<lambda>_. True) (ensure b resp)"
  "problem resp \<Longrightarrow> ends panics T (send resp)"
  "ends panics (\<lambda>_. True) (continue y)"
  by (auto simp: ends_def try_or_def call_or_def ensure_def send_def continue_def split: prod.splits sum.splits)

lemma ends_continue: "T x \<Longrightarrow> ends panics T (continue x)"
  by (simp add: ends_def continue_def)

lemma ends_option: "ends panics T f \<Longrightarrow> (\<And>y. ends panics T (g y)) \<Longrightarrow> ends panics T (case x of None \<Rightarrow> f | Some y \<Rightarrow> g y)"
  by (cases x) simp_all

lemma ends_if: "ends panics T f \<Longrightarrow> ends panics T g \<Longrightarrow> ends panics T (if b then f else g)"
  by simp

lemma ends_typed: "document t sh \<Longrightarrow> ends panics (typed sh) (continue (respondWithJSON 200 (Inr t)))"
  by (simp add: ends_continue typed_json)

lemma ends_fields:
  "m \<noteq> [] \<Longrightarrow> list_all (\<lambda>(k, _). list_all (\<lambda>c. of_char c < (128 :: nat)) k) m \<Longrightarrow>
   sh = text_fields (map fst (sort_key fst m)) \<Longrightarrow>
   ends panics (typed sh) (continue (respondWithJSON 200 (fields_payload m)))"
  by (simp add: fields_payload_def ends_typed document_string_map)

lemmas ends_rules = ends_then ends_steps ends_option ends_if problem_error

lemma ends_symmetric_keys: "ends panics (\<lambda>_. True) (decode_symmetric_keys ks)"
proof (induction ks)
  case (Cons k ks)
  then show ?case by (cases k) (auto intro!: ends_rules split: option.split)
qed (simp add: ends_rules)

lemma ends_shared:
  "ends panics (\<lambda>_. True) (list_keys_or a m)" "ends panics (\<lambda>_. True) (submit_to_log w msg)"
  "ends panics (\<lambda>_. True) (signed_by_actor env msg a m1 m2 m3)"
  "ends panics (\<lambda>_. True) (add_key_signature env msg ak keys)" "ends panics (\<lambda>_. True) (check_otp env w msg sealed)"
  unfolding list_keys_or_def submit_to_log_def signed_by_actor_def add_key_signature_def check_otp_def
  by ((rule ends_rules | simp)+)

subsection \<open>The protocol endpoint\<close>

definition message_shape :: "string \<Rightarrow> shape" where
  "message_shape action =
     (if action = ''AddKey'' then text_fields [''key_id'', ''merkle_root'']
      else if action = ''AddAuxData'' then text_fields [''aux_id'']
      else if action = ''Query'' then Nullable (Items key_shape)
      else text_fields [''status''])"

lemma sorted_answers:
  "map fst (sort_key fst [(''key_id'', a), (''merkle_root'', b)]) = [''key_id'', ''merkle_root'']"
  "map fst (sort_key fst [(''status'', a), (''actor-id'', b)]) = [''actor-id'', ''status'']"
  "map fst (sort_key fst [(''status'', a), (''to'', b)]) = [''status'', ''to'']"
  by code_simp+

lemma ends_message:
  assumes "actionHandlers env w action = Some handler"
  shows "ends panics (typed (message_shape action)) (handler msg)"
proof -
  have one: "ends panics (typed (text_fields [name])) (continue (respondWithJSON 200 (fields_payload [(name, v)])))"
    if "list_all (\<lambda>c. of_char c < (128 :: nat)) name" for name v
    using that by (intro ends_fields) simp_all
  have keys: "ends panics (typed (Nullable (Items key_shape))) (continue (respondWithJSON 200 (Inr (json_slice marshal_public_key ks))))" for ks
    by (rule ends_typed, rule document_slice [of _ 2], rule marshal_key_shape(1), linarith)
  have two: "ends panics (typed (text_fields [''key_id'', ''merkle_root'']))
      (continue (respondWithJSON 200 (fields_payload [(''key_id'', a), (''merkle_root'', b)])))" for a b
    by (rule ends_fields) (simp_all add: sorted_answers del: sort_key_simps)
  let ?ends = "\<lambda>h. ends panics (typed (text_fields [''status''])) (h env w msg)"
  have "?ends processRevokeKeyAction" "?ends processMoveIdentityAction" "?ends processBurnDownAction"
    "?ends processFireproofAction" "?ends processUndoFireproofAction" "?ends processRevokeAuxDataAction"
    "?ends processCheckpointAction"
    unfolding processRevokeKeyAction_def processMoveIdentityAction_def processBurnDownAction_def
      processFireproofAction_def processUndoFireproofAction_def processRevokeAuxDataAction_def processCheckpointAction_def
    by ((rule one ends_shared ends_symmetric_keys ends_rules | simp)+)
  moreover have "ends panics (typed (text_fields [''key_id'', ''merkle_root''])) (processAddKeyAction env w msg)"
    "ends panics (typed (text_fields [''aux_id''])) (processAddAuxDataAction env w msg)"
    "ends panics (typed (Nullable (Items key_shape))) (processQueryAction env w msg)"
    unfolding processAddKeyAction_def processAddAuxDataAction_def processQueryAction_def
    by ((rule one two keys ends_shared ends_symmetric_keys ends_rules | simp)+)
  ultimately show ?thesis
    using assms by (auto simp: actionHandlers_def message_shape_def split: if_splits)
qed

subsection \<open>Every route\<close>

lemma problem_decode: "problem (decode_error req)"
  by (simp add: decode_error_def problem_error)

lemma problem_token: "map_sum token_error id x = Inl r \<Longrightarrow> problem r"
  by (cases x) (auto simp: token_error_def intro: problem_error)

lemma ends_trigger_checkpoint:
  "ends True (typed (text_fields [''status'', ''to''])) (handleTriggerCheckpoint env cfg w post req)"
proof -
  have sent: "ends True (typed (text_fields [''status'', ''to'']))
      (continue (respondWithJSON 200 (fields_payload [(''status'', a), (''to'', b)])))" for a b
    by (rule ends_fields) (simp_all add: sorted_answers del: sort_key_simps)
  have recovered: "ends True T (send recovered)" for T by (simp add: ends_def send_def)
  have decoded: "ends True (\<lambda>_. True) (decoded_or_error ''to-directory'' req)"
    unfolding decoded_or_error_def by (rule ends_rules problem_decode)+
  have signed: "ends True (\<lambda>_. True) (signed_or_error P sk protoMsg)" for P sk protoMsg
    unfolding signed_or_error_def
    by (auto intro!: recovered ends_rules split: option.split sum.split checkpoint_stage.split)
  show ?thesis
    unfolding handleTriggerCheckpoint_def Let_def by ((rule sent decoded signed ends_rules | simp)+)
qed

lemma ends_crypto_shred:
  "ends panics (typed (text_fields [''actor-id'', ''status''])) (handleCryptoShred unixNano req)"
proof -
  have done_answer: "ends panics (typed (text_fields [''actor-id'', ''status'']))
      (continue (respondWithJSON 200 (fields_payload [(''status'', x), (''actor-id'', y)])))" for x y
    by (rule ends_fields) (simp_all add: sorted_answers del: sort_key_simps)
  have decoded: "ends panics (\<lambda>_. True) (decoded_or_error ''actor-id'' req)"
    unfolding decoded_or_error_def by (rule ends_rules problem_decode)+
  have shred: "ends panics (\<lambda>_. True) (shred_or_error unixNano actorID)" for actorID
    by (auto simp: ends_def shred_or_error_def problem_error split: prod.splits sum.splits)
  show ?thesis
    unfolding handleCryptoShred_def by ((rule done_answer decoded shred ends_rules | simp)+)
qed

lemma guarded_problem:
  assumes "guarded R i req e fs = (Some r, fs')"
  shows "problem r"
proof -
  have code: "problem (respondWithError code m)" if "code \<in> {401, 403, 500}" for code m
    using that by (auto intro: problem_error)
  have "problem r" if "authMiddleware T cfg ts aw req fs = (Inl r, fs')" for T cfg ts aw
    using that
    by (auto simp: authMiddleware_def bearer_token_def request_claims_def Let_def code dest: problem_token
        split: sum.splits prod.splits if_splits list.splits)
  with assms show ?thesis by (auto simp: guarded_def split: if_splits prod.splits sum.splits)
qed

lemma ends_protocol:
  "ends panics (\<lambda>r. \<exists>msg. decode_protocol (hr_body req) = Some msg \<and> typed (message_shape (pm_action msg)) r)
     (handleProtocolMessage env w req)"
proof -
  have http: "ends panics (\<lambda>_. True) (check_http_signature env w req)"
    unfolding check_http_signature_def Let_def by ((rule ends_rules | simp)+)
  have "ends panics (\<lambda>_. True) (activity_pub_step env w req)"
    unfolding activity_pub_step_def
    by (cases "hr_body_end req") (auto intro!: http ends_rules split: option.split)
  moreover have "ends panics (\<lambda>_. True) (continue ())" by (rule ends_rules)
  moreover have "ends panics (\<lambda>r. \<exists>msg. decode_protocol (hr_body req) = Some msg \<and> typed (message_shape (pm_action msg)) r)
      (case decode_protocol (hr_body req) of
         None \<Rightarrow> send (decode_error req)
       | Some fullMsg \<Rightarrow>
           then_do (ensure (pm_context fullMsg = PKDContextV1) (respondWithError 400 ''Invalid !pkd-context'')) (\<lambda>_.
           (case actionHandlers env w (pm_action fullMsg) of
              None \<Rightarrow> send (respondWithError 400 (''Unsupported action: '' @ pm_action fullMsg))
            | Some handler \<Rightarrow> handler fullMsg)))"
  proof (cases "decode_protocol (hr_body req)")
    case None
    then show ?thesis by (simp add: ends_rules problem_decode)
  next
    case (Some msg)
    have "ends panics (typed (message_shape (pm_action msg)))
      (then_do (ensure (pm_context msg = PKDContextV1) (respondWithError 400 ''Invalid !pkd-context'')) (\<lambda>_.
         (case actionHandlers env w (pm_action msg) of
            None \<Rightarrow> send (respondWithError 400 (''Unsupported action: '' @ pm_action msg))
          | Some handler \<Rightarrow> handler msg)))"
    proof (rule ends_then)
      show "ends panics (typed (message_shape (pm_action msg)))
         (case actionHandlers env w (pm_action msg) of
            None \<Rightarrow> send (respondWithError 400 (''Unsupported action: '' @ pm_action msg))
          | Some handler \<Rightarrow> handler msg)"
        by (cases "actionHandlers env w (pm_action msg)") (simp_all add: ends_steps problem_error ends_message)
    qed (simp add: ends_steps problem_error)
    with Some show ?thesis by simp
  qed
  ultimately show ?thesis unfolding handleProtocolMessage_def by (intro ends_then ends_if) simp_all
qed

text \<open>What an answer of status 200 holds; \<open>key\<close> is the shape of the public key, a value of a third-party type.\<close>

definition answer_typed :: "shape \<Rightarrow> endpoint \<Rightarrow> http_request \<Rightarrow> response \<Rightarrow> bool" where
  "answer_typed key e req r \<longleftrightarrow>
     (case e of
        ActorInfo \<Rightarrow> typed actor_shape r
      | ActorKeys \<Rightarrow> typed (Nullable (Items key_shape)) r
      | KeyInfo \<Rightarrow> typed key_shape r
      | ActorAuxiliary \<Rightarrow> typed (Nullable (Items aux_shape)) r
      | AuxiliaryDataInfo \<Rightarrow> typed aux_shape r
      | Extensions \<Rightarrow> typed (Nullable (Items Text)) r
      | Replicas \<Rightarrow> typed (Nullable (Items Text)) r
      | ServerPublicKey \<Rightarrow> typed (Fields [(''public_key'', key)]) r
      | WellKnownPKD \<Rightarrow> typed (Fields [(''peers'', Nullable (Items Text)), (''server-public-key'', key)]) r
      | ProtocolMessage \<Rightarrow>
          (\<exists>msg. decode_protocol (hr_body req) = Some msg \<and> typed (message_shape (pm_action msg)) r)
      | TriggerCheckpoint \<Rightarrow> typed (text_fields [''status'', ''to'']) r
      | ShredActor \<Rightarrow> typed (text_fields [''actor-id'', ''status'']) r
      | _ \<Rightarrow> rs_status r = 200 \<and> rs_body r = [])"

lemma ends_reading:
  "ends panics (typed actor_shape) (handleGetActorInfo a)"
  "ends panics (typed (Nullable (Items key_shape))) (handleGetActorKeys a)"
  "ends panics (typed key_shape) (handleGetKeyInfo a)"
  "ends panics (typed (Nullable (Items aux_shape))) (handleGetActorAuxiliary a)"
  "ends panics (typed aux_shape) (handleGetAuxiliaryDataInfo a)"
  "ends panics (typed (Nullable (Items Text))) handleGetExtensions"
  "ends panics (typed (Nullable (Items Text))) (handleGetReplicas peers)"
proof -
  have slices: "document (json_slice marshal_public_key ks) (Nullable (Items key_shape))"
    "document (json_slice marshal_auxiliary_data ds) (Nullable (Items aux_shape))"
    "document (json_slice json_string xs) (Nullable (Items Text))" for ks ds xs
    by (rule document_slice, rule marshal_key_shape marshal_aux_shape shaped_string, linarith)+
  show "ends panics (typed actor_shape) (handleGetActorInfo a)"
    "ends panics (typed (Nullable (Items key_shape))) (handleGetActorKeys a)"
    "ends panics (typed key_shape) (handleGetKeyInfo a)"
    "ends panics (typed (Nullable (Items aux_shape))) (handleGetActorAuxiliary a)"
    "ends panics (typed aux_shape) (handleGetAuxiliaryDataInfo a)"
    "ends panics (typed (Nullable (Items Text))) handleGetExtensions"
    "ends panics (typed (Nullable (Items Text))) (handleGetReplicas peers)"
    unfolding handleGetActorInfo_def handleGetActorKeys_def handleGetKeyInfo_def handleGetActorAuxiliary_def
      handleGetAuxiliaryDataInfo_def handleGetExtensions_def handleGetReplicas_def
    by ((rule ends_typed slices marshal_actor_shape marshal_key_shape marshal_aux_shape ends_rules | simp)+)
qed

lemma ends_public_key:
  assumes "\<forall>t. public = Inr t \<longrightarrow> shaped 1000 t key"
  shows "ends panics (\<lambda>r. problem r \<or> typed (Fields [(''public_key'', key)]) r) (handleGetServerPublicKey public)"
    and "ends panics (\<lambda>r. problem r \<or> typed (Fields [(''peers'', Nullable (Items Text)), (''server-public-key'', key)]) r)
      (handleWellKnownPKD public peers)"
proof -
  have "problem (respondWithJSON 200 (map_sum id f public))" if "public = Inl err" for f err
    using that by (simp add: respondWithJSON_def problem_error)
  moreover have "document (json_object [(''public_key'', t)]) (Fields [(''public_key'', key)])"
    "document (json_object [(''peers'', json_slice json_string peers), (''server-public-key'', t)])
       (Fields [(''peers'', Nullable (Items Text)), (''server-public-key'', key)])" if "public = Inr t" for t
  proof -
    have peers: "shaped 1000 (json_slice json_string peers) (Nullable (Items Text))"
    proof (cases "peers = []")
      case True
      then show ?thesis by (simp add: json_slice_def shaped_deeper [OF shaped_literals(2)])
    next
      case False
      from shaped_items(1) [OF this, of 0 json_string Text] False show ?thesis
        by (auto simp: json_slice_def shaped_string intro: shaped_nullable shaped_deeper)
    qed
    from assms that have t: "shaped 1000 t key" by simp
    show "document (json_object [(''public_key'', t)]) (Fields [(''public_key'', key)])"
      by (rule document_object [of 1000]) (simp_all add: fits_name t)
    show "document (json_object [(''peers'', json_slice json_string peers), (''server-public-key'', t)])
       (Fields [(''peers'', Nullable (Items Text)), (''server-public-key'', key)])"
      by (rule document_object [of 1000]) (simp_all add: fits_name t peers)
  qed
  ultimately show "ends panics (\<lambda>r. problem r \<or> typed (Fields [(''public_key'', key)]) r) (handleGetServerPublicKey public)"
    "ends panics (\<lambda>r. problem r \<or> typed (Fields [(''peers'', Nullable (Items Text)), (''server-public-key'', key)]) r)
      (handleWellKnownPKD public peers)"
    unfolding handleGetServerPublicKey_def handleWellKnownPKD_def
    by (cases public; auto intro!: ends_continue typed_json)+
qed

lemma ends_mono: "ends panics T f \<Longrightarrow> (\<And>r. T r \<Longrightarrow> U r) \<Longrightarrow> ends panics U f"
  unfolding ends_def
proof
  fix st
  assume "\<forall>st. case fst (f st) of Inl r \<Rightarrow> problem r \<or> panics \<and> r = recovered | Inr x \<Rightarrow> T x"
  then have "case fst (f st) of Inl r \<Rightarrow> problem r \<or> panics \<and> r = recovered | Inr x \<Rightarrow> T x" by blast
  then show "case fst (f st) of Inl r \<Rightarrow> problem r \<or> panics \<and> r = recovered | Inr x \<Rightarrow> U x" if "\<And>r. T r \<Longrightarrow> U r"
    using that by (cases "fst (f st)") simp_all
qed

lemma ends_endpoint:
  assumes "\<forall>t. ro_public_key_json R = Inr t \<longrightarrow> shaped 1000 t key"
  shows "ends (e = TriggerCheckpoint) (\<lambda>r. problem r \<or> answer_typed key e req r) (endpoint_handler R i req param e)"
proof -
  have idle: "ends panics (\<lambda>r. rs_status r = 200 \<and> rs_body r = []) placeholder" for panics
    by (simp add: placeholder_def ends_continue)
  note reading = ends_reading [THEN ends_mono] ends_protocol [THEN ends_mono] ends_crypto_shred [THEN ends_mono]
    ends_trigger_checkpoint [THEN ends_mono] idle [THEN ends_mono] ends_public_key [OF assms, THEN ends_mono]
  show ?thesis
    unfolding endpoint_handler_def Let_def
    by (cases e) (simp_all only: endpoint.case endpoint.distinct simp_thms answer_typed_def, (rule reading; blast)+)
qed


end
