(* ===== verification/ServerWitnesses.thy ===== *)
theory ServerWitnesses
  imports DemoServer Witnesses Cli Gossip Startup ApiTypes Answers
begin

section \<open>The theorems about the whole server at work\<close>

text \<open>As in \<open>Witnesses\<close>: each theorem that has hypotheses, at concrete inputs that meet them.\<close>

subsection \<open>The configuration\<close>

theorem LoadAndValidate_sound_witness: "keys_decoded demo_config_env (cfg_server demo_loaded)"
  using LoadAndValidate_sound [OF demo_validated] by blast

subsection \<open>Tokens\<close>

definition demo_locked :: key_manager where
  "demo_locked = \<lparr> km_path = ''new'', km_password = [1], km_time = 1, km_memory = 8, km_threads = 1 \<rparr>"

theorem key_file_roundtrip_witness:
  "\<exists>fs'. NewFileKeyManager demo_token_prims (replicate 48 7) demo_locked demo_files = (Inr demo_locked, fs') \<and>
     GetPasetoSymmetricKey demo_token_prims fs' demo_locked = Inr (replicate 32 7)"
proof -
  obtain r fs' where run: "NewFileKeyManager demo_token_prims (replicate 48 7) demo_locked demo_files = (r, fs')"
    by (cases "NewFileKeyManager demo_token_prims (replicate 48 7) demo_locked demo_files")
  have "\<not> isl (fst (NewFileKeyManager demo_token_prims (replicate 48 7) demo_locked demo_files))" by code_simp
  with run obtain km where r: "r = Inr km" by (cases r) auto
  have "os_Stat demo_files (km_path demo_locked) = NotExist" by code_simp
  with key_file_roundtrip [OF demo_gcm run [unfolded r]] run r show ?thesis by auto
qed

lemma demo_expressible: "expressible demo_tokens (0 + 900)" "expressible demo_tokens (0 + 43200)"
  by code_simp+

definition demo_access :: string where
  "demo_access = ''v4.local.'' @ json_object (standard_claims demo_tokens 0 900 ''u'' @ access_claims)"

definition demo_refresh :: string where
  "demo_refresh = ''v4.local.'' @ json_object (standard_claims demo_tokens 0 43200 ''u'' @ refresh_claims)"

lemma demo_pair:
  "NewPair demo_token_prims demo_files demo_tokens demo_entropy demo_entropy 0 = Inr (demo_access, demo_refresh)"
proof -
  have "GetPasetoSymmetricKey demo_token_prims demo_files (ts_key_manager demo_tokens) = Inr (replicate 32 0)" by code_simp
  then show ?thesis
    by (simp add: NewPair_def newAccessToken_def newRefreshToken_def newToken_def demo_token_prims_def
        demo_entropy_def demo_access_def demo_refresh_def)
qed

theorem token_pair_lifetime_witness:
  "(\<exists>claims. claim ''pkd-admin'' claims = Some (JBool True) \<and>
      ValidateAccessToken demo_token_prims demo_files demo_tokens 900000000000 demo_access = Inr claims) \<and>
   ValidateAccessToken demo_token_prims demo_files demo_tokens 900000000001 demo_access =
     Inl (Errorf ''token has expired'')"
  using token_pair_lifetime [OF demo_paseto demo_expressible demo_pair, of 900000000000]
    token_pair_lifetime [OF demo_paseto demo_expressible demo_pair, of 900000000001]
  by auto

subsection \<open>Routes\<close>

lemma demo_serve_run:
  "case serve demo_router (demo_inputs 1) demo_add (demo_process demo_s0) of (r, ps) \<Rightarrow>
     rs_status r = 200 \<and> pr_server ps = demo_s1"
  by code_simp

lemma demo_process_simps [simp]: "pr_server (demo_process st) = st" "pr_files (demo_process st) = demo_files"
  by (simp_all add: demo_process_def)

lemma demo_served:
  obtains r ps where "serve demo_router (demo_inputs 1) demo_add (demo_process demo_s0) = (r, ps)"
    "rs_status r = 200" "pr_server ps = demo_s1"
  using demo_serve_run by (auto split: prod.splits)

lemma demo_serving: "serving demo_router (demo_process demo_s0)"
  by (rule serving.start)
    (auto simp: fresh_start_def demo_s0_def demo_state_def sqlite_open_def empty_tables_def zero_sequences_def)

theorem keys_are_logged_witness:
  "\<exists>k. public_keys (tables_of demo_s1) = [k] \<and> in_log (pk_public_key k, pk_merkle_root k) demo_s1"
proof -
  obtain k where k: "public_keys (tables_of demo_s1) = [k]"
    by (simp add: tables_of_def demo_s1_def demo_state_def sqlite_committed_def)
  obtain r ps where run: "serve demo_router (demo_inputs 1) demo_add (demo_process demo_s0) = (r, ps)"
    "pr_server ps = demo_s1" by (rule demo_served)
  have "serving demo_router ps" by (rule serving.request [OF demo_serving run(1)])
  with keys_are_logged [of demo_router ps k] k run(2) show ?thesis by simp
qed

theorem serving_well_formed_witness: "wf_tables (tables_of demo_s1)"
proof -
  obtain r ps where run: "serve demo_router (demo_inputs 1) demo_add (demo_process demo_s0) = (r, ps)"
    "pr_server ps = demo_s1" by (rule demo_served)
  have "serving demo_router ps" by (rule serving.request [OF demo_serving run(1)])
  with serving_well_formed [of demo_router ps] run(2) show ?thesis by simp
qed

definition demo_shred :: http_request where
  "demo_shred =
     (demo_request ''{\"actor-id\":\"alice\"}'')
       \<lparr> hr_path := ''/admin/crypto-shred'', hr_headers := [(''Authorization'', ''Bearer '' @ demo_access)] \<rparr>"

lemma demo_shred_run:
  "case serve demo_router (demo_inputs 1) demo_shred (demo_process demo_s1) of (r, ps) \<Rightarrow>
     rs_status r = 200 \<and> active_keys ''alice'' (tables_of (pr_server ps)) = [] \<and>
     tables_of (pr_server ps) \<noteq> tables_of demo_s1"
  by code_simp

theorem tables_change_only_by_witness:
  "\<exists>r ps a root. serve demo_router (demo_inputs 1) demo_shred (demo_process demo_s1) = (r, ps) \<and>
     admin_passed demo_router (demo_inputs 1) demo_shred (pr_files ps) \<and>
     decode_request ''actor-id'' (hr_body demo_shred) = Some a \<and>
     burn_spec a root (tables_of demo_s1) () (tables_of (pr_server ps))"
proof -
  obtain r ps where run: "serve demo_router (demo_inputs 1) demo_shred (demo_process demo_s1) = (r, ps)"
    "rs_status r = 200" "tables_of (pr_server ps) \<noteq> tables_of demo_s1"
    using demo_shred_run by (auto split: prod.splits)
  have "rs_status (fst (post_protocol demo_env (in_world (demo_inputs 1)) demo_shred demo_s1)) \<noteq> 200" by code_simp
  then have "post_protocol (ro_env demo_router) (in_world (demo_inputs 1)) demo_shred (pr_server (demo_process demo_s1)) \<noteq>
      (r, pr_server ps)"
    using run(2) by (auto simp: demo_router_def)
  with tables_change_only_by [of "demo_process demo_s1" demo_router "demo_inputs 1" demo_shred r ps] run demo_ready(2)
  show ?thesis by auto
qed


definition demo_list :: http_request where
  "demo_list = (demo_request [])\<lparr> hr_method := ''GET'', hr_path := ''/keys'' \<rparr>"


theorem admin_shut_out_witness:
  "\<exists>r. serve demo_router (demo_inputs 1) demo_shred \<lparr> pr_server = demo_s1, pr_files = demo_json_files \<rparr> =
       (r, \<lparr> pr_server = demo_s1, pr_files = demo_json_files \<rparr>) \<and> rs_status r \<in> {401, 403, 500}"
proof -
  obtain r ps where run:
    "serve demo_router (demo_inputs 1) demo_shred \<lparr> pr_server = demo_s1, pr_files = demo_json_files \<rparr> = (r, ps)"
    by (cases "serve demo_router (demo_inputs 1) demo_shred \<lparr> pr_server = demo_s1, pr_files = demo_json_files \<rparr>")
  have json: "fs_content demo_json_files (kf_path (sc_key_file (cfg_server demo_loaded))) = Some (CHR ''{'' # ''}'')"
    by code_simp
  have "routed demo_router demo_shred = Some (ShredActor, \<lambda>_. [])"
    by (simp add: routed_def demo_router_def demo_match_def demo_shred_def demo_request_def routes_def)
  from admin_shut_out [OF demo_new_router(2) json this _ run] run show ?thesis
    by (simp add: behind_auth_def)
qed


subsection \<open>Two servers\<close>

definition demo_peer :: server_env where
  "demo_peer = demo_env\<lparr> sv_peers := [(''http://pkd:8080'', replicate 43 (CHR ''A''))] \<rparr>"

definition demo_gossip_body :: string where
  "demo_gossip_body =
     ''{\"!pkd-context\":\"https://github.com/fedi-e2ee/public-key-directory/v1\",\"action\":\"Checkpoint\",\"message\":{\"time\":\"1970-01-01T00:00:00Z\",\"from-directory\":\"http://pkd:8080\",\"from-root\":\"root1\",\"from-public-key\":\"\",\"to-directory\":\"http://peer\",\"to-validated-root\":\"\"},\"recent-merkle-root\":\"\",\"signature\":\"AAAAAAAAAAAAAAAAAAAAAAAAAAAAAAAAAAAAAAAAAAAf\"}''"

lemma demo_gossip_sent:
  "sign_checkpoint demo_prims (replicate 64 0)
     (checkpoint_envelope (marshal_checkpoint (checkpoint_payload demo_loaded 0 ''root1'' ''http://peer''))) =
   Some (Inr demo_gossip_body)"
  by code_simp


subsection \<open>The command line\<close>

definition demo_keygen_env :: keygen_env where
  "demo_keygen_env =
     \<lparr> ke_generate_key = (\<lambda>_. Inr (replicate 64 0)), ke_write_as = (\<lambda>_. Inr ()), ke_write_config = (\<lambda>_. Written) \<rparr>"

definition demo_keygen_flags :: keygen_flags where
  "demo_keygen_flags =
     \<lparr> kg_config = ''config.yaml'', kg_force = False, kg_driver = ''sqlite'', kg_dsn = [], kg_key_file = ''k'' \<rparr>"

definition demo_keys :: settings where
  "demo_keys = new_keys (replicate 64 0) (replicate 32 1)"

definition demo_keygen_config :: config_env where
  "demo_keygen_config = demo_config_env\<lparr> ce_key_file := \<lambda>_. Inr demo_keys \<rparr>"

theorem keygen_configures_witness:
  "\<exists>cfg. LoadAndValidate demo_keygen_config [] = Some (Inr cfg) \<and> sc_signing_key (cfg_server cfg) = replicate 64 0 \<and>
     sc_hpke_private_key (cfg_server cfg) = Some (replicate 32 1)"
proof -
  let ?files = "(\<lambda>_. None)(''k'' \<mapsto> demo_keys, ''config.yaml'' \<mapsto> new_config demo_keygen_flags no_settings)"
  have run: "keygen demo_keygen_env demo_keygen_flags [] (replicate 32 1) (\<lambda>_. None) = (Generated, ?files)"
    by (simp add: keygen_def write_new_config_def demo_keygen_env_def demo_keygen_flags_def read_full_def
        demo_keys_def no_settings_def Let_def)
  have "ce_load demo_keygen_config [] = Inr demo_config" "kf_path (sc_key_file (cfg_server demo_config)) = ''k''"
    by (simp_all add: demo_keygen_config_def demo_config_env_def demo_config_def demo_server_config_def)
  moreover have "ce_derive demo_keygen_config (take 32 (replicate 32 1)) = Some (replicate 32 1, replicate 32 1)"
    by (simp add: demo_keygen_config_def demo_config_env_def)
  moreover have "ce_key_file demo_keygen_config ''k'' = Inr demo_keys" by (simp add: demo_keygen_config_def)
  ultimately show ?thesis
    using keygen_configures [OF run, where cenv = demo_keygen_config and path = "[]" and cfg = demo_config and
        privKey = "replicate 64 0" and e = json_error and s = "new_config demo_keygen_flags no_settings"]
    by (auto simp: demo_keygen_flags_def demo_keygen_env_def new_config_def)
qed

lemma demo_minted:
  "tokenMint demo_token_prims (Inr demo_loaded) (Inl json_error) (Inr pg_open) ''k'' [] [] demo_entropy demo_entropy 0 0 demo_files =
     (Inr (demo_access, demo_refresh), demo_files)"
proof -
  have "mint_key_manager demo_loaded ''k'' [] = ts_key_manager demo_tokens"
    "NewPasetoTokenService (mint_key_manager demo_loaded ''k'' []) demo_loaded 0 = demo_tokens"
    by code_simp+
  moreover have "NewFileKeyManager demo_token_prims [] (mint_key_manager demo_loaded ''k'' []) demo_files =
      (Inr (mint_key_manager demo_loaded ''k'' []), demo_files)"
    by (simp add: NewFileKeyManager_def os_Stat_def mint_key_manager_def demo_files_def Let_def op_defs)
  moreover have "cli_repository (Inl json_error) (Inr pg_open) demo_loaded = Inr (PostgresDB pg_open)"
    by (simp add: cli_repository_def demo_loaded_def demo_config_def NewConfig_def)
  ultimately show ?thesis by (simp add: tokenMint_def op_defs demo_pair)
qed

theorem minted_token_admits_witness:
  "\<exists>claims. authMiddleware demo_token_prims demo_loaded demo_tokens \<lparr> aw_rand = [], aw_now_ns = 900000000000 \<rparr> demo_shred demo_files =
     (Inr claims, demo_files)"
proof -
  have same: "file_key_manager demo_loaded (kf_password (sc_key_file (cfg_server demo_loaded))) = mint_key_manager demo_loaded ''k'' []"
    by code_simp
  have req: "header_get demo_shred ''Authorization'' = ''Bearer '' @ demo_access" "CHR '' '' \<notin> set demo_access"
    "header_get demo_shred ''X-PKD-Key-Password'' = []"
  proof -
    have names: "canonical_name ''Authorization'' = ''Authorization''" "canonical_name ''X-PKD-Key-Password'' \<noteq> ''Authorization''"
      by code_simp+
    then show "header_get demo_shred ''Authorization'' = ''Bearer '' @ demo_access" "header_get demo_shred ''X-PKD-Key-Password'' = []"
      by (simp_all add: header_get_def demo_shred_def)
    have "list_all (\<lambda>c. c \<noteq> CHR '' '') demo_access" by code_simp
    then show "CHR '' '' \<notin> set demo_access" by (auto simp: list_all_iff)
  qed
  have zone: "\<bar>0 :: int\<bar> < 1440" "0 \<le> int (0 + 900) + 60 * 0"
    "fst (civil_from_days (nat (int (0 + 900) + 60 * 0) div 86400)) < 10000" by code_simp+
  have now: "aw_now_ns \<lparr> aw_rand = [], aw_now_ns = 900000000000 \<rparr> \<le> int (0 + 900) * 1000000000" by simp
  have router: "ro_config demo_router = demo_loaded" "ro_tokens demo_router = demo_tokens" by (simp_all add: demo_router_def)
  show ?thesis
    by (rule minted_token_admits [OF demo_paseto demo_minted demo_new_router(1) same req zone now, unfolded router])
qed

subsection \<open>The scheduler\<close>

lemma demo_runs: "runs demo_loaded"
proof -
  have "ParseDuration (pol_interval (cfg_checkpoint_policy demo_loaded)) = Some 1000000000 \<and>
      pol_interval (cfg_checkpoint_policy demo_loaded) \<noteq> []" by code_simp
  then show ?thesis by (simp add: runs_def)
qed

definition demo_started :: scheduler where
  "demo_started = NewScheduler\<lparr> sd_started := True, sd_ticking := True, sd_goroutine := Waiting \<rparr>"

lemma demo_start: "scheduled demo_prims demo_loaded demo_started"
proof -
  have "Start demo_loaded NewScheduler = demo_started" by code_simp
  then show ?thesis
    using scheduled.step [OF scheduled.new sched_step.start [of NewScheduler demo_prims demo_loaded]]
    by (simp add: NewScheduler_def)
qed

lemma demo_stop: "scheduled demo_prims demo_loaded (Stop demo_started)"
  using scheduled.step [OF demo_start sched_step.stop [of demo_started]]
  by (simp add: demo_started_def NewScheduler_def)

definition demo_stopped :: scheduler where
  "demo_stopped = (Stop demo_started)\<lparr> sd_goroutine := Returned, sd_caller := Stopped \<rparr>"

lemma demo_handshake: "sched_step demo_prims demo_loaded (Stop demo_started) demo_stopped"
  using sched_step.handshake [of "Stop demo_started"]
  by (simp add: demo_stopped_def demo_started_def NewScheduler_def Stop_def)

theorem stop_needs_interval_witness:
  "\<exists>d. ParseDuration (pol_interval (cfg_checkpoint_policy demo_loaded)) = Some d \<and> 0 < d"
  using stop_needs_interval [OF scheduled.step [OF demo_stop demo_handshake]] by (simp add: demo_stopped_def)

theorem stop_terminates_witness:
  "sched_run demo_prims demo_loaded 1 (Stop demo_started) demo_stopped \<and> (1 :: nat) \<le> 4"
proof -
  have "sched_run demo_prims demo_loaded (Suc 0) (Stop demo_started) demo_stopped"
    by (rule sched_run.one_step [OF demo_handshake sched_run.no_step])
  with stop_terminates [OF demo_stop demo_runs _ this] show ?thesis by (simp add: Stop_def)
qed


subsection \<open>Starting\<close>

definition demo_startup :: startup_env where
  "demo_startup =
     \<lparr> su_config = demo_config_env, su_connect = (\<lambda>_ _. Inr ()), su_pragma = Inr (), su_ping = Inr (),
       su_listen = (\<lambda>_. Inr ()), su_sqlite = (\<lambda>_. sqlite_open), su_postgres = (\<lambda>_. pg_open),
       su_prims = demo_prims, su_enc = demo_enc, su_parse_age = (\<lambda>_. Inr ()), su_parse_ssh = (\<lambda>_. Inr ()),
       su_url_parse = (\<lambda>_. Inl json_error), su_token_prims = demo_token_prims, su_rand = [], su_zone = 0,
       su_public_json = Inr ''{}'', su_match = demo_match, su_unmatched = (\<lambda>_. respondWithError 404 []) \<rparr>"


end
