(* ===== verification/Spec2Isabelle.thy ===== *)
theory Spec2Isabelle
  imports ServerWitnesses
begin

text \<open>
  \<^bold>\<open>A public key directory server.\<close>

  This development models the server of the Fediverse public key directory, its command line and the
  one client in its repository, from the bytes of an HTTP request to the rows of the database, and
  proves what the protocol endpoint, the REST routes and the administrator's routes guarantee.

  \<^bold>\<open>What the program does.\<close> An instance of the Fediverse posts a signed protocol message to
  \<^verbatim>\<open>/protocol\<close>. The endpoint checks the HTTP signature where one is due, decodes the envelope, and
  calls the handler of the message's action. The handler decodes the payload, looks up the keys the message
  must be signed with, verifies the signature, submits the signed part to the SigSum transparency log, and
  then changes the database in one transaction, through the domain service and one of two repositories. The
  REST routes read the database. The administrator's routes, behind a middleware that checks tokens, shred
  an actor's keys or send a checkpoint to a peer directory; a scheduler sends checkpoints too. The command
  line makes the server's keys, mints tokens and shreds an actor's keys.

  \<^bold>\<open>The theories, from the bottom up.\<close>

  \<^item> \<open>Prelude\<close>, \<open>Base64\<close>, \<open>Json\<close>: bytes, Go's errors and the result type; \<^verbatim>\<open>encoding/base64\<close>;
    \<^verbatim>\<open>encoding/json\<close> (reader, writer, and the compaction of a \<^verbatim>\<open>RawMessage\<close>). \<open>JsonText\<close> proves
    that what the program writes reads back, and \<open>Envelope\<close> that a whole protocol message does.
  \<^item> \<open>Messages\<close>: \<^verbatim>\<open>internal/protocol\<close> (\<^verbatim>\<open>messages.go\<close>, \<^verbatim>\<open>unmarshal.go\<close>,
    \<^verbatim>\<open>constants.go\<close>); \<open>ApiTypes\<close>: its \<^verbatim>\<open>api.go\<close>.
  \<^item> \<open>Store\<close>: \<^verbatim>\<open>internal/domain/models.go\<close> and the schemas of \<^verbatim>\<open>sql/\<close>: rows, tables, the
    statements on them and the constraints. \<open>StoreLaws\<close>: the relation each statement satisfies.
  \<^item> \<open>Repo\<close>: \<^verbatim>\<open>internal/db/repository.go\<close>, as a record of operations and the locale \<open>repository\<close>
    with the laws of each. \<open>SQLite\<close> and \<open>Postgres\<close>: \<^verbatim>\<open>sqlite.go\<close> and \<^verbatim>\<open>postgres.go\<close>, each
    an interpretation of the locale; \<open>Database\<close>: whichever of the two is configured, the third
    interpretation, on which all that follows rests.
  \<^item> \<open>Signing\<close>, \<open>AttrEnc\<close>: \<^verbatim>\<open>internal/crypto\<close>. \<open>UrlValidator\<close>: \<^verbatim>\<open>internal/util\<close>.
  \<^item> \<open>Directory\<close>: the abstract state of a server, for each actor the multiset of its active keys, and
    the abstract operations. \<open>Service\<close>: \<^verbatim>\<open>internal/domain/service.go\<close> and the validators of
    \<^verbatim>\<open>internal/auxdata\<close>, one transaction per action over any repository. \<open>Effects\<close>: each of them
    refines its abstract operation.
  \<^item> \<open>Api\<close>: \<^verbatim>\<open>internal/api/helpers.go\<close> and \<^verbatim>\<open>internal/sigsum/http_client.go\<close>, the state of a
    request and the steps handlers are made of. \<open>Handlers\<close>: \<^verbatim>\<open>protocol_actions.go\<close>, the ten actions.
    \<open>Outcomes\<close>: what each can do. \<open>Dispatch\<close>: \<^verbatim>\<open>protocol_handler.go\<close> and
    \<^verbatim>\<open>http_signature_helpers.go\<close>, the endpoint itself.
  \<^item> \<open>Guarantees\<close>: the properties of one request to the endpoint, and of every sequence of them.
    \<open>Liveness\<close>: when an AddKey succeeds. \<open>Concurrency\<close>: RevokeKey requests that run at the same
    time. \<open>Twins\<close>: the same server over SQLite and over PostgreSQL, related by the locale
    \<open>twin_repositories\<close>. \<open>Client\<close>: \<^verbatim>\<open>AddSampleKey\<close> of \<^verbatim>\<open>internal/testutil/helpers.go\<close> against the
    server.
  \<^item> \<open>Config\<close>: \<^verbatim>\<open>internal/config\<close>. \<open>Times\<close>: RFC 3339 times as \<^verbatim>\<open>time\<close> writes and reads them.
    \<open>Tokens\<close>, \<open>Auth\<close>: \<^verbatim>\<open>internal/auth\<close> (key file, encryption, token service) and
    \<^verbatim>\<open>auth_middleware.go\<close>.
  \<^item> \<open>Checkpoints\<close>: the messages of \<^verbatim>\<open>admin_handler.go\<close> and \<^verbatim>\<open>checkpoint/scheduler.go\<close>;
    \<open>Scheduler\<close>: its \<^verbatim>\<open>Start\<close>, \<^verbatim>\<open>Stop\<close> and goroutine as a state machine; \<open>Gossip\<close>: a
    checkpoint from one server to another.
  \<^item> \<open>Routes\<close>: \<^verbatim>\<open>server.go\<close>, the route table, the REST handlers and the administrator's.
    \<open>Server\<close>: one request on any route, and every state the process can be in between requests.
    \<open>Answers\<close>: types for JSON documents, and the type of every route's answers.
  \<^item> \<open>Startup\<close>: \<^verbatim>\<open>server/main.go\<close>. \<open>Cli\<close>: \<^verbatim>\<open>cmd/keygen.go\<close>, \<^verbatim>\<open>cmd/token.go\<close>,
    \<^verbatim>\<open>cmd/actor.go\<close>.
  \<^item> \<open>Demo\<close>, \<open>DemoServer\<close>: concrete instances of all parameters and runs of the model, evaluated.
    \<open>Witnesses\<close>, \<open>ServerWitnesses\<close>: every property that has hypotheses, at inputs that meet them.
\<close>

text \<open>
  \<^bold>\<open>How state and operations correspond to the code.\<close> Functions and methods keep their Go names; a
  receiver or a library is an argument. A call that can fail returns \<open>Inl\<close> its error or \<open>Inr\<close> its value,
  and a wrapped error stays visible to \<^verbatim>\<open>errors.Is\<close>. A call on the database is a
  function of a handle that returns its result and the handle afterwards. A handle has the committed tables,
  the working copy of an open transaction, and a list of faults: for each call to come, whether the driver
  refuses it and how much time passes. A theorem over every handle is thus a theorem over every pattern of
  driver faults. A handler is a chain of steps on \<open>server_state\<close>, each of which goes on with a value or ends
  with the response it has sent. A panic is an explicit value (a 500 the router sends in its place, or the
  end of the goroutine), wherever the code can reach one in the model.

  \<^bold>\<open>What is a parameter.\<close> Ed25519, SHA-256 and JCS (\<open>prims\<close>); HKDF, HMAC, SHA-512, Argon2id, the AES
  block, HPKE and the TOTP check (\<open>enc_prims\<close>); AES-GCM, PASETO and UUIDs (\<open>token_prims\<close>); the parsers of
  \<^verbatim>\<open>net/url\<close>, age and SSH keys; resolver, HTTP exchanges and the log's answers; random bytes and clocks;
  what viper reads; the patterns chi matches. Theorems that rely on one of these say so in a hypothesis: that
  Ed25519 verifies what it signed (\<open>ed25519_correct\<close>), that authenticated encryption opens what it sealed
  (\<open>gcm_correct\<close>, \<open>paseto_correct\<close>), that hash outputs have their documented lengths. No theorem assumes
  that a primitive is secure; theorems of the kind \<open>an accepted message verified\<close> need no assumption at all.

  \<^bold>\<open>What the lemmas show.\<close>

  \<^item> The tables keep their constraints under every statement, transaction, request and sequence of requests,
    with both back ends (\<open>StoreLaws\<close>, \<open>Repo\<close>, \<open>Outcomes\<close>, \<open>Server\<close>).
  \<^item> The endpoint refines the abstract directory: an accepted message changes it as its action says, under
    a verified signature and with the signed part logged; a refused one leaves the tables as they were
    (\<open>Effects\<close>, \<open>Outcomes\<close>, \<open>Guarantees\<close>). The answer to a well-formed AddKey is 200 while the
    database and the log work (\<open>Liveness\<close>), and the client then knows the identifier of its key (\<open>Client\<close>).
  \<^item> The two back ends cannot be told apart by the protocol's answers, within one second and up to the first
    answer of 500: from then on the sequences of PostgreSQL have gone ahead, and so may row numbers (\<open>Twins\<close>).
  \<^item> What the server writes is JSON of the type of the route, problem documents included (\<open>Answers\<close>).
  \<^item> Concurrent revocations revoke as many keys as were answered with 200, but two of them can remove the last
    key (\<open>Concurrency\<close>).
  \<^item> Keys, payloads, envelopes, checkpoints, key files, tokens and encrypted attributes are read back as they
    were written; decryption only succeeds on what the key's tag and commitment fit (\<open>Signing\<close>,
    \<open>Messages\<close>, \<open>Envelope\<close>, \<open>Gossip\<close>, \<open>AttrEnc\<close>, \<open>Tokens\<close>). The contract that encoders
    share is the locale \<open>codec\<close> of \<open>Base64\<close>.
  \<^item> Only \<^verbatim>\<open>POST /protocol\<close>, and an administrator with a token that is valid now, change the tables; the
    read-only routes answer what the tables hold; a refresh token is used once (\<open>Auth\<close>, \<open>Server\<close>).
  \<^item> \<^verbatim>\<open>Stop\<close> ends the scheduler within four steps once the ticker runs, and blocks for ever when it does not
    (\<open>Scheduler\<close>). A process that listens has decoded its keys, and all of the above holds of it (\<open>Startup\<close>).

  \<^bold>\<open>Bounds and fuel.\<close> The JSON reader runs on \<open>2 * length s + 2\<close> units of fuel for a text \<open>s\<close>;
  \<open>jvalue_fuel\<close> shows that any larger amount gives the same answer. Its nesting is limited to 10000, as in Go.
  The terms of a duration are read with as much fuel as there are characters, and each term takes at least one.
  The counter of counter mode has 128 bits and wraps around; \<open>AttrEnc\<close> shows which block masks which byte, and
  that no block serves twice in a message below \<open>2 ^ 132\<close> bytes. The other recursions are structural or have a
  measure. Lengths framed into bytes are below \<open>2 ^ 64\<close>, which the theorems that depend on it state. Identifiers and seconds are natural numbers.

  \<^bold>\<open>Not modelled.\<close>

  \<^item> Mocks and the scaffolding of tests (\<^verbatim>\<open>internal/testutil\<close> but \<^verbatim>\<open>AddSampleKey\<close>,
    \<^verbatim>\<open>internal/db/mock\<close>, \<^verbatim>\<open>internal/domain/mock\<close>, \<^verbatim>\<open>mock_client.go\<close>): no part of the program.
    \<^verbatim>\<open>sigsum/client.go\<close> is an interface with one method; \<^verbatim>\<open>cmd/main.go\<close> and \<^verbatim>\<open>cmd/config.go\<close> only
    call cobra and viper.
  \<^item> Logging, printing, the closing of databases, and the deferred calls that \<^verbatim>\<open>log.Fatalf\<close> skips.
  \<^item> Interleavings finer than whole requests, other than those of \<open>Concurrency\<close>. The theorems on sequences
    take requests one after the other.
  \<^item> The panic of Argon2id when the configured number of rounds is zero. A fraction in a duration is divided
    exactly, where Go uses floating point. The parser of HTTP itself, time-outs and cancelled contexts, apart
    from a body that is cut short and a driver that refuses.
  \<^item> The difference between an empty and a nil slice in \<open>ApiTypes\<close>, which no handler uses.
\<close>

end
